theory Spec2Isabelle
  imports Main
begin

section \<open>The Alcovia intervention engine\<close>

text \<open>
  The repository is a Node.js backend over PostgreSQL. It exists in two builds: the
  long-running Express server with a socket.io push channel (\<^verbatim>\<open>server/index.js\<close>, in the
  sources as \<^verbatim>\<open>unnamed/part_002\<close>) and the serverless handlers under \<^verbatim>\<open>api/\<close>
  (\<^verbatim>\<open>api/daily-checkin.js\<close>, \<^verbatim>\<open>api/complete-remedial.js\<close>, the assign-intervention handler
  \<^verbatim>\<open>unnamed/part_003\<close>, and the same three routes once more in \<^verbatim>\<open>api/index.js\<close>). The
  schema is \<^verbatim>\<open>schema.sql\<close> (\<^verbatim>\<open>unnamed/part_001\<close>). Both builds are embedded here, handler by
  handler.

  Modelling decisions:
  \<^item> a table is the list of its rows in insertion order, a row is a record of the columns
    the handlers read or write (the surrogate key and \<^verbatim>\<open>created_at\<close> of a student and the
    \<^verbatim>\<open>session_date\<close> of a log are left out);
  \<^item> the status columns are enumerations (their \<^verbatim>\<open>CHECK (status IN ...)\<close> lists);
  \<^item> timestamps are seconds on one clock, passed to each handler as \<open>now\<close>;
  \<^item> a request body is a record of optional fields (\<open>None\<close> is JavaScript's
    \<^verbatim>\<open>undefined\<close>); numbers in a body are integers, identifiers are strings;
  \<^item> a handler returns its HTTP response, the new state and the list of effects it
    had on the outside (outbound webhook call, socket emission, error log); the
    \<^verbatim>\<open>timestamp\<close> field of the webhook payload and the \<^verbatim>\<open>details\<close> field of an error
    answer are left out;
  \<^item> a statement raises, and the handler's \<^verbatim>\<open>catch\<close> answers 500, when a value of the
    request does not fit its column: a number outside \<^verbatim>\<open>INTEGER\<close>, a string with a NUL
    character, a mentor address longer than \<^verbatim>\<open>VARCHAR(255)\<close>, a log row that violates
    the range \<^verbatim>\<open>CHECK\<close>s of \<^verbatim>\<open>schema.sql\<close> where the table carries them. A statement
    that raises writes nothing. The store itself is taken to be reachable and its
    \<^verbatim>\<open>SERIAL\<close> sequences not exhausted;
  \<^item> the outbound call has three outcomes: it resolves, it throws, or it never settles
    (no handler passes a \<^verbatim>\<open>timeout\<close> to \<^verbatim>\<open>axios.post\<close>), and then the request is never
    answered.
\<close>

subsection \<open>Rows and tables\<close>

datatype student_status = Active | NeedsIntervention | Remedial | OnTrack

datatype intervention_status = Pending | Assigned | Completed | Expired

record student =
  student_id :: string
  name :: string
  email :: "string option"
  status :: student_status
  updated_at :: nat

record daily_log =
  log_id :: nat
  log_student_id :: string
  quiz_score :: int
  focus_minutes :: int
  passed :: bool
  tab_switches :: int
  log_created_at :: nat

record intervention =
  iv_id :: nat
  iv_student_id :: string
  trigger_log_id :: "nat option"
  mentor_email :: "string option"
  remedial_task :: "string option"
  iv_status :: intervention_status
  assigned_at :: "nat option"
  completed_at :: "nat option"
  iv_created_at :: nat
  expires_at :: "nat option"

text \<open>
  \<open>range_checks\<close> tells which \<^verbatim>\<open>CREATE TABLE IF NOT EXISTS daily_logs\<close> came first:
  the one of \<^verbatim>\<open>schema.sql\<close>, \<^verbatim>\<open>database/db.js\<close> and \<^verbatim>\<open>api/index.js\<close>
  (\<^verbatim>\<open>CHECK (quiz_score >= 0 AND quiz_score <= 10)\<close>, \<^verbatim>\<open>CHECK (focus_minutes >= 0)\<close>)
  or the one of \<^verbatim>\<open>api/daily-checkin.js\<close>, which has no \<^verbatim>\<open>CHECK\<close>.
\<close>

record db =
  students :: "student list"
  daily_logs :: "daily_log list"
  interventions :: "intervention list"
  range_checks :: bool

text \<open>
  \<^verbatim>\<open>SERIAL PRIMARY KEY\<close>: a new row gets an id above every id in the table. (The real
  sequence also skips the id of an \<^verbatim>\<open>INSERT\<close> that a constraint rejected; nothing below
  rests on which id above the present ones is taken.)
\<close>

definition next_id :: "nat list \<Rightarrow> nat" where
  "next_id ids = Suc (fold max ids 0)"

text \<open>\<^verbatim>\<open>SELECT * FROM students WHERE student_id = $1\<close>\<close>

definition select_student :: "db \<Rightarrow> string \<Rightarrow> student list" where
  "select_student d sid = filter (\<lambda>s. student_id s = sid) (students d)"

text \<open>\<^verbatim>\<open>UPDATE students SET status = ..., updated_at = CURRENT_TIMESTAMP WHERE student_id = $1\<close>\<close>

definition update_student_status :: "student_status \<Rightarrow> nat \<Rightarrow> string \<Rightarrow> db \<Rightarrow> db" where
  "update_student_status st now sid d =
     d\<lparr>students := map (\<lambda>s. if student_id s = sid then s\<lparr>status := st, updated_at := now\<rparr> else s)
                        (students d)\<rparr>"

text \<open>The values of an \<^verbatim>\<open>INTEGER\<close> column: 32 bits, signed.\<close>

definition int4 :: "int \<Rightarrow> bool" where
  "int4 x \<longleftrightarrow> - 2147483648 \<le> x \<and> x \<le> 2147483647"

text \<open>
  The values of a \<^verbatim>\<open>TEXT\<close> or \<^verbatim>\<open>VARCHAR\<close> parameter: PostgreSQL refuses a string that
  contains the NUL character, and the statement raises.
\<close>

definition text_value :: "string \<Rightarrow> bool" where
  "text_value x \<longleftrightarrow> list_all (\<lambda>c. c \<noteq> CHR 0x00) x"

text \<open>
  The query for a student as the check-in handlers run it: \<open>None\<close> when it raises, the
  rows otherwise.
\<close>

definition query_student :: "db \<Rightarrow> string \<Rightarrow> student list option" where
  "query_student d sid = (if text_value sid then Some (select_student d sid) else None)"

text \<open>
  \<^verbatim>\<open>INSERT INTO daily_logs (student_id, quiz_score, focus_minutes, tab_switches, passed,
  session_date) VALUES (...) RETURNING *\<close>; \<open>None\<close> is the exception node-postgres
  throws when a number is out of range for \<^verbatim>\<open>INTEGER\<close> or a \<^verbatim>\<open>CHECK\<close> constraint
  rejects the row.
\<close>

definition insert_daily_log ::
  "nat \<Rightarrow> string \<Rightarrow> int \<Rightarrow> int \<Rightarrow> int \<Rightarrow> bool \<Rightarrow> db \<Rightarrow> (daily_log \<times> db) option" where
  "insert_daily_log now sid q f t p d =
     (if \<not> (int4 q \<and> int4 f \<and> int4 t) then None
      else if range_checks d \<and> \<not> (0 \<le> q \<and> q \<le> 10 \<and> 0 \<le> f) then None
      else let row = \<lparr>log_id = next_id (map log_id (daily_logs d)), log_student_id = sid,
                       quiz_score = q, focus_minutes = f, passed = p, tab_switches = t,
                       log_created_at = now\<rparr>
           in Some (row, d\<lparr>daily_logs := daily_logs d @ [row]\<rparr>))"

text \<open>
  \<^verbatim>\<open>INSERT INTO interventions (student_id, trigger_log_id, status, expires_at)
  VALUES ($1, $2, 'pending', CURRENT_TIMESTAMP + INTERVAL '12 hours') RETURNING *\<close>;
  \<open>created_at\<close> takes its default, \<^verbatim>\<open>CURRENT_TIMESTAMP\<close>.
\<close>

definition twelve_hours :: nat where
  "twelve_hours = 12 * 60 * 60"

definition insert_intervention :: "nat \<Rightarrow> string \<Rightarrow> nat \<Rightarrow> db \<Rightarrow> intervention \<times> db" where
  "insert_intervention now sid lid d =
     (let row = \<lparr>iv_id = next_id (map iv_id (interventions d)), iv_student_id = sid,
                  trigger_log_id = Some lid, mentor_email = None, remedial_task = None,
                  iv_status = Pending, assigned_at = None, completed_at = None,
                  iv_created_at = now, expires_at = Some (now + twelve_hours)\<rparr>
      in (row, d\<lparr>interventions := interventions d @ [row]\<rparr>))"

text \<open>
  The intervention id of a request, bound to \<^verbatim>\<open>id = $n\<close>: absent or \<^verbatim>\<open>null\<close> it is
  \<^verbatim>\<open>NULL\<close>, and \<^verbatim>\<open>id = NULL\<close> holds for no row; a number outside \<^verbatim>\<open>INTEGER\<close> makes
  the statement raise.
\<close>

definition int4_param :: "int option \<Rightarrow> bool" where
  "int4_param iid \<longleftrightarrow> (case iid of None \<Rightarrow> True | Some k \<Rightarrow> int4 k)"

definition matches :: "string \<Rightarrow> int option \<Rightarrow> intervention \<Rightarrow> bool" where
  "matches sid iid i \<longleftrightarrow> iv_student_id i = sid \<and> iid = Some (int (iv_id i))"

text \<open>
  A value assigned to a \<^verbatim>\<open>VARCHAR(n)\<close> column: stored as it is up to \<open>n\<close> characters,
  cut to \<open>n\<close> when all the excess is spaces, and refused (\<open>None\<close>) otherwise or when
  it is no text value. An absent value is stored as \<^verbatim>\<open>NULL\<close>.
\<close>

definition varchar :: "nat \<Rightarrow> string option \<Rightarrow> string option option" where
  "varchar n v =
     (case v of
        None \<Rightarrow> Some None
      | Some x \<Rightarrow>
          if \<not> text_value x then None
          else if length x \<le> n then Some (Some x)
          else if list_all (\<lambda>c. c = CHR '' '') (drop n x) then Some (Some (take n x))
          else None)"

text \<open>
  \<^verbatim>\<open>UPDATE interventions SET status = 'assigned', remedial_task = $1, mentor_email = $2,
  assigned_at = CURRENT_TIMESTAMP WHERE student_id = $3 AND id = $4\<close>; \<open>None\<close> when the
  statement raises (\<open>remedial_task\<close> is \<^verbatim>\<open>TEXT\<close> and takes any length).
\<close>

definition update_intervention_assigned ::
  "string \<Rightarrow> string option \<Rightarrow> nat \<Rightarrow> string \<Rightarrow> int option \<Rightarrow> db \<Rightarrow> db option" where
  "update_intervention_assigned task mentor now sid iid d =
     (if \<not> (text_value task \<and> text_value sid \<and> int4_param iid) then None
      else case varchar 255 mentor of
        None \<Rightarrow> None
      | Some stored \<Rightarrow>
          Some (d\<lparr>interventions :=
                   map (\<lambda>i. if matches sid iid i
                             then i\<lparr>iv_status := Assigned, remedial_task := Some task,
                                     mentor_email := stored, assigned_at := Some now\<rparr>
                             else i) (interventions d)\<rparr>))"

text \<open>
  \<^verbatim>\<open>UPDATE interventions SET status = 'completed', completed_at = CURRENT_TIMESTAMP
  WHERE student_id = $1 AND id = $2\<close>; \<open>None\<close> when the statement raises.
\<close>

definition update_intervention_completed :: "nat \<Rightarrow> string \<Rightarrow> int option \<Rightarrow> db \<Rightarrow> db option" where
  "update_intervention_completed now sid iid d =
     (if \<not> (text_value sid \<and> int4_param iid) then None
      else Some (d\<lparr>interventions :=
                    map (\<lambda>i. if matches sid iid i
                              then i\<lparr>iv_status := Completed, completed_at := Some now\<rparr>
                              else i) (interventions d)\<rparr>))"

subsection \<open>Requests, responses, effects\<close>

text \<open>\<^verbatim>\<open>req.body\<close>, destructured by the handlers; every field may be missing.\<close>

record body =
  req_student_id :: "string option"
  req_quiz_score :: "int option"
  req_focus_minutes :: "int option"
  req_tab_switches :: "int option"
  req_remedial_task :: "string option"
  req_mentor_email :: "string option"
  req_intervention_id :: "int option"

text \<open>
  What becomes of the promise of \<^verbatim>\<open>axios.post(url, data)\<close>: it resolves (an answer with a
  2xx status), it rejects (any other answer, a refused or broken connection), or it never
  settles (the endpoint accepts the connection and does not answer; no \<^verbatim>\<open>timeout\<close> option
  is passed, and the default of axios is none).
\<close>

datatype webhook_outcome = Resolves | Throws | NeverAnswers

text \<open>\<open>N8N_WEBHOOK_URL\<close> is \<^verbatim>\<open>process.env.N8N_WEBHOOK_URL\<close>.\<close>

record env =
  now :: nat
  N8N_WEBHOOK_URL :: "string option"
  webhook :: webhook_outcome

record webhook_payload =
  wp_student_id :: string
  wp_student_name :: string
  wp_student_email :: "string option"
  wp_quiz_score :: int
  wp_focus_minutes :: int
  wp_tab_switches :: int
  wp_intervention_id :: nat

datatype event =
    StatusUpdate student_status
  | InterventionAssigned student_status string "string option"

datatype effect =
    WebhookPost string webhook_payload
  | ConsoleError string
  | Emit string event

datatype response =
    Error nat string
  | End nat
  | NoAnswer
  | CheckinJson string string daily_log bool "nat option"
  | AssignJson string string string
  | CompleteJson string string

text \<open>
  \<open>NoAnswer\<close>: the handler never reaches \<^verbatim>\<open>res.json\<close>, the request stays open. The HTTP
  status of a response: \<^verbatim>\<open>res.json\<close> without \<^verbatim>\<open>res.status\<close> answers 200; no answer has
  no status (0 here).
\<close>

fun http_status :: "response \<Rightarrow> nat" where
  "http_status (Error c _) = c"
| "http_status (End c) = c"
| "http_status NoAnswer = 0"
| "http_status _ = 200"

text \<open>
  JavaScript's \<^verbatim>\<open>!x\<close> on a string field: true of \<^verbatim>\<open>undefined\<close> and of the empty
  string.
\<close>

definition falsy :: "string option \<Rightarrow> bool" where
  "falsy x \<longleftrightarrow> x = None \<or> x = Some []"

subsection \<open>The Gate Evaluator\<close>

text \<open>\<^verbatim>\<open>const passed = quiz_score > 7 && focus_minutes > 60 && tab_switches < 3;\<close>\<close>

definition gate :: "int \<Rightarrow> int \<Rightarrow> int \<Rightarrow> bool" where
  "gate quiz focus tabs \<longleftrightarrow> quiz > 7 \<and> focus > 60 \<and> tabs < 3"

subsection \<open>The Notification Dispatcher (\<^verbatim>\<open>server/index.js\<close>)\<close>

text \<open>
  \<^verbatim>\<open>connectedStudents\<close> is a JavaScript \<^verbatim>\<open>Map\<close> from student id to socket id: its
  entries in insertion order. \<^verbatim>\<open>set\<close> on a present key replaces the value in place,
  on a new key it appends; \<^verbatim>\<open>delete\<close> removes the key's entry.
\<close>

type_synonym registry = "(string \<times> string) list"

definition map_get :: "registry \<Rightarrow> string \<Rightarrow> string option" where
  "map_get m k = map_of m k"

definition map_set :: "registry \<Rightarrow> string \<Rightarrow> string \<Rightarrow> registry" where
  "map_set m k v =
     (if k \<in> set (map fst m) then map (\<lambda>(k', v'). if k' = k then (k', v) else (k', v')) m
      else m @ [(k, v)])"

definition map_delete :: "registry \<Rightarrow> string \<Rightarrow> registry" where
  "map_delete m k = filter (\<lambda>(k', v'). k' \<noteq> k) m"

text \<open>\<^verbatim>\<open>socket.on('register', (studentId) => { connectedStudents.set(studentId, socket.id) })\<close>\<close>

definition register :: "string \<Rightarrow> string \<Rightarrow> registry \<Rightarrow> registry" where
  "register socket studentId m = map_set m studentId socket"

text \<open>
  \<^verbatim>\<open>socket.on('disconnect', ...)\<close>: the loop over \<^verbatim>\<open>connectedStudents.entries()\<close>
  deletes the first entry whose socket id is the socket's and leaves the loop
  (\<^verbatim>\<open>break\<close>).
\<close>

fun disconnect_loop :: "string \<Rightarrow> registry \<Rightarrow> registry \<Rightarrow> registry" where
  "disconnect_loop socket [] m = m"
| "disconnect_loop socket ((studentId, socketId) # entries) m =
     (if socketId = socket then map_delete m studentId
      else disconnect_loop socket entries m)"

definition disconnect :: "string \<Rightarrow> registry \<Rightarrow> registry" where
  "disconnect socket m = disconnect_loop socket m m"

text \<open>
  \<^verbatim>\<open>notifyStudent\<close>: emits to the mapped socket, does nothing without one. It never
  writes to the registry. A socket id is never the empty string, so \<^verbatim>\<open>if (socketId)\<close>
  tests presence.
\<close>

definition notifyStudent :: "registry \<Rightarrow> string \<Rightarrow> event \<Rightarrow> effect list" where
  "notifyStudent m studentId ev =
     (case map_get m studentId of None \<Rightarrow> [] | Some socketId \<Rightarrow> [Emit socketId ev])"

subsection \<open>The outbound escalation call\<close>

text \<open>
  \<^verbatim>\<open>if (process.env.N8N_WEBHOOK_URL) { try { await axios.post(...) } catch (webhookError)
  { console.error(...) } }\<close>: one call when the address is set, an error log when the
  call throws, and nothing thrown further. The second component tells whether the
  \<^verbatim>\<open>await\<close> returns: the handler goes on only then.
\<close>

definition trigger_webhook :: "string \<Rightarrow> env \<Rightarrow> webhook_payload \<Rightarrow> effect list \<times> bool" where
  "trigger_webhook msg e p =
     (if falsy (N8N_WEBHOOK_URL e) then ([], True)
      else case webhook e of
        Resolves \<Rightarrow> ([WebhookPost (the (N8N_WEBHOOK_URL e)) p], True)
      | Throws \<Rightarrow> ([WebhookPost (the (N8N_WEBHOOK_URL e)) p, ConsoleError msg], True)
      | NeverAnswers \<Rightarrow> ([WebhookPost (the (N8N_WEBHOOK_URL e)) p], False))"

subsection \<open>The Express server (\<^verbatim>\<open>server/index.js\<close>)\<close>

record server =
  store :: db
  connectedStudents :: registry

text \<open>\<^verbatim>\<open>app.post('/api/daily-checkin', ...)\<close>\<close>

definition server_daily_checkin :: "env \<Rightarrow> body \<Rightarrow> server \<Rightarrow> response \<times> server \<times> effect list" where
  "server_daily_checkin e b s =
     (let tabs = (case req_tab_switches b of None \<Rightarrow> 0 | Some t \<Rightarrow> t) in
      if falsy (req_student_id b) \<or> req_quiz_score b = None \<or> req_focus_minutes b = None
      then (Error 400 ''Missing required fields: student_id, quiz_score, focus_minutes'', s, [])
      else
        let sid = the (req_student_id b); quiz = the (req_quiz_score b);
            focus = the (req_focus_minutes b)
        in
        if quiz < 0 \<or> quiz > 10 then (Error 400 ''quiz_score must be between 0 and 10'', s, [])
        else if focus < 0 then (Error 400 ''focus_minutes must be non-negative'', s, [])
        else
          (case query_student (store s) sid of
             None \<Rightarrow> (Error 500 ''Internal server error'', s,
                      [ConsoleError ''Error in daily-checkin:''])
           | Some [] \<Rightarrow> (Error 404 ''Student not found'', s, [])
           | Some (stu # _) \<Rightarrow>
               let p = gate quiz focus tabs in
               (case insert_daily_log (now e) sid quiz focus tabs p (store s) of
                  None \<Rightarrow> (Error 500 ''Internal server error'', s,
                           [ConsoleError ''Error in daily-checkin:''])
                | Some (dailyLog, d1) \<Rightarrow>
                    if p then
                      (CheckinJson ''On Track'' ''Great job! Keep up the good work.'' dailyLog True None,
                       s\<lparr>store := update_student_status OnTrack (now e) sid d1\<rparr>,
                       notifyStudent (connectedStudents s) sid (StatusUpdate OnTrack))
                    else
                      let d2 = update_student_status NeedsIntervention (now e) sid d1;
                          (iv, d3) = insert_intervention (now e) sid (log_id dailyLog) d2;
                          (posted, settled) =
                            trigger_webhook ''Failed to trigger n8n webhook:'' e
                              \<lparr>wp_student_id = sid, wp_student_name = name stu,
                               wp_student_email = email stu, wp_quiz_score = quiz,
                               wp_focus_minutes = focus, wp_tab_switches = tabs,
                               wp_intervention_id = iv_id iv\<rparr>
                      in
                      if settled then
                        (CheckinJson ''Pending Mentor Review''
                           ''Your performance needs attention. A mentor will review soon.''
                           dailyLog False (Some (iv_id iv)),
                         s\<lparr>store := d3\<rparr>,
                         posted @ notifyStudent (connectedStudents s) sid
                                    (StatusUpdate NeedsIntervention))
                      else (NoAnswer, s\<lparr>store := d3\<rparr>, posted))))"

text \<open>\<^verbatim>\<open>app.post('/api/assign-intervention', ...)\<close>\<close>

definition server_assign_intervention ::
  "nat \<Rightarrow> body \<Rightarrow> server \<Rightarrow> response \<times> server \<times> effect list" where
  "server_assign_intervention t b s =
     (if falsy (req_student_id b) \<or> falsy (req_remedial_task b)
      then (Error 400 ''Missing required fields: student_id, remedial_task'', s, [])
      else
        let sid = the (req_student_id b); task = the (req_remedial_task b) in
        (case update_intervention_assigned task (req_mentor_email b) t sid
                (req_intervention_id b) (store s) of
           None \<Rightarrow> (Error 500 ''Internal server error'', s,
                    [ConsoleError ''Error assigning intervention:''])
         | Some d1 \<Rightarrow>
             (AssignJson ''Intervention assigned successfully'' sid task,
              s\<lparr>store := update_student_status Remedial t sid d1\<rparr>,
              notifyStudent (connectedStudents s) sid
                (InterventionAssigned Remedial task (req_mentor_email b)))))"

text \<open>\<^verbatim>\<open>app.post('/api/complete-remedial', ...)\<close>\<close>

definition server_complete_remedial ::
  "nat \<Rightarrow> body \<Rightarrow> server \<Rightarrow> response \<times> server \<times> effect list" where
  "server_complete_remedial t b s =
     (if falsy (req_student_id b) then (Error 400 ''Missing student_id'', s, [])
      else
        let sid = the (req_student_id b) in
        (case update_intervention_completed t sid (req_intervention_id b) (store s) of
           None \<Rightarrow> (Error 500 ''Internal server error'', s,
                    [ConsoleError ''Error completing remedial:''])
         | Some d1 \<Rightarrow>
             (CompleteJson ''Remedial task completed. You can now proceed with daily check-ins.''
                ''active'',
              s\<lparr>store := update_student_status Active t sid d1\<rparr>,
              notifyStudent (connectedStudents s) sid (StatusUpdate Active))))"

subsection \<open>The serverless handlers (\<^verbatim>\<open>api/\<close>)\<close>

text \<open>
  \<^verbatim>\<open>initDatabase\<close> of \<^verbatim>\<open>api/daily-checkin.js\<close>, run by every request: the tables
  exist already (see \<open>range_checks\<close>), and the sample student is inserted
  \<^verbatim>\<open>ON CONFLICT (student_id) DO NOTHING\<close>.
\<close>

definition initDatabase :: "nat \<Rightarrow> db \<Rightarrow> db" where
  "initDatabase t d =
     (if ''123'' \<in> set (map student_id (students d)) then d
      else d\<lparr>students := students d @
               [\<lparr>student_id = ''123'', name = ''Test Student'',
                 email = Some ''student@test.com'', status = Active, updated_at = t\<rparr>]\<rparr>)"

text \<open>
  \<^verbatim>\<open>api/daily-checkin.js\<close>, and with the same body the \<^verbatim>\<open>/api/daily-checkin\<close> route
  of \<^verbatim>\<open>api/index.js\<close>. There is no push channel here.
\<close>

definition api_daily_checkin ::
  "env \<Rightarrow> string \<Rightarrow> body \<Rightarrow> db \<Rightarrow> response \<times> db \<times> effect list" where
  "api_daily_checkin e method b d0 =
     (if method = ''OPTIONS'' then (End 200, d0, [])
      else if method \<noteq> ''POST'' then (Error 405 ''Method not allowed'', d0, [])
      else
        let d = initDatabase (now e) d0;
            tabs = (case req_tab_switches b of None \<Rightarrow> 0 | Some t \<Rightarrow> t)
        in
        if falsy (req_student_id b) \<or> req_quiz_score b = None \<or> req_focus_minutes b = None
        then (Error 400 ''Missing required fields: student_id, quiz_score, focus_minutes'', d, [])
        else
          let sid = the (req_student_id b); quiz = the (req_quiz_score b);
              focus = the (req_focus_minutes b)
          in
          (case query_student d sid of
             None \<Rightarrow> (Error 500 ''Internal server error'', d,
                      [ConsoleError ''Error in daily-checkin:''])
           | Some [] \<Rightarrow> (Error 404 ''Student not found'', d, [])
           | Some (stu # _) \<Rightarrow>
               let p = gate quiz focus tabs in
               (case insert_daily_log (now e) sid quiz focus tabs p d of
                  None \<Rightarrow> (Error 500 ''Internal server error'', d,
                           [ConsoleError ''Error in daily-checkin:''])
                | Some (dailyLog, d1) \<Rightarrow>
                    if p then
                      (CheckinJson ''On Track'' ''Great job! Keep up the good work.'' dailyLog True None,
                       update_student_status OnTrack (now e) sid d1, [])
                    else
                      let d2 = update_student_status NeedsIntervention (now e) sid d1;
                          (iv, d3) = insert_intervention (now e) sid (log_id dailyLog) d2;
                          (posted, settled) =
                            trigger_webhook ''Failed to trigger n8n:'' e
                              \<lparr>wp_student_id = sid, wp_student_name = name stu,
                               wp_student_email = email stu, wp_quiz_score = quiz,
                               wp_focus_minutes = focus, wp_tab_switches = tabs,
                               wp_intervention_id = iv_id iv\<rparr>
                      in
                      if settled then
                        (CheckinJson ''Pending Mentor Review''
                           ''Your performance needs attention. A mentor will review soon.''
                           dailyLog False (Some (iv_id iv)),
                         d3, posted)
                      else (NoAnswer, d3, posted))))"

text \<open>The assign-intervention handler under \<^verbatim>\<open>api/\<close> (also the route of \<^verbatim>\<open>api/index.js\<close>).\<close>

definition api_assign_intervention ::
  "nat \<Rightarrow> string \<Rightarrow> body \<Rightarrow> db \<Rightarrow> response \<times> db \<times> effect list" where
  "api_assign_intervention t method b d =
     (if method = ''OPTIONS'' then (End 200, d, [])
      else if method \<noteq> ''POST'' then (Error 405 ''Method not allowed'', d, [])
      else if falsy (req_student_id b) \<or> falsy (req_remedial_task b)
      then (Error 400 ''Missing required fields: student_id, remedial_task'', d, [])
      else
        let sid = the (req_student_id b); task = the (req_remedial_task b) in
        (case update_intervention_assigned task (req_mentor_email b) t sid
                (req_intervention_id b) d of
           None \<Rightarrow> (Error 500 ''Internal server error'', d, [ConsoleError ''Error:''])
         | Some d1 \<Rightarrow>
             (AssignJson ''Intervention assigned successfully'' sid task,
              update_student_status Remedial t sid d1, [])))"

text \<open>\<^verbatim>\<open>api/complete-remedial.js\<close> (also the route of \<^verbatim>\<open>api/index.js\<close>).\<close>

definition api_complete_remedial ::
  "nat \<Rightarrow> string \<Rightarrow> body \<Rightarrow> db \<Rightarrow> response \<times> db \<times> effect list" where
  "api_complete_remedial t method b d =
     (if method = ''OPTIONS'' then (End 200, d, [])
      else if method \<noteq> ''POST'' then (Error 405 ''Method not allowed'', d, [])
      else if falsy (req_student_id b) then (Error 400 ''Missing student_id'', d, [])
      else
        let sid = the (req_student_id b) in
        (case update_intervention_completed t sid (req_intervention_id b) d of
           None \<Rightarrow> (Error 500 ''Internal server error'', d, [ConsoleError ''Error:''])
         | Some d1 \<Rightarrow>
             (CompleteJson ''Remedial task completed.'' ''active'',
              update_student_status Active t sid d1, [])))"

subsection \<open>The system as a state machine\<close>

text \<open>
  One step is one request or one socket event. Both builds work on the same store; the
  serverless handlers do not touch the registry.
\<close>

datatype operation =
    SocketRegister string string
  | SocketDisconnect string
  | ServerCheckIn env body
  | ServerAssign nat body
  | ServerComplete nat body
  | ApiCheckIn env body
  | ApiAssign nat body
  | ApiComplete nat body

fun step :: "operation \<Rightarrow> server \<Rightarrow> server" where
  "step (SocketRegister socket studentId) s =
     s\<lparr>connectedStudents := register socket studentId (connectedStudents s)\<rparr>"
| "step (SocketDisconnect socket) s =
     s\<lparr>connectedStudents := disconnect socket (connectedStudents s)\<rparr>"
| "step (ServerCheckIn e b) s = fst (snd (server_daily_checkin e b s))"
| "step (ServerAssign t b) s = fst (snd (server_assign_intervention t b s))"
| "step (ServerComplete t b) s = fst (snd (server_complete_remedial t b s))"
| "step (ApiCheckIn e b) s = s\<lparr>store := fst (snd (api_daily_checkin e ''POST'' b (store s)))\<rparr>"
| "step (ApiAssign t b) s = s\<lparr>store := fst (snd (api_assign_intervention t ''POST'' b (store s)))\<rparr>"
| "step (ApiComplete t b) s = s\<lparr>store := fst (snd (api_complete_remedial t ''POST'' b (store s)))\<rparr>"

fun run :: "operation list \<Rightarrow> server \<Rightarrow> server" where
  "run [] s = s"
| "run (op # ops) s = run ops (step op s)"

text \<open>The state after provisioning: the sample student, no log, no ticket, nobody connected.\<close>

definition initial :: "bool \<Rightarrow> server" where
  "initial checks =
     \<lparr>store = initDatabase 0
        \<lparr>students = [], daily_logs = [], interventions = [], range_checks = checks\<rparr>,
      connectedStudents = []\<rparr>"

text \<open>The open tickets of a student, and the invariant of the data model.\<close>

definition is_open :: "intervention \<Rightarrow> bool" where
  "is_open i \<longleftrightarrow> iv_status i = Pending \<or> iv_status i = Assigned"

definition open_tickets :: "db \<Rightarrow> string \<Rightarrow> intervention list" where
  "open_tickets d sid = filter (\<lambda>i. iv_student_id i = sid \<and> is_open i) (interventions d)"

definition at_most_one_open :: "db \<Rightarrow> bool" where
  "at_most_one_open d \<longleftrightarrow>
     list_all (\<lambda>sid. length (open_tickets d sid) \<le> 1) (map iv_student_id (interventions d))"

text \<open>What a check-in answer carries: \<^verbatim>\<open>passed\<close>, \<^verbatim>\<open>data\<close> and \<^verbatim>\<open>intervention_id\<close>.\<close>

fun checkin_passed :: "response \<Rightarrow> bool option" where
  "checkin_passed (CheckinJson _ _ _ p _) = Some p"
| "checkin_passed _ = None"

fun checkin_data :: "response \<Rightarrow> daily_log option" where
  "checkin_data (CheckinJson _ _ lg _ _) = Some lg"
| "checkin_data _ = None"

fun checkin_intervention_id :: "response \<Rightarrow> nat option" where
  "checkin_intervention_id (CheckinJson _ _ _ _ iid) = iid"
| "checkin_intervention_id _ = None"

text \<open>\<^verbatim>\<open>tab_switches = 0\<close> in the destructuring: the default of a missing field.\<close>

definition tabs_of :: "body \<Rightarrow> int" where
  "tabs_of b = (case req_tab_switches b of None \<Rightarrow> 0 | Some t \<Rightarrow> t)"

subsection \<open>Observations on a check-in\<close>

text \<open>The outbound calls among the effects of a handler.\<close>

fun is_webhook_post :: "effect \<Rightarrow> bool" where
  "is_webhook_post (WebhookPost _ _) = True"
| "is_webhook_post _ = False"

definition webhook_posts :: "effect list \<Rightarrow> effect list" where
  "webhook_posts fx = filter is_webhook_post fx"

text \<open>
  The \<^verbatim>\<open>daily_logs\<close> table takes the row of a check-in: the three numbers are within
  \<^verbatim>\<open>INTEGER\<close> and, where the table has the range \<^verbatim>\<open>CHECK\<close>s, within them.
\<close>

definition storable :: "db \<Rightarrow> int \<Rightarrow> int \<Rightarrow> int \<Rightarrow> bool" where
  "storable d quiz focus tabs \<longleftrightarrow>
     int4 quiz \<and> int4 focus \<and> int4 tabs \<and>
     (range_checks d \<longrightarrow> 0 \<le> quiz \<and> quiz \<le> 10 \<and> 0 \<le> focus)"

text \<open>The outbound call of this environment is made and never settles.\<close>

definition hangs :: "env \<Rightarrow> bool" where
  "hangs e \<longleftrightarrow> \<not> falsy (N8N_WEBHOOK_URL e) \<and> webhook e = NeverAnswers"

text \<open>
  What a failed check-in leaves behind: one more log, with the figures of the request and
  the verdict false; the student in \<open>NeedsIntervention\<close>; one more ticket, \<open>Pending\<close>,
  created now, expiring twelve hours later and pointing at the new log; one outbound call
  if an address is configured and none otherwise; an answer with the ticket's id, unless
  the outbound call never settles: then there is no answer.
\<close>

definition failed_checkin_post ::
  "env \<Rightarrow> string \<Rightarrow> int \<Rightarrow> int \<Rightarrow> int \<Rightarrow> db \<Rightarrow> response \<times> db \<times> effect list \<Rightarrow> bool" where
  "failed_checkin_post e sid quiz focus tabs d out \<longleftrightarrow>
     (case out of (r, d', fx) \<Rightarrow>
        let lg = last (daily_logs d'); iv = last (interventions d'); stu = hd (select_student d sid) in
        daily_logs d' = daily_logs d @ [lg] \<and>
        log_id lg \<notin> set (map log_id (daily_logs d)) \<and>
        log_student_id lg = sid \<and> quiz_score lg = quiz \<and> focus_minutes lg = focus \<and>
        tab_switches lg = tabs \<and> \<not> passed lg \<and>
        select_student d' sid \<noteq> [] \<and>
        list_all (\<lambda>x. status x = NeedsIntervention) (select_student d' sid) \<and>
        interventions d' = interventions d @ [iv] \<and>
        iv_id iv \<notin> set (map iv_id (interventions d)) \<and>
        iv_student_id iv = sid \<and> iv_status iv = Pending \<and>
        iv_created_at iv = now e \<and> expires_at iv = Some (now e + 12 * 60 * 60) \<and>
        trigger_log_id iv = Some (log_id lg) \<and>
        webhook_posts fx =
          (if falsy (N8N_WEBHOOK_URL e) then []
           else [WebhookPost (the (N8N_WEBHOOK_URL e))
                   \<lparr>wp_student_id = sid, wp_student_name = name stu, wp_student_email = email stu,
                    wp_quiz_score = quiz, wp_focus_minutes = focus, wp_tab_switches = tabs,
                    wp_intervention_id = iv_id iv\<rparr>]) \<and>
        (if hangs e then r = NoAnswer
         else http_status r = 200 \<and> checkin_passed r = Some False \<and> checkin_data r = Some lg \<and>
              checkin_intervention_id r = Some (iv_id iv)))"

text \<open>
  The part of that outcome that a rollback would undo, in the store (the new \<open>Pending\<close>
  ticket and the student's status) and in the answer (success, with the ticket's id).
\<close>

definition ticket_kept :: "db \<Rightarrow> db \<Rightarrow> bool" where
  "ticket_kept d d' \<longleftrightarrow>
     (let iv = last (interventions d') in
        interventions d' = interventions d @ [iv] \<and> iv_status iv = Pending \<and>
        select_student d' (iv_student_id iv) \<noteq> [] \<and>
        list_all (\<lambda>x. status x = NeedsIntervention) (select_student d' (iv_student_id iv)))"

definition not_rolled_back :: "db \<Rightarrow> response \<Rightarrow> db \<Rightarrow> bool" where
  "not_rolled_back d r d' \<longleftrightarrow>
     ticket_kept d d' \<and> http_status r = 200 \<and> checkin_passed r = Some False \<and>
     checkin_intervention_id r = Some (iv_id (last (interventions d')))"

text \<open>The student rows after a status write for one student id.\<close>

definition set_status :: "student_status \<Rightarrow> nat \<Rightarrow> string \<Rightarrow> student list \<Rightarrow> student list" where
  "set_status st t sid rows =
     map (\<lambda>x. if student_id x = sid then x\<lparr>status := st, updated_at := t\<rparr> else x) rows"

text \<open>
  An assignment or completion that the store takes: the intervention id, when given, is
  within \<^verbatim>\<open>INTEGER\<close>, the strings are text values, and the mentor address, when
  given, has at most 255 characters.
\<close>

definition fits :: "body \<Rightarrow> bool" where
  "fits b \<longleftrightarrow>
     int4_param (req_intervention_id b) \<and>
     (case req_student_id b of None \<Rightarrow> True | Some sid \<Rightarrow> text_value sid) \<and>
     (case req_remedial_task b of None \<Rightarrow> True | Some task \<Rightarrow> text_value task) \<and>
     (case req_mentor_email b of None \<Rightarrow> True | Some m \<Rightarrow> text_value m \<and> length m \<le> 255)"

subsection \<open>Requests that can open a second ticket\<close>

text \<open>
  The handlers do not look at the tickets a student already has. A step can leave a
  student with two open tickets in two ways: it creates a ticket (the table grows) while
  the student of the request has one open, or it sets a ticket that was Completed or
  Expired back to an open status. \<open>guarded\<close> excludes these two and nothing else.
\<close>

fun request_body :: "operation \<Rightarrow> body option" where
  "request_body (ServerCheckIn e b) = Some b"
| "request_body (ApiCheckIn e b) = Some b"
| "request_body (ServerAssign t b) = Some b"
| "request_body (ApiAssign t b) = Some b"
| "request_body (ServerComplete t b) = Some b"
| "request_body (ApiComplete t b) = Some b"
| "request_body _ = None"

definition body_student :: "body \<Rightarrow> string" where
  "body_student b = (case req_student_id b of None \<Rightarrow> [] | Some sid \<Rightarrow> sid)"

definition requester :: "operation \<Rightarrow> string" where
  "requester op = (case request_body op of None \<Rightarrow> [] | Some b \<Rightarrow> body_student b)"

definition creates_ticket :: "operation \<Rightarrow> server \<Rightarrow> bool" where
  "creates_ticket op s \<longleftrightarrow>
     length (interventions (store s)) < length (interventions (store (step op s)))"

definition reopens_ticket :: "operation \<Rightarrow> server \<Rightarrow> bool" where
  "reopens_ticket op s \<longleftrightarrow>
     list_ex (\<lambda>(i, i'). \<not> is_open i \<and> is_open i')
       (zip (interventions (store s)) (interventions (store (step op s))))"

definition guarded :: "operation \<Rightarrow> server \<Rightarrow> bool" where
  "guarded op s \<longleftrightarrow>
     (creates_ticket op s \<longrightarrow> open_tickets (store s) (requester op) = []) \<and>
     \<not> reopens_ticket op s"

fun run_guarded :: "operation list \<Rightarrow> server \<Rightarrow> bool" where
  "run_guarded [] s = True"
| "run_guarded (op # ops) s \<longleftrightarrow> guarded op s \<and> run_guarded ops (step op s)"

text \<open>
  The requests behind the two ways: a check-in whose verdict is fail, and an assignment
  that names a ticket which is not open. \<open>answer\<close> is the response to a request.
\<close>

definition failing :: "body \<Rightarrow> bool" where
  "failing b \<longleftrightarrow>
     (case (req_quiz_score b, req_focus_minutes b) of
        (Some q, Some f) \<Rightarrow> \<not> gate q f (tabs_of b)
      | _ \<Rightarrow> False)"

fun failing_checkin :: "operation \<Rightarrow> bool" where
  "failing_checkin (ServerCheckIn e b) = failing b"
| "failing_checkin (ApiCheckIn e b) = failing b"
| "failing_checkin _ = False"

definition names_closed :: "body \<Rightarrow> db \<Rightarrow> bool" where
  "names_closed b d \<longleftrightarrow>
     list_ex (\<lambda>i. matches (body_student b) (req_intervention_id b) i \<and> \<not> is_open i)
       (interventions d)"

fun assignment_of_closed :: "operation \<Rightarrow> server \<Rightarrow> bool" where
  "assignment_of_closed (ServerAssign t b) s = names_closed b (store s)"
| "assignment_of_closed (ApiAssign t b) s = names_closed b (store s)"
| "assignment_of_closed _ s = False"

fun answer :: "operation \<Rightarrow> server \<Rightarrow> response option" where
  "answer (ServerCheckIn e b) s = Some (fst (server_daily_checkin e b s))"
| "answer (ServerAssign t b) s = Some (fst (server_assign_intervention t b s))"
| "answer (ServerComplete t b) s = Some (fst (server_complete_remedial t b s))"
| "answer (ApiCheckIn e b) s = Some (fst (api_daily_checkin e ''POST'' b (store s)))"
| "answer (ApiAssign t b) s = Some (fst (api_assign_intervention t ''POST'' b (store s)))"
| "answer (ApiComplete t b) s = Some (fst (api_complete_remedial t ''POST'' b (store s)))"
| "answer _ s = None"

definition refused :: "operation \<Rightarrow> server \<Rightarrow> bool" where
  "refused op s \<longleftrightarrow> (case answer op s of None \<Rightarrow> False | Some r \<Rightarrow> 400 \<le> http_status r)"

subsection \<open>Which requests reach a ticket or a student\<close>

text \<open>
  An operation names a ticket when it is an assignment or a completion whose body carries
  the ticket's student id and id; it concerns a student when its body carries the
  student's id. A ticket has its deadline when it expires twelve hours after its creation.
\<close>

definition targets :: "body \<Rightarrow> intervention \<Rightarrow> bool" where
  "targets b i \<longleftrightarrow>
     req_student_id b = Some (iv_student_id i) \<and> req_intervention_id b = Some (int (iv_id i))"

fun names :: "operation \<Rightarrow> intervention \<Rightarrow> bool" where
  "names (ServerAssign t b) i = targets b i"
| "names (ApiAssign t b) i = targets b i"
| "names (ServerComplete t b) i = targets b i"
| "names (ApiComplete t b) i = targets b i"
| "names _ i = False"

fun concerns :: "operation \<Rightarrow> string \<Rightarrow> bool" where
  "concerns (ServerCheckIn e b) sid \<longleftrightarrow> req_student_id b = Some sid"
| "concerns (ApiCheckIn e b) sid \<longleftrightarrow> req_student_id b = Some sid"
| "concerns (ServerAssign t b) sid \<longleftrightarrow> req_student_id b = Some sid"
| "concerns (ApiAssign t b) sid \<longleftrightarrow> req_student_id b = Some sid"
| "concerns (ServerComplete t b) sid \<longleftrightarrow> req_student_id b = Some sid"
| "concerns (ApiComplete t b) sid \<longleftrightarrow> req_student_id b = Some sid"
| "concerns _ sid = False"

definition has_deadline :: "intervention \<Rightarrow> bool" where
  "has_deadline i \<longleftrightarrow> expires_at i = Some (iv_created_at i + 12 * 60 * 60)"

subsection \<open>Sample requests\<close>

text \<open>Concrete requests and environments on which the theorems below are exercised.\<close>

definition checkin :: "string \<Rightarrow> int \<Rightarrow> int \<Rightarrow> int \<Rightarrow> body" where
  "checkin sid quiz focus tabs =
     \<lparr>req_student_id = Some sid, req_quiz_score = Some quiz, req_focus_minutes = Some focus,
      req_tab_switches = Some tabs, req_remedial_task = None, req_mentor_email = None,
      req_intervention_id = None\<rparr>"

definition env_at :: "nat \<Rightarrow> env" where
  "env_at t = \<lparr>now = t, N8N_WEBHOOK_URL = None, webhook = Resolves\<rparr>"

definition env_hook :: "nat \<Rightarrow> webhook_outcome \<Rightarrow> env" where
  "env_hook t outcome =
     \<lparr>now = t, N8N_WEBHOOK_URL = Some ''https://n8n.example/webhook'', webhook = outcome\<rparr>"

definition assign :: "string \<Rightarrow> int option \<Rightarrow> string \<Rightarrow> string \<Rightarrow> body" where
  "assign sid iid task mentor =
     \<lparr>req_student_id = Some sid, req_quiz_score = None, req_focus_minutes = None,
      req_tab_switches = None, req_remedial_task = Some task, req_mentor_email = Some mentor,
      req_intervention_id = iid\<rparr>"

definition complete :: "string \<Rightarrow> int option \<Rightarrow> body" where
  "complete sid iid =
     \<lparr>req_student_id = Some sid, req_quiz_score = None, req_focus_minutes = None,
      req_tab_switches = None, req_remedial_task = None, req_mentor_email = None,
      req_intervention_id = iid\<rparr>"

text \<open>
  Two states of the sample student: after a failed check-in at time 100 (ticket 1 is
  \<open>Pending\<close>), and after the mentor's assignment at time 200 (ticket 1 is \<open>Assigned\<close>).
\<close>

definition locked :: server where
  "locked = step (ServerCheckIn (env_at 100) (checkin ''123'' 5 30 1)) (initial True)"

definition in_remedial :: server where
  "in_remedial = step (ServerAssign 200 (assign ''123'' (Some 1) ''Read Ch.4'' ''m@x.com'')) locked"

text \<open>
  The sample student after completing ticket 1 at time 300 and failing again at time 400:
  ticket 1 is \<open>Completed\<close>, ticket 2 is \<open>Pending\<close>.
\<close>

definition relapsed :: server where
  "relapsed = run [ServerComplete 300 (complete ''123'' (Some 1)),
                   ServerCheckIn (env_at 400) (checkin ''123'' 5 30 1)] in_remedial"

text \<open>Requests for another student, long after the twelve hours of ticket 1 have passed.\<close>

definition much_later :: "operation list" where
  "much_later = [ApiComplete 1000000 (complete ''456'' None),
                 ServerCheckIn (env_at 2000000) (checkin ''456'' 9 90 0)]"

section \<open>Verified properties\<close>

subsection \<open>Facts about the store\<close>

lemma next_id_fresh: "next_id ids \<notin> set ids"
proof
  assume "next_id ids \<in> set ids"
  then have "next_id ids \<le> Max (set (0 # ids))" by simp
  also have "\<dots> = fold max ids 0" by (rule Max.set_eq_fold)
  finally show False by (simp add: next_id_def)
qed

lemma webhook_posts_simps [simp]:
  "webhook_posts [] = []"
  "webhook_posts (x # xs) = (if is_webhook_post x then x # webhook_posts xs else webhook_posts xs)"
  "webhook_posts (xs @ ys) = webhook_posts xs @ webhook_posts ys"
  by (simp_all add: webhook_posts_def)

lemma webhook_posts_notify [simp]: "webhook_posts (notifyStudent m k ev) = []"
  by (simp add: notifyStudent_def split: option.splits)

lemma webhook_posts_trigger:
  "webhook_posts (fst (trigger_webhook msg e p)) =
     (if falsy (N8N_WEBHOOK_URL e) then [] else [WebhookPost (the (N8N_WEBHOOK_URL e)) p])"
  by (simp add: trigger_webhook_def split: webhook_outcome.splits)

lemma settled_trigger: "snd (trigger_webhook msg e p) \<longleftrightarrow> \<not> hangs e"
  by (simp add: trigger_webhook_def hangs_def split: webhook_outcome.splits)

lemma select_student_update:
  "select_student (update_student_status st t sid d) sid =
     map (\<lambda>s. s\<lparr>status := st, updated_at := t\<rparr>) (select_student d sid)"
  by (simp add: select_student_def update_student_status_def filter_map comp_def)

lemma tables_update_student_status [simp]:
  "daily_logs (update_student_status st t sid d) = daily_logs d"
  "interventions (update_student_status st t sid d) = interventions d"
  "range_checks (update_student_status st t sid d) = range_checks d"
  by (simp_all add: update_student_status_def)

lemma tables_initDatabase [simp]:
  "daily_logs (initDatabase t d) = daily_logs d"
  "interventions (initDatabase t d) = interventions d"
  "range_checks (initDatabase t d) = range_checks d"
  by (simp_all add: initDatabase_def)

lemma select_student_initDatabase:
  "select_student d sid \<noteq> [] \<Longrightarrow> select_student (initDatabase t d) sid = select_student d sid"
  by (auto simp: initDatabase_def select_student_def filter_empty_conv)

lemma select_student_other_tables [simp]:
  "select_student (d\<lparr>daily_logs := ls\<rparr>) sid = select_student d sid"
  "select_student (d\<lparr>interventions := is\<rparr>) sid = select_student d sid"
  by (simp_all add: select_student_def)

lemma insert_daily_log_Some:
  "insert_daily_log t sid q f tabs p d = Some (lg, d1) \<longleftrightarrow>
     storable d q f tabs \<and>
     lg = \<lparr>log_id = next_id (map log_id (daily_logs d)), log_student_id = sid, quiz_score = q,
           focus_minutes = f, passed = p, tab_switches = tabs, log_created_at = t\<rparr> \<and>
     d1 = d\<lparr>daily_logs := daily_logs d @ [lg]\<rparr>"
  by (auto simp: insert_daily_log_def storable_def Let_def)

lemma insert_daily_log_None:
  "insert_daily_log t sid q f tabs p d = None \<longleftrightarrow> \<not> storable d q f tabs"
  by (auto simp: insert_daily_log_def storable_def Let_def)

subsection \<open>The check-in handlers, case by case\<close>

lemma server_checkin_fail:
  assumes "req_student_id b = Some sid" "sid \<noteq> []" "text_value sid"
    and "req_quiz_score b = Some q" "req_focus_minutes b = Some f"
    and "0 \<le> q" "q \<le> 10" "0 \<le> f"
    and "select_student (store s) sid = stu # rest"
    and "\<not> gate q f (tabs_of b)"
    and "insert_daily_log (now e) sid q f (tabs_of b) False (store s) = Some (lg, d1)"
  defines "ins \<equiv> insert_intervention (now e) sid (log_id lg)
                   (update_student_status NeedsIntervention (now e) sid d1)"
  defines "tw \<equiv> trigger_webhook ''Failed to trigger n8n webhook:'' e
                  \<lparr>wp_student_id = sid, wp_student_name = name stu, wp_student_email = email stu,
                   wp_quiz_score = q, wp_focus_minutes = f, wp_tab_switches = tabs_of b,
                   wp_intervention_id = iv_id (fst ins)\<rparr>"
  shows "server_daily_checkin e b s =
           (if snd tw
            then (CheckinJson ''Pending Mentor Review''
                    ''Your performance needs attention. A mentor will review soon.''
                    lg False (Some (iv_id (fst ins))),
                  s\<lparr>store := snd ins\<rparr>,
                  fst tw @ notifyStudent (connectedStudents s) sid (StatusUpdate NeedsIntervention))
            else (NoAnswer, s\<lparr>store := snd ins\<rparr>, fst tw))"
  using assms(1-11) unfolding ins_def tw_def
  by (simp add: server_daily_checkin_def query_student_def Let_def falsy_def tabs_of_def
        case_prod_beta)


lemma failed_checkin_postI:
  assumes lg: "insert_daily_log (now e) sid q f tabs False d = Some (lg, d1)"
    and stu: "select_student d sid \<noteq> []"
    and ins: "ins = insert_intervention (now e) sid (log_id lg)
                (update_student_status NeedsIntervention (now e) sid d1)"
    and fx: "webhook_posts fx =
          (if falsy (N8N_WEBHOOK_URL e) then []
           else [WebhookPost (the (N8N_WEBHOOK_URL e))
                   \<lparr>wp_student_id = sid, wp_student_name = name (hd (select_student d sid)),
                    wp_student_email = email (hd (select_student d sid)),
                    wp_quiz_score = q, wp_focus_minutes = f, wp_tab_switches = tabs,
                    wp_intervention_id = iv_id (fst ins)\<rparr>])"
    and r: "if hangs e then r = NoAnswer else r = CheckinJson a m lg False (Some (iv_id (fst ins)))"
  shows "failed_checkin_post e sid q f tabs d (r, snd ins, fx)"
proof -
  have l: "lg = \<lparr>log_id = next_id (map log_id (daily_logs d)), log_student_id = sid, quiz_score = q,
           focus_minutes = f, passed = False, tab_switches = tabs, log_created_at = now e\<rparr>"
    and d1: "d1 = d\<lparr>daily_logs := daily_logs d @ [lg]\<rparr>"
    using lg by (simp_all add: insert_daily_log_Some)
  have i: "fst ins = \<lparr>iv_id = next_id (map iv_id (interventions d)), iv_student_id = sid,
                  trigger_log_id = Some (log_id lg), mentor_email = None, remedial_task = None,
                  iv_status = Pending, assigned_at = None, completed_at = None,
                  iv_created_at = now e, expires_at = Some (now e + twelve_hours)\<rparr>"
    and d3: "snd ins = (update_student_status NeedsIntervention (now e) sid d1)
                \<lparr>interventions := interventions d @ [fst ins]\<rparr>"
    unfolding ins d1 by (simp_all add: insert_intervention_def Let_def)
  have logs: "daily_logs (snd ins) = daily_logs d @ [lg]" "interventions (snd ins) = interventions d @ [fst ins]"
    unfolding d3 d1 by simp_all
  have sel: "select_student (snd ins) sid =
      map (\<lambda>s. s\<lparr>status := NeedsIntervention, updated_at := now e\<rparr>) (select_student d sid)"
    unfolding d3 d1 by (simp add: select_student_update)
  have fresh: "log_id lg \<notin> set (map log_id (daily_logs d))" "iv_id (fst ins) \<notin> set (map iv_id (interventions d))"
    using next_id_fresh [of "map log_id (daily_logs d)"] next_id_fresh [of "map iv_id (interventions d)"]
    by (simp_all add: l i)
  have fields: "log_student_id lg = sid" "quiz_score lg = q" "focus_minutes lg = f" "tab_switches lg = tabs"
    "\<not> passed lg" "iv_student_id (fst ins) = sid" "iv_status (fst ins) = Pending"
    "iv_created_at (fst ins) = now e" "expires_at (fst ins) = Some (now e + 12 * 60 * 60)"
    "trigger_log_id (fst ins) = Some (log_id lg)"
    by (simp_all add: l i twelve_hours_def)
  have resp: "if hangs e then r = NoAnswer
         else http_status r = 200 \<and> checkin_passed r = Some False \<and> checkin_data r = Some lg \<and>
              checkin_intervention_id r = Some (iv_id (fst ins))"
    using r by (auto split: if_splits)
  show ?thesis
    unfolding failed_checkin_post_def
    using stu fx resp fresh fields
    by (simp add: logs sel list_all_iff Let_def)
qed

lemma server_failed_checkin:
  assumes "req_student_id b = Some sid" "sid \<noteq> []" "text_value sid"
    and "req_quiz_score b = Some q" "req_focus_minutes b = Some f"
    and "0 \<le> q" "q \<le> 10" "0 \<le> f"
    and "storable (store s) q f (tabs_of b)"
    and "select_student (store s) sid \<noteq> []"
    and "\<not> gate q f (tabs_of b)"
  shows "failed_checkin_post e sid q f (tabs_of b) (store s)
           (fst (server_daily_checkin e b s), store (fst (snd (server_daily_checkin e b s))),
            snd (snd (server_daily_checkin e b s)))"
proof -
  obtain stu rest where stu: "select_student (store s) sid = stu # rest"
    using assms(10) by (cases "select_student (store s) sid") auto
  obtain lg d1 where lg: "insert_daily_log (now e) sid q f (tabs_of b) False (store s) = Some (lg, d1)"
    using assms(9) by (simp add: insert_daily_log_Some)
  note eq = server_checkin_fail [OF assms(1-8) stu assms(11) lg]
  show ?thesis
    unfolding eq
    by (auto intro!: failed_checkin_postI [OF lg assms(10) refl]
          simp: webhook_posts_trigger settled_trigger stu)
qed

lemma api_checkin_fail:
  assumes "req_student_id b = Some sid" "sid \<noteq> []" "text_value sid"
    and "req_quiz_score b = Some q" "req_focus_minutes b = Some f"
    and "select_student (initDatabase (now e) d) sid = stu # rest"
    and "\<not> gate q f (tabs_of b)"
    and "insert_daily_log (now e) sid q f (tabs_of b) False (initDatabase (now e) d) = Some (lg, d1)"
  defines "ins \<equiv> insert_intervention (now e) sid (log_id lg)
                   (update_student_status NeedsIntervention (now e) sid d1)"
  defines "tw \<equiv> trigger_webhook ''Failed to trigger n8n:'' e
                  \<lparr>wp_student_id = sid, wp_student_name = name stu, wp_student_email = email stu,
                   wp_quiz_score = q, wp_focus_minutes = f, wp_tab_switches = tabs_of b,
                   wp_intervention_id = iv_id (fst ins)\<rparr>"
  shows "api_daily_checkin e ''POST'' b d =
           (if snd tw
            then (CheckinJson ''Pending Mentor Review''
                    ''Your performance needs attention. A mentor will review soon.''
                    lg False (Some (iv_id (fst ins))), snd ins, fst tw)
            else (NoAnswer, snd ins, fst tw))"
  using assms(1-8) unfolding ins_def tw_def
  by (simp add: api_daily_checkin_def query_student_def Let_def falsy_def tabs_of_def
        case_prod_beta)

lemma storable_initDatabase [simp]: "storable (initDatabase t d) q f tabs = storable d q f tabs"
  by (simp add: storable_def)

lemma api_failed_checkin_init:
  assumes "req_student_id b = Some sid" "sid \<noteq> []" "text_value sid"
    and "req_quiz_score b = Some q" "req_focus_minutes b = Some f"
    and "storable d q f (tabs_of b)"
    and "select_student (initDatabase (now e) d) sid \<noteq> []"
    and "\<not> gate q f (tabs_of b)"
  shows "failed_checkin_post e sid q f (tabs_of b) (initDatabase (now e) d)
           (api_daily_checkin e ''POST'' b d)"
proof -
  obtain stu rest where stu: "select_student (initDatabase (now e) d) sid = stu # rest"
    using assms(7) by (cases "select_student (initDatabase (now e) d) sid") auto
  obtain lg d1 where
    lg: "insert_daily_log (now e) sid q f (tabs_of b) False (initDatabase (now e) d) = Some (lg, d1)"
    using assms(6) by (simp add: insert_daily_log_Some)
  note eq = api_checkin_fail [OF assms(1-5) stu assms(8) lg]
  show ?thesis
    unfolding eq
    by (auto intro!: failed_checkin_postI [OF lg assms(7) refl]
          simp: webhook_posts_trigger settled_trigger stu)
qed

lemma api_failed_checkin:
  assumes "req_student_id b = Some sid" "sid \<noteq> []" "text_value sid"
    and "req_quiz_score b = Some q" "req_focus_minutes b = Some f"
    and "storable d q f (tabs_of b)"
    and "select_student d sid \<noteq> []"
    and "\<not> gate q f (tabs_of b)"
  shows "failed_checkin_post e sid q f (tabs_of b) d (api_daily_checkin e ''POST'' b d)"
proof -
  have eq: "select_student (initDatabase (now e) d) sid = select_student d sid"
    using assms(7) by (rule select_student_initDatabase)
  have "failed_checkin_post e sid q f (tabs_of b) (initDatabase (now e) d)
           (api_daily_checkin e ''POST'' b d)"
    using assms eq by (intro api_failed_checkin_init) auto
  then show ?thesis
    by (simp add: failed_checkin_post_def eq)
qed

lemma failed_post_not_rolled_back:
  "failed_checkin_post e sid q f t d (r, d', fx) \<Longrightarrow> \<not> hangs e \<Longrightarrow> not_rolled_back d r d'"
  by (simp add: failed_checkin_post_def not_rolled_back_def ticket_kept_def Let_def)

lemma failed_post_ticket_kept:
  "failed_checkin_post e sid q f t d (r, d', fx) \<Longrightarrow> ticket_kept d d'"
  by (simp add: failed_checkin_post_def ticket_kept_def Let_def)

lemma server_checkin_cases:
  "(400 \<le> http_status (fst (server_daily_checkin e b s)) \<and>
      fst (snd (server_daily_checkin e b s)) = s \<and>
      webhook_posts (snd (snd (server_daily_checkin e b s))) = []) \<or>
   (\<exists>sid q f stu rest lg d1.
      req_student_id b = Some sid \<and> sid \<noteq> [] \<and> text_value sid \<and>
      req_quiz_score b = Some q \<and> req_focus_minutes b = Some f \<and>
      0 \<le> q \<and> q \<le> 10 \<and> 0 \<le> f \<and>
      select_student (store s) sid = stu # rest \<and>
      insert_daily_log (now e) sid q f (tabs_of b) (gate q f (tabs_of b)) (store s) = Some (lg, d1) \<and>
      (gate q f (tabs_of b) \<longrightarrow>
         server_daily_checkin e b s =
           (CheckinJson ''On Track'' ''Great job! Keep up the good work.'' lg True None,
            s\<lparr>store := update_student_status OnTrack (now e) sid d1\<rparr>,
            notifyStudent (connectedStudents s) sid (StatusUpdate OnTrack))))"
  by (auto simp: server_daily_checkin_def query_student_def Let_def tabs_of_def falsy_def
        case_prod_beta
      split: list.splits option.splits)

lemma api_checkin_cases:
  "(400 \<le> http_status (fst (api_daily_checkin e ''POST'' b d)) \<and>
      fst (snd (api_daily_checkin e ''POST'' b d)) = initDatabase (now e) d \<and>
      webhook_posts (snd (snd (api_daily_checkin e ''POST'' b d))) = []) \<or>
   (\<exists>sid q f stu rest lg d1.
      req_student_id b = Some sid \<and> sid \<noteq> [] \<and> text_value sid \<and>
      req_quiz_score b = Some q \<and> req_focus_minutes b = Some f \<and>
      select_student (initDatabase (now e) d) sid = stu # rest \<and>
      insert_daily_log (now e) sid q f (tabs_of b) (gate q f (tabs_of b)) (initDatabase (now e) d)
        = Some (lg, d1) \<and>
      (gate q f (tabs_of b) \<longrightarrow>
         api_daily_checkin e ''POST'' b d =
           (CheckinJson ''On Track'' ''Great job! Keep up the good work.'' lg True None,
            update_student_status OnTrack (now e) sid d1, [])))"
  by (auto simp: api_daily_checkin_def query_student_def Let_def tabs_of_def falsy_def
        case_prod_beta
      split: list.splits option.splits)

lemma interventions_insert_daily_log:
  "insert_daily_log t sid q f tabs p d = Some (lg, d1) \<Longrightarrow> interventions d1 = interventions d"
  "insert_daily_log t sid q f tabs p d = Some (lg, d1) \<Longrightarrow> students d1 = students d"
  "insert_daily_log t sid q f tabs p d = Some (lg, d1) \<Longrightarrow> daily_logs d1 = daily_logs d @ [lg]"
  "insert_daily_log t sid q f tabs p d = Some (lg, d1) \<Longrightarrow>
     log_id lg = next_id (map log_id (daily_logs d))"
  by (auto simp: insert_daily_log_Some)

lemma insert_intervention_simps:
  "interventions (snd (insert_intervention t sid lid d)) =
     interventions d @ [fst (insert_intervention t sid lid d)]"
  "students (snd (insert_intervention t sid lid d)) = students d"
  "daily_logs (snd (insert_intervention t sid lid d)) = daily_logs d"
  "iv_student_id (fst (insert_intervention t sid lid d)) = sid"
  "iv_status (fst (insert_intervention t sid lid d)) = Pending"
  "iv_created_at (fst (insert_intervention t sid lid d)) = t"
  "expires_at (fst (insert_intervention t sid lid d)) = Some (t + 12 * 60 * 60)"
  by (simp_all add: insert_intervention_def Let_def twelve_hours_def)

lemma insert_intervention_row_cong:
  "interventions d' = interventions d \<Longrightarrow>
   fst (insert_intervention t sid lid d') = fst (insert_intervention t sid lid d)"
  by (simp add: insert_intervention_def Let_def)

lemma server_checkin_outcome:
  "(400 \<le> http_status (fst (server_daily_checkin e b s)) \<and>
      fst (snd (server_daily_checkin e b s)) = s \<and>
      webhook_posts (snd (snd (server_daily_checkin e b s))) = []) \<or>
   (\<exists>sid q f stu rest lg d1.
      req_student_id b = Some sid \<and> sid \<noteq> [] \<and> text_value sid \<and>
      req_quiz_score b = Some q \<and> req_focus_minutes b = Some f \<and>
      0 \<le> q \<and> q \<le> 10 \<and> 0 \<le> f \<and>
      select_student (store s) sid = stu # rest \<and>
      insert_daily_log (now e) sid q f (tabs_of b) (gate q f (tabs_of b)) (store s) = Some (lg, d1) \<and>
      http_status (fst (server_daily_checkin e b s)) < 400 \<and>
      connectedStudents (fst (snd (server_daily_checkin e b s))) = connectedStudents s \<and>
      store (fst (snd (server_daily_checkin e b s))) =
        (if gate q f (tabs_of b) then update_student_status OnTrack (now e) sid d1
         else snd (insert_intervention (now e) sid (log_id lg)
                (update_student_status NeedsIntervention (now e) sid d1))) \<and>
      (gate q f (tabs_of b) \<longrightarrow> webhook_posts (snd (snd (server_daily_checkin e b s))) = []))"
  using server_checkin_cases [of e b s]
proof (elim disjE exE conjE)
  fix sid q f stu rest lg d1
  assume h: "req_student_id b = Some sid" "sid \<noteq> []" "text_value sid"
      "req_quiz_score b = Some q" "req_focus_minutes b = Some f" "0 \<le> q" "q \<le> 10" "0 \<le> f"
      "select_student (store s) sid = stu # rest"
    and ins: "insert_daily_log (now e) sid q f (tabs_of b) (gate q f (tabs_of b)) (store s)
        = Some (lg, d1)"
    and pass: "gate q f (tabs_of b) \<longrightarrow>
         server_daily_checkin e b s =
           (CheckinJson ''On Track'' ''Great job! Keep up the good work.'' lg True None,
            s\<lparr>store := update_student_status OnTrack (now e) sid d1\<rparr>,
            notifyStudent (connectedStudents s) sid (StatusUpdate OnTrack))"
  have "http_status (fst (server_daily_checkin e b s)) < 400 \<and>
      connectedStudents (fst (snd (server_daily_checkin e b s))) = connectedStudents s \<and>
      store (fst (snd (server_daily_checkin e b s))) =
        (if gate q f (tabs_of b) then update_student_status OnTrack (now e) sid d1
         else snd (insert_intervention (now e) sid (log_id lg)
                (update_student_status NeedsIntervention (now e) sid d1))) \<and>
      (gate q f (tabs_of b) \<longrightarrow> webhook_posts (snd (snd (server_daily_checkin e b s))) = [])"
  proof (cases "gate q f (tabs_of b)")
    case True
    with pass show ?thesis by simp
  next
    case False
    with ins have "insert_daily_log (now e) sid q f (tabs_of b) False (store s) = Some (lg, d1)"
      by simp
    from server_checkin_fail [OF h False this] False show ?thesis by simp
  qed
  with h ins show ?thesis by blast
qed blast

lemma api_checkin_outcome:
  "(400 \<le> http_status (fst (api_daily_checkin e ''POST'' b d)) \<and>
      fst (snd (api_daily_checkin e ''POST'' b d)) = initDatabase (now e) d \<and>
      webhook_posts (snd (snd (api_daily_checkin e ''POST'' b d))) = []) \<or>
   (\<exists>sid q f stu rest lg d1.
      req_student_id b = Some sid \<and> sid \<noteq> [] \<and> text_value sid \<and>
      req_quiz_score b = Some q \<and> req_focus_minutes b = Some f \<and>
      select_student (initDatabase (now e) d) sid = stu # rest \<and>
      insert_daily_log (now e) sid q f (tabs_of b) (gate q f (tabs_of b)) (initDatabase (now e) d)
        = Some (lg, d1) \<and>
      http_status (fst (api_daily_checkin e ''POST'' b d)) < 400 \<and>
      fst (snd (api_daily_checkin e ''POST'' b d)) =
        (if gate q f (tabs_of b) then update_student_status OnTrack (now e) sid d1
         else snd (insert_intervention (now e) sid (log_id lg)
                (update_student_status NeedsIntervention (now e) sid d1))) \<and>
      (gate q f (tabs_of b) \<longrightarrow> webhook_posts (snd (snd (api_daily_checkin e ''POST'' b d))) = []))"
  using api_checkin_cases [of e b d]
proof (elim disjE exE conjE)
  fix sid q f stu rest lg d1
  assume h: "req_student_id b = Some sid" "sid \<noteq> []" "text_value sid"
      "req_quiz_score b = Some q" "req_focus_minutes b = Some f"
      "select_student (initDatabase (now e) d) sid = stu # rest"
    and ins: "insert_daily_log (now e) sid q f (tabs_of b) (gate q f (tabs_of b))
        (initDatabase (now e) d) = Some (lg, d1)"
    and pass: "gate q f (tabs_of b) \<longrightarrow>
         api_daily_checkin e ''POST'' b d =
           (CheckinJson ''On Track'' ''Great job! Keep up the good work.'' lg True None,
            update_student_status OnTrack (now e) sid d1, [])"
  have "http_status (fst (api_daily_checkin e ''POST'' b d)) < 400 \<and>
      fst (snd (api_daily_checkin e ''POST'' b d)) =
        (if gate q f (tabs_of b) then update_student_status OnTrack (now e) sid d1
         else snd (insert_intervention (now e) sid (log_id lg)
                (update_student_status NeedsIntervention (now e) sid d1))) \<and>
      (gate q f (tabs_of b) \<longrightarrow> webhook_posts (snd (snd (api_daily_checkin e ''POST'' b d))) = [])"
  proof (cases "gate q f (tabs_of b)")
    case True
    with pass show ?thesis by simp
  next
    case False
    with ins have "insert_daily_log (now e) sid q f (tabs_of b) False (initDatabase (now e) d)
        = Some (lg, d1)"
      by simp
    from api_checkin_fail [OF h False this] False show ?thesis by simp
  qed
  with h ins show ?thesis by blast
qed blast

subsection \<open>Assignment and completion, case by case\<close>

lemma update_intervention_assigned_Some:
  "update_intervention_assigned task m t sid iid d = Some d1 \<longleftrightarrow>
     text_value task \<and> text_value sid \<and> int4_param iid \<and>
     (\<exists>stored. varchar 255 m = Some stored \<and>
        d1 = d\<lparr>interventions :=
                 map (\<lambda>i. if matches sid iid i
                           then i\<lparr>iv_status := Assigned, remedial_task := Some task,
                                   mentor_email := stored, assigned_at := Some t\<rparr>
                           else i) (interventions d)\<rparr>)"
  by (auto simp: update_intervention_assigned_def split: option.splits)

lemma update_intervention_completed_Some:
  "update_intervention_completed t sid iid d = Some d1 \<longleftrightarrow>
     text_value sid \<and> int4_param iid \<and>
     d1 = d\<lparr>interventions :=
              map (\<lambda>i. if matches sid iid i
                        then i\<lparr>iv_status := Completed, completed_at := Some t\<rparr>
                        else i) (interventions d)\<rparr>"
  by (auto simp: update_intervention_completed_def)

lemma varchar_fits:
  "varchar 255 m = Some m \<longleftrightarrow> (case m of None \<Rightarrow> True | Some x \<Rightarrow> text_value x \<and> length x \<le> 255)"
  by (auto simp: varchar_def split: option.splits)

lemma server_assign_outcome:
  "(400 \<le> http_status (fst (server_assign_intervention t b s)) \<and>
      fst (snd (server_assign_intervention t b s)) = s) \<or>
   (\<exists>sid task d1.
      req_student_id b = Some sid \<and> sid \<noteq> [] \<and> req_remedial_task b = Some task \<and> task \<noteq> [] \<and>
      update_intervention_assigned task (req_mentor_email b) t sid (req_intervention_id b) (store s)
        = Some d1 \<and>
      server_assign_intervention t b s =
        (AssignJson ''Intervention assigned successfully'' sid task,
         s\<lparr>store := update_student_status Remedial t sid d1\<rparr>,
         notifyStudent (connectedStudents s) sid
           (InterventionAssigned Remedial task (req_mentor_email b))))"
  by (cases "req_student_id b"; cases "req_remedial_task b")
     (auto simp: server_assign_intervention_def falsy_def Let_def split: option.splits)

lemma api_assign_outcome:
  "(400 \<le> http_status (fst (api_assign_intervention t ''POST'' b d)) \<and>
      fst (snd (api_assign_intervention t ''POST'' b d)) = d) \<or>
   (\<exists>sid task d1.
      req_student_id b = Some sid \<and> sid \<noteq> [] \<and> req_remedial_task b = Some task \<and> task \<noteq> [] \<and>
      update_intervention_assigned task (req_mentor_email b) t sid (req_intervention_id b) d
        = Some d1 \<and>
      api_assign_intervention t ''POST'' b d =
        (AssignJson ''Intervention assigned successfully'' sid task,
         update_student_status Remedial t sid d1, []))"
  by (cases "req_student_id b"; cases "req_remedial_task b")
     (auto simp: api_assign_intervention_def falsy_def Let_def split: option.splits)

lemma server_complete_outcome:
  "(400 \<le> http_status (fst (server_complete_remedial t b s)) \<and>
      fst (snd (server_complete_remedial t b s)) = s) \<or>
   (\<exists>sid d1.
      req_student_id b = Some sid \<and> sid \<noteq> [] \<and>
      update_intervention_completed t sid (req_intervention_id b) (store s) = Some d1 \<and>
      server_complete_remedial t b s =
        (CompleteJson ''Remedial task completed. You can now proceed with daily check-ins.''
           ''active'',
         s\<lparr>store := update_student_status Active t sid d1\<rparr>,
         notifyStudent (connectedStudents s) sid (StatusUpdate Active)))"
  by (cases "req_student_id b")
     (auto simp: server_complete_remedial_def falsy_def Let_def split: option.splits)

lemma api_complete_outcome:
  "(400 \<le> http_status (fst (api_complete_remedial t ''POST'' b d)) \<and>
      fst (snd (api_complete_remedial t ''POST'' b d)) = d) \<or>
   (\<exists>sid d1.
      req_student_id b = Some sid \<and> sid \<noteq> [] \<and>
      update_intervention_completed t sid (req_intervention_id b) d = Some d1 \<and>
      api_complete_remedial t ''POST'' b d =
        (CompleteJson ''Remedial task completed.'' ''active'',
         update_student_status Active t sid d1, []))"
  by (cases "req_student_id b")
     (auto simp: api_complete_remedial_def falsy_def Let_def split: option.splits)

subsection \<open>The tickets after a step\<close>

lemma refused_simps:
  "refused (ServerCheckIn e b) s \<longleftrightarrow> 400 \<le> http_status (fst (server_daily_checkin e b s))"
  "refused (ApiCheckIn e b) s \<longleftrightarrow> 400 \<le> http_status (fst (api_daily_checkin e ''POST'' b (store s)))"
  "refused (ServerAssign t b) s \<longleftrightarrow> 400 \<le> http_status (fst (server_assign_intervention t b s))"
  "refused (ApiAssign t b) s \<longleftrightarrow> 400 \<le> http_status (fst (api_assign_intervention t ''POST'' b (store s)))"
  "refused (ServerComplete t b) s \<longleftrightarrow> 400 \<le> http_status (fst (server_complete_remedial t b s))"
  "refused (ApiComplete t b) s \<longleftrightarrow> 400 \<le> http_status (fst (api_complete_remedial t ''POST'' b (store s)))"
  "\<not> refused (SocketRegister socket sid) s"
  "\<not> refused (SocketDisconnect socket) s"
  by (simp_all add: refused_def)

lemma server_checkin_interventions:
  "interventions (store (step (ServerCheckIn e b) s)) =
     (if failing b \<and> \<not> refused (ServerCheckIn e b) s
      then interventions (store s) @
             [fst (insert_intervention (now e) (body_student b)
                     (next_id (map log_id (daily_logs (store s)))) (store s))]
      else interventions (store s))"
  using server_checkin_outcome [of e b s]
proof (elim disjE exE conjE)
  assume "400 \<le> http_status (fst (server_daily_checkin e b s))"
    "fst (snd (server_daily_checkin e b s)) = s"
  then show ?thesis by (simp add: refused_simps)
next
  fix sid q f stu rest lg d1
  assume h: "req_student_id b = Some sid" "req_quiz_score b = Some q" "req_focus_minutes b = Some f"
    and ins: "insert_daily_log (now e) sid q f (tabs_of b) (gate q f (tabs_of b)) (store s)
        = Some (lg, d1)"
    and ok: "http_status (fst (server_daily_checkin e b s)) < 400"
    and st: "store (fst (snd (server_daily_checkin e b s))) =
        (if gate q f (tabs_of b) then update_student_status OnTrack (now e) sid d1
         else snd (insert_intervention (now e) sid (log_id lg)
                (update_student_status NeedsIntervention (now e) sid d1)))"
  have f: "failing b \<longleftrightarrow> \<not> gate q f (tabs_of b)" using h by (simp add: failing_def)
  have r: "\<not> refused (ServerCheckIn e b) s" using ok by (simp add: refused_simps)
  have row: "fst (insert_intervention (now e) sid (log_id lg)
                (update_student_status NeedsIntervention (now e) sid d1)) =
             fst (insert_intervention (now e) sid (log_id lg) (store s))"
    by (rule insert_intervention_row_cong) (simp add: interventions_insert_daily_log(1) [OF ins])
  show ?thesis
    using h f r st row
    by (simp add: insert_intervention_simps interventions_insert_daily_log [OF ins] body_student_def)
qed

lemma api_checkin_interventions:
  "interventions (store (step (ApiCheckIn e b) s)) =
     (if failing b \<and> \<not> refused (ApiCheckIn e b) s
      then interventions (store s) @
             [fst (insert_intervention (now e) (body_student b)
                     (next_id (map log_id (daily_logs (store s)))) (store s))]
      else interventions (store s))"
  using api_checkin_outcome [of e b "store s"]
proof (elim disjE exE conjE)
  assume "400 \<le> http_status (fst (api_daily_checkin e ''POST'' b (store s)))"
    "fst (snd (api_daily_checkin e ''POST'' b (store s))) = initDatabase (now e) (store s)"
  then show ?thesis by (simp add: refused_simps)
next
  fix sid q f stu rest lg d1
  assume h: "req_student_id b = Some sid" "req_quiz_score b = Some q" "req_focus_minutes b = Some f"
    and ins: "insert_daily_log (now e) sid q f (tabs_of b) (gate q f (tabs_of b))
        (initDatabase (now e) (store s)) = Some (lg, d1)"
    and ok: "http_status (fst (api_daily_checkin e ''POST'' b (store s))) < 400"
    and st: "fst (snd (api_daily_checkin e ''POST'' b (store s))) =
        (if gate q f (tabs_of b) then update_student_status OnTrack (now e) sid d1
         else snd (insert_intervention (now e) sid (log_id lg)
                (update_student_status NeedsIntervention (now e) sid d1)))"
  have f: "failing b \<longleftrightarrow> \<not> gate q f (tabs_of b)" using h by (simp add: failing_def)
  have r: "\<not> refused (ApiCheckIn e b) s" using ok by (simp add: refused_simps)
  have row: "fst (insert_intervention (now e) sid (log_id lg)
                (update_student_status NeedsIntervention (now e) sid d1)) =
             fst (insert_intervention (now e) sid (log_id lg) (store s))"
    by (rule insert_intervention_row_cong) (simp add: interventions_insert_daily_log(1) [OF ins])
  show ?thesis
    using h f r st row
    by (simp add: insert_intervention_simps interventions_insert_daily_log [OF ins] body_student_def)
qed

lemma assign_interventions:
  "interventions (store (step (ServerAssign t b) s)) =
     (if refused (ServerAssign t b) s then interventions (store s)
      else map (\<lambda>i. if matches (body_student b) (req_intervention_id b) i
                     then i\<lparr>iv_status := Assigned, remedial_task := req_remedial_task b,
                             mentor_email := the (varchar 255 (req_mentor_email b)),
                             assigned_at := Some t\<rparr>
                     else i) (interventions (store s)))"
  "interventions (store (step (ApiAssign t b) s)) =
     (if refused (ApiAssign t b) s then interventions (store s)
      else map (\<lambda>i. if matches (body_student b) (req_intervention_id b) i
                     then i\<lparr>iv_status := Assigned, remedial_task := req_remedial_task b,
                             mentor_email := the (varchar 255 (req_mentor_email b)),
                             assigned_at := Some t\<rparr>
                     else i) (interventions (store s)))"
  using server_assign_outcome [of t b s] api_assign_outcome [of t b "store s"]
  by (auto simp: refused_simps update_intervention_assigned_Some body_student_def)

lemma complete_interventions:
  "interventions (store (step (ServerComplete t b) s)) =
     (if refused (ServerComplete t b) s then interventions (store s)
      else map (\<lambda>i. if matches (body_student b) (req_intervention_id b) i
                     then i\<lparr>iv_status := Completed, completed_at := Some t\<rparr>
                     else i) (interventions (store s)))"
  "interventions (store (step (ApiComplete t b) s)) =
     (if refused (ApiComplete t b) s then interventions (store s)
      else map (\<lambda>i. if matches (body_student b) (req_intervention_id b) i
                     then i\<lparr>iv_status := Completed, completed_at := Some t\<rparr>
                     else i) (interventions (store s)))"
  using server_complete_outcome [of t b s] api_complete_outcome [of t b "store s"]
  by (auto simp: refused_simps update_intervention_completed_Some body_student_def)

subsection \<open>The open tickets of a student\<close>

lemma at_most_one_open_iff:
  "at_most_one_open d \<longleftrightarrow> (\<forall>sid. length (open_tickets d sid) \<le> 1)"
proof
  assume a: "at_most_one_open d"
  show "\<forall>sid. length (open_tickets d sid) \<le> 1"
  proof
    fix sid
    show "length (open_tickets d sid) \<le> 1"
    proof (cases "sid \<in> set (map iv_student_id (interventions d))")
      case True
      with a show ?thesis by (auto simp: at_most_one_open_def list_all_iff)
    next
      case False
      then have "open_tickets d sid = []"
        by (auto simp: open_tickets_def filter_empty_conv)
      then show ?thesis by simp
    qed
  qed
next
  assume "\<forall>sid. length (open_tickets d sid) \<le> 1"
  then show "at_most_one_open d" by (simp add: at_most_one_open_def list_all_iff)
qed

lemma zip_map_self: "zip xs (map g xs) = map (\<lambda>x. (x, g x)) xs"
  by (induction xs) auto

lemma zip_self_append: "zip xs (xs @ ys) = map (\<lambda>x. (x, x)) xs"
  by (induction xs) auto

lemma zip_self: "zip xs xs = map (\<lambda>x. (x, x)) xs"
  by (induction xs) auto

lemma step_socket_store [simp]:
  "store (step (SocketRegister socket sid) s) = store s"
  "store (step (SocketDisconnect socket) s) = store s"
  by simp_all

lemma creates_ticket_iff: "creates_ticket op s \<longleftrightarrow> failing_checkin op \<and> \<not> refused op s"
proof (cases op)
  case (ServerCheckIn e b)
  show ?thesis unfolding creates_ticket_def ServerCheckIn
    by (simp only: server_checkin_interventions) simp
next
  case (ApiCheckIn e b)
  show ?thesis unfolding creates_ticket_def ApiCheckIn
    by (simp only: api_checkin_interventions) simp
next
  case (ServerAssign t b)
  show ?thesis unfolding creates_ticket_def ServerAssign
    by (simp only: assign_interventions) simp
next
  case (ApiAssign t b)
  show ?thesis unfolding creates_ticket_def ApiAssign
    by (simp only: assign_interventions) simp
next
  case (ServerComplete t b)
  show ?thesis unfolding creates_ticket_def ServerComplete
    by (simp only: complete_interventions) simp
next
  case (ApiComplete t b)
  show ?thesis unfolding creates_ticket_def ApiComplete
    by (simp only: complete_interventions) simp
qed (simp_all add: creates_ticket_def)

lemma reopens_ticket_iff: "reopens_ticket op s \<longleftrightarrow> assignment_of_closed op s \<and> \<not> refused op s"
proof (cases op)
  case (ServerCheckIn e b)
  show ?thesis unfolding reopens_ticket_def ServerCheckIn
    by (simp only: server_checkin_interventions) (simp add: zip_self_append zip_self list_ex_iff)
next
  case (ApiCheckIn e b)
  show ?thesis unfolding reopens_ticket_def ApiCheckIn
    by (simp only: api_checkin_interventions) (simp add: zip_self_append zip_self list_ex_iff)
next
  case (ServerAssign t b)
  show ?thesis unfolding reopens_ticket_def ServerAssign
    by (simp only: assign_interventions)
       (auto simp: zip_map_self zip_self list_ex_iff names_closed_def is_open_def)
next
  case (ApiAssign t b)
  show ?thesis unfolding reopens_ticket_def ApiAssign
    by (simp only: assign_interventions)
       (auto simp: zip_map_self zip_self list_ex_iff names_closed_def is_open_def)
next
  case (ServerComplete t b)
  show ?thesis unfolding reopens_ticket_def ServerComplete
    by (simp only: complete_interventions)
       (auto simp: zip_map_self zip_self list_ex_iff is_open_def)
next
  case (ApiComplete t b)
  show ?thesis unfolding reopens_ticket_def ApiComplete
    by (simp only: complete_interventions)
       (auto simp: zip_map_self zip_self list_ex_iff is_open_def)
qed (simp_all add: reopens_ticket_def zip_self list_ex_iff)

lemma length_filter_map_le:
  "(\<And>x. x \<in> set xs \<Longrightarrow> P (g x) \<Longrightarrow> P x) \<Longrightarrow> length (filter P (map g xs)) \<le> length (filter P xs)"
  by (induction xs) auto

lemma length_filter_map_ge:
  "(\<And>x. x \<in> set xs \<Longrightarrow> P x \<Longrightarrow> P (g x)) \<Longrightarrow> length (filter P xs) \<le> length (filter P (map g xs))"
  by (induction xs) auto

lemma length_filter_map_less:
  assumes "\<And>x. x \<in> set xs \<Longrightarrow> P x \<Longrightarrow> P (g x)" and "y \<in> set xs" and "\<not> P y" and "P (g y)"
  shows "length (filter P xs) < length (filter P (map g xs))"
  using assms
proof (induction xs)
  case Nil
  then show ?case by simp
next
  case (Cons x xs)
  have le: "length (filter P xs) \<le> length (filter P (map g xs))"
    by (rule length_filter_map_ge) (simp add: Cons.prems(1))
  show ?case
  proof (cases "y = x")
    case True
    with Cons.prems le show ?thesis by simp
  next
    case False
    with Cons.prems have "y \<in> set xs" by simp
    with Cons have "length (filter P xs) < length (filter P (map g xs))" by simp
    with Cons.prems(1) [of x] show ?thesis by auto
  qed
qed

lemma at_most_one_open_cong:
  "interventions d' = interventions d \<Longrightarrow> at_most_one_open d' = at_most_one_open d"
  by (simp add: at_most_one_open_iff open_tickets_def)

lemma invariant_append:
  assumes "at_most_one_open d" and "open_tickets d (iv_student_id n) = []"
    and "interventions d' = interventions d @ [n]"
  shows "at_most_one_open d'"
  unfolding at_most_one_open_iff
proof
  fix sid
  have "length (open_tickets d sid) \<le> 1"
    using assms(1) by (simp add: at_most_one_open_iff)
  then show "length (open_tickets d' sid) \<le> 1"
    using assms(2,3) by (auto simp: open_tickets_def)
qed

lemma invariant_map:
  assumes "at_most_one_open d"
    and "interventions d' = map g (interventions d)"
    and "\<And>i. i \<in> set (interventions d) \<Longrightarrow> iv_student_id (g i) = iv_student_id i"
    and "\<And>i. i \<in> set (interventions d) \<Longrightarrow> is_open (g i) \<Longrightarrow> is_open i"
  shows "at_most_one_open d'"
  unfolding at_most_one_open_iff
proof
  fix sid
  have "length (open_tickets d' sid) \<le> length (open_tickets d sid)"
    unfolding open_tickets_def assms(2)
    by (rule length_filter_map_le) (use assms(3,4) in auto)
  moreover have "length (open_tickets d sid) \<le> 1"
    using assms(1) by (simp add: at_most_one_open_iff)
  ultimately show "length (open_tickets d' sid) \<le> 1" by simp
qed

lemma broken_append:
  assumes "open_tickets d (iv_student_id n) \<noteq> []" and "is_open n"
    and "interventions d' = interventions d @ [n]"
  shows "\<not> at_most_one_open d'"
proof -
  have "open_tickets d' (iv_student_id n) = open_tickets d (iv_student_id n) @ [n]"
    using assms(2,3) by (simp add: open_tickets_def)
  moreover have "1 \<le> length (open_tickets d (iv_student_id n))"
    using assms(1) by (cases "open_tickets d (iv_student_id n)") simp_all
  ultimately have "2 \<le> length (open_tickets d' (iv_student_id n))" by simp
  then show ?thesis unfolding at_most_one_open_iff
    by (metis Suc_1 not_less_eq_eq)
qed

lemma broken_map:
  assumes "open_tickets d sid \<noteq> []"
    and "interventions d' = map g (interventions d)"
    and "\<And>i. i \<in> set (interventions d) \<Longrightarrow> iv_student_id (g i) = iv_student_id i"
    and "\<And>i. i \<in> set (interventions d) \<Longrightarrow> is_open i \<Longrightarrow> is_open (g i)"
    and "y \<in> set (interventions d)" and "iv_student_id y = sid" and "\<not> is_open y" and "is_open (g y)"
  shows "\<not> at_most_one_open d'"
proof -
  have "length (open_tickets d sid) < length (open_tickets d' sid)"
    unfolding open_tickets_def assms(2)
    by (rule length_filter_map_less [where y = y]) (use assms(3-8) in auto)
  moreover have "1 \<le> length (open_tickets d sid)"
    using assms(1) by (cases "open_tickets d sid") simp_all
  ultimately have "2 \<le> length (open_tickets d' sid)" by simp
  then show ?thesis unfolding at_most_one_open_iff
    by (metis Suc_1 not_less_eq_eq)
qed

lemma requester_simps [simp]:
  "requester (ServerCheckIn e b) = body_student b"
  "requester (ApiCheckIn e b) = body_student b"
  "requester (ServerAssign t b) = body_student b"
  "requester (ApiAssign t b) = body_student b"
  "requester (ServerComplete t b) = body_student b"
  "requester (ApiComplete t b) = body_student b"
  by (simp_all add: requester_def)

lemma checkin_keeps_invariant:
  assumes "at_most_one_open (store s)" and "guarded op s"
    and "interventions (store (step op s)) =
           (if failing_checkin op \<and> \<not> refused op s
            then interventions (store s) @ [fst (insert_intervention t (requester op) lid (store s))]
            else interventions (store s))"
  shows "at_most_one_open (store (step op s))"
proof (cases "failing_checkin op \<and> \<not> refused op s")
  case True
  then have "open_tickets (store s) (requester op) = []"
    using assms(2) by (simp add: guarded_def creates_ticket_iff)
  moreover have "interventions (store (step op s)) =
      interventions (store s) @ [fst (insert_intervention t (requester op) lid (store s))]"
    using assms(3) True by simp
  ultimately show ?thesis
    by (intro invariant_append [OF assms(1), where
          n = "fst (insert_intervention t (requester op) lid (store s))"])
       (simp_all only: insert_intervention_simps)
next
  case False
  with assms(3) have "interventions (store (step op s)) = interventions (store s)" by simp
  from at_most_one_open_cong [OF this] assms(1) show ?thesis by simp
qed

lemma update_keeps_invariant:
  assumes "at_most_one_open (store s)" and "guarded op s"
    and "interventions (store (step op s)) =
           (if refused op s then interventions (store s) else map g (interventions (store s)))"
    and "\<And>i. iv_student_id (g i) = iv_student_id i"
  shows "at_most_one_open (store (step op s))"
proof (cases "refused op s")
  case True
  with assms(3) have "interventions (store (step op s)) = interventions (store s)" by simp
  from at_most_one_open_cong [OF this] assms(1) show ?thesis by simp
next
  case False
  with assms(3) have eq: "interventions (store (step op s)) = map g (interventions (store s))"
    by simp
  have "\<not> reopens_ticket op s" using assms(2) by (simp add: guarded_def)
  then have "\<And>i. i \<in> set (interventions (store s)) \<Longrightarrow> is_open (g i) \<Longrightarrow> is_open i"
    unfolding reopens_ticket_def eq by (auto simp: zip_map_self list_ex_iff)
  then show ?thesis
    using assms(4) by (intro invariant_map [OF assms(1) eq]) auto
qed

lemma guarded_step_keeps_invariant:
  assumes "at_most_one_open (store s)" and "guarded op s"
  shows "at_most_one_open (store (step op s))"
proof (cases op)
  case (ServerCheckIn e b)
  show ?thesis
    using assms unfolding ServerCheckIn
    by (rule checkin_keeps_invariant [where t = "now e"
          and lid = "next_id (map log_id (daily_logs (store s)))"])
       (simp del: step.simps add: server_checkin_interventions)
next
  case (ApiCheckIn e b)
  show ?thesis
    using assms unfolding ApiCheckIn
    by (rule checkin_keeps_invariant [where t = "now e"
          and lid = "next_id (map log_id (daily_logs (store s)))"])
       (simp del: step.simps add: api_checkin_interventions)
next
  case (ServerAssign t b)
  from assms have a: "at_most_one_open (store s)" "guarded (ServerAssign t b) s"
    by (simp_all add: ServerAssign)
  show ?thesis unfolding ServerAssign
    by (rule update_keeps_invariant [OF a assign_interventions(1)]) simp
next
  case (ApiAssign t b)
  from assms have a: "at_most_one_open (store s)" "guarded (ApiAssign t b) s"
    by (simp_all add: ApiAssign)
  show ?thesis unfolding ApiAssign
    by (rule update_keeps_invariant [OF a assign_interventions(2)]) simp
next
  case (ServerComplete t b)
  from assms have a: "at_most_one_open (store s)" "guarded (ServerComplete t b) s"
    by (simp_all add: ServerComplete)
  show ?thesis unfolding ServerComplete
    by (rule update_keeps_invariant [OF a complete_interventions(1)]) simp
next
  case (ApiComplete t b)
  from assms have a: "at_most_one_open (store s)" "guarded (ApiComplete t b) s"
    by (simp_all add: ApiComplete)
  show ?thesis unfolding ApiComplete
    by (rule update_keeps_invariant [OF a complete_interventions(2)]) simp
next
  case (SocketRegister socket sid)
  with assms(1) show ?thesis by simp
next
  case (SocketDisconnect socket)
  with assms(1) show ?thesis by simp
qed

lemma created_ticket_appended:
  assumes "creates_ticket op s"
  shows "\<exists>n. interventions (store (step op s)) = interventions (store s) @ [n] \<and>
           iv_status n = Pending \<and> iv_student_id n = requester op"
proof -
  have c: "failing_checkin op" "\<not> refused op s"
    using assms by (simp_all add: creates_ticket_iff)
  have "\<exists>t lid. interventions (store (step op s)) =
          interventions (store s) @ [fst (insert_intervention t (requester op) lid (store s))]"
  proof (cases op)
    case (ServerCheckIn e b)
    with c show ?thesis by (auto simp del: step.simps simp add: server_checkin_interventions)
  next
    case (ApiCheckIn e b)
    with c show ?thesis by (auto simp del: step.simps simp add: api_checkin_interventions)
  qed (use c in simp_all)
  then obtain t lid where "interventions (store (step op s)) =
          interventions (store s) @ [fst (insert_intervention t (requester op) lid (store s))]"
    by blast
  then show ?thesis
    by (intro exI [where x = "fst (insert_intervention t (requester op) lid (store s))"])
       (simp add: insert_intervention_simps)
qed

lemma created_breaks_invariant:
  assumes "creates_ticket op s" and "open_tickets (store s) (requester op) \<noteq> []"
  shows "\<not> at_most_one_open (store (step op s))"
proof -
  from created_ticket_appended [OF assms(1)] obtain n where
    n: "interventions (store (step op s)) = interventions (store s) @ [n]"
      "iv_status n = Pending" "iv_student_id n = requester op"
    by blast
  show ?thesis
    using assms(2) n
    by (intro broken_append [where d = "store s" and n = n]) (simp_all add: is_open_def)
qed

lemma reopened_breaks_invariant:
  assumes "reopens_ticket op s" and "open_tickets (store s) (requester op) \<noteq> []"
  shows "\<not> at_most_one_open (store (step op s))"
proof -
  have c: "assignment_of_closed op s" "\<not> refused op s"
    using assms(1) by (simp_all add: reopens_ticket_iff)
  have "\<exists>b g. request_body op = Some b \<and> names_closed b (store s) \<and>
          interventions (store (step op s)) = map g (interventions (store s)) \<and>
          (\<forall>i. iv_student_id (g i) = iv_student_id i) \<and>
          (\<forall>i. matches (body_student b) (req_intervention_id b) i \<longrightarrow> iv_status (g i) = Assigned) \<and>
          (\<forall>i. \<not> matches (body_student b) (req_intervention_id b) i \<longrightarrow> g i = i)"
  proof (cases op)
    case (ServerAssign t b)
    with c show ?thesis
      by (intro exI [where x = b] exI [where x = "\<lambda>i. if matches (body_student b) (req_intervention_id b) i
                     then i\<lparr>iv_status := Assigned, remedial_task := req_remedial_task b,
                             mentor_email := the (varchar 255 (req_mentor_email b)),
                             assigned_at := Some t\<rparr>
                     else i"])
         (simp del: step.simps add: assign_interventions)
  next
    case (ApiAssign t b)
    with c show ?thesis
      by (intro exI [where x = b] exI [where x = "\<lambda>i. if matches (body_student b) (req_intervention_id b) i
                     then i\<lparr>iv_status := Assigned, remedial_task := req_remedial_task b,
                             mentor_email := the (varchar 255 (req_mentor_email b)),
                             assigned_at := Some t\<rparr>
                     else i"])
         (simp del: step.simps add: assign_interventions)
  qed (use c in simp_all)
  then obtain b g where b: "request_body op = Some b" and n: "names_closed b (store s)"
    and eq: "interventions (store (step op s)) = map g (interventions (store s))"
    and g: "\<And>i. iv_student_id (g i) = iv_student_id i"
      "\<And>i. matches (body_student b) (req_intervention_id b) i \<Longrightarrow> iv_status (g i) = Assigned"
      "\<And>i. \<not> matches (body_student b) (req_intervention_id b) i \<Longrightarrow> g i = i"
    by blast
  from n obtain y where y: "y \<in> set (interventions (store s))"
      "matches (body_student b) (req_intervention_id b) y" "\<not> is_open y"
    by (auto simp: names_closed_def list_ex_iff)
  have r: "requester op = body_student b" using b by (simp add: requester_def)
  have keep: "\<And>i. is_open i \<Longrightarrow> is_open (g i)"
    using g(2,3) by (metis is_open_def)
  show ?thesis
    using assms(2) eq y keep
    by (intro broken_map [where d = "store s" and g = g and y = y and sid = "requester op"])
       (simp_all add: g r is_open_def matches_def)
qed

subsection \<open>What a step leaves alone\<close>

lemma accepted_names_student:
  "\<not> refused (ServerAssign t b) s \<Longrightarrow> req_student_id b = Some (body_student b)"
  "\<not> refused (ApiAssign t b) s \<Longrightarrow> req_student_id b = Some (body_student b)"
  "\<not> refused (ServerComplete t b) s \<Longrightarrow> req_student_id b = Some (body_student b)"
  "\<not> refused (ApiComplete t b) s \<Longrightarrow> req_student_id b = Some (body_student b)"
  using server_assign_outcome [of t b s] api_assign_outcome [of t b "store s"]
    server_complete_outcome [of t b s] api_complete_outcome [of t b "store s"]
  by (auto simp: refused_simps body_student_def)

lemma matches_targets:
  "req_student_id b = Some (body_student b) \<Longrightarrow>
   matches (body_student b) (req_intervention_id b) i = targets b i"
  by (auto simp: matches_def targets_def)

lemma step_interventions_shape:
  "\<exists>g new.
     interventions (store (step op s)) = map g (interventions (store s)) @ new \<and>
     (\<forall>i. g i = i \<or>
          names op i \<and> (iv_status (g i) = Assigned \<or> iv_status (g i) = Completed) \<and>
          iv_student_id (g i) = iv_student_id i \<and> iv_id (g i) = iv_id i \<and>
          iv_created_at (g i) = iv_created_at i \<and> expires_at (g i) = expires_at i) \<and>
     (\<forall>n\<in>set new. iv_status n = Pending \<and> has_deadline n \<and> iv_student_id n = requester op)"
proof -
  have unchanged: ?thesis if "interventions (store (step op s)) = interventions (store s)"
    using that by (intro exI [where x = "\<lambda>i. i"] exI [where x = "[]"]) simp
  have appended: ?thesis
    if "interventions (store (step op s)) =
          interventions (store s) @ [fst (insert_intervention t (requester op) lid (store s))]"
    for t lid
    using that
    by (intro exI [where x = "\<lambda>i. i"]
          exI [where x = "[fst (insert_intervention t (requester op) lid (store s))]"])
       (simp add: insert_intervention_simps has_deadline_def)
  have mapped: ?thesis
    if "interventions (store (step op s)) = map g (interventions (store s))"
      and "\<And>i. g i = i \<or>
          names op i \<and> (iv_status (g i) = Assigned \<or> iv_status (g i) = Completed) \<and>
          iv_student_id (g i) = iv_student_id i \<and> iv_id (g i) = iv_id i \<and>
          iv_created_at (g i) = iv_created_at i \<and> expires_at (g i) = expires_at i"
    for g
    using that by (intro exI [where x = g] exI [where x = "[]"]) simp
  show ?thesis
  proof (cases op)
    case (ServerCheckIn e b)
    show ?thesis
    proof (cases "failing b \<and> \<not> refused (ServerCheckIn e b) s")
      case True
      then show ?thesis unfolding ServerCheckIn
        by (intro appended [unfolded ServerCheckIn, where t = "now e"
              and lid = "next_id (map log_id (daily_logs (store s)))"])
           (simp del: step.simps add: server_checkin_interventions)
    next
      case False
      then show ?thesis unfolding ServerCheckIn
        by (intro unchanged [unfolded ServerCheckIn])
           (simp del: step.simps add: server_checkin_interventions)
    qed
  next
    case (ApiCheckIn e b)
    show ?thesis
    proof (cases "failing b \<and> \<not> refused (ApiCheckIn e b) s")
      case True
      then show ?thesis unfolding ApiCheckIn
        by (intro appended [unfolded ApiCheckIn, where t = "now e"
              and lid = "next_id (map log_id (daily_logs (store s)))"])
           (simp del: step.simps add: api_checkin_interventions)
    next
      case False
      then show ?thesis unfolding ApiCheckIn
        by (intro unchanged [unfolded ApiCheckIn])
           (simp del: step.simps add: api_checkin_interventions)
    qed
  next
    case (ServerAssign t b)
    show ?thesis
    proof (cases "refused (ServerAssign t b) s")
      case True
      then show ?thesis unfolding ServerAssign
        by (intro unchanged [unfolded ServerAssign]) (simp del: step.simps add: assign_interventions)
    next
      case False
      then have eq: "interventions (store (step (ServerAssign t b) s)) =
          map (\<lambda>i. if matches (body_student b) (req_intervention_id b) i
                     then i\<lparr>iv_status := Assigned, remedial_task := req_remedial_task b,
                             mentor_email := the (varchar 255 (req_mentor_email b)),
                             assigned_at := Some t\<rparr>
                     else i) (interventions (store s))"
        by (simp del: step.simps add: assign_interventions)
      show ?thesis unfolding ServerAssign
        by (rule mapped [unfolded ServerAssign, OF eq])
           (simp add: matches_targets [OF accepted_names_student(1) [OF False]])
    qed
  next
    case (ApiAssign t b)
    show ?thesis
    proof (cases "refused (ApiAssign t b) s")
      case True
      then show ?thesis unfolding ApiAssign
        by (intro unchanged [unfolded ApiAssign]) (simp del: step.simps add: assign_interventions)
    next
      case False
      then have eq: "interventions (store (step (ApiAssign t b) s)) =
          map (\<lambda>i. if matches (body_student b) (req_intervention_id b) i
                     then i\<lparr>iv_status := Assigned, remedial_task := req_remedial_task b,
                             mentor_email := the (varchar 255 (req_mentor_email b)),
                             assigned_at := Some t\<rparr>
                     else i) (interventions (store s))"
        by (simp del: step.simps add: assign_interventions)
      show ?thesis unfolding ApiAssign
        by (rule mapped [unfolded ApiAssign, OF eq])
           (simp add: matches_targets [OF accepted_names_student(2) [OF False]])
    qed
  next
    case (ServerComplete t b)
    show ?thesis
    proof (cases "refused (ServerComplete t b) s")
      case True
      then show ?thesis unfolding ServerComplete
        by (intro unchanged [unfolded ServerComplete])
           (simp del: step.simps add: complete_interventions)
    next
      case False
      then have eq: "interventions (store (step (ServerComplete t b) s)) =
          map (\<lambda>i. if matches (body_student b) (req_intervention_id b) i
                     then i\<lparr>iv_status := Completed, completed_at := Some t\<rparr>
                     else i) (interventions (store s))"
        by (simp del: step.simps add: complete_interventions)
      show ?thesis unfolding ServerComplete
        by (rule mapped [unfolded ServerComplete, OF eq])
           (simp add: matches_targets [OF accepted_names_student(3) [OF False]])
    qed
  next
    case (ApiComplete t b)
    show ?thesis
    proof (cases "refused (ApiComplete t b) s")
      case True
      then show ?thesis unfolding ApiComplete
        by (intro unchanged [unfolded ApiComplete])
           (simp del: step.simps add: complete_interventions)
    next
      case False
      then have eq: "interventions (store (step (ApiComplete t b) s)) =
          map (\<lambda>i. if matches (body_student b) (req_intervention_id b) i
                     then i\<lparr>iv_status := Completed, completed_at := Some t\<rparr>
                     else i) (interventions (store s))"
        by (simp del: step.simps add: complete_interventions)
      show ?thesis unfolding ApiComplete
        by (rule mapped [unfolded ApiComplete, OF eq])
           (simp add: matches_targets [OF accepted_names_student(4) [OF False]])
    qed
  next
    case (SocketRegister socket sid)
    then show ?thesis by (intro unchanged) simp
  next
    case (SocketDisconnect socket)
    then show ?thesis by (intro unchanged) simp
  qed
qed

lemma unnamed_ticket_kept:
  assumes "i \<in> set (interventions (store s))" and "\<not> names op i"
  shows "i \<in> set (interventions (store (step op s)))"
proof -
  from step_interventions_shape [of op s] obtain g new where
    eq: "interventions (store (step op s)) = map g (interventions (store s)) @ new"
    and g: "\<And>i. g i = i \<or> names op i"
    by blast
  from g [of i] assms(2) have "g i = i" by simp
  with assms(1) have "i \<in> g ` set (interventions (store s))" by force
  then show ?thesis by (simp add: eq)
qed

lemma step_never_expires:
  assumes "j \<in> set (interventions (store (step op s)))" and "iv_status j = Expired"
  shows "j \<in> set (interventions (store s))"
proof -
  from step_interventions_shape [of op s] obtain g new where
    eq: "interventions (store (step op s)) = map g (interventions (store s)) @ new"
    and g: "\<And>i. g i = i \<or> iv_status (g i) = Assigned \<or> iv_status (g i) = Completed"
    and n: "\<And>n. n \<in> set new \<Longrightarrow> iv_status n = Pending"
    by blast
  from assms(1) have "j \<in> g ` set (interventions (store s)) \<or> j \<in> set new"
    by (simp add: eq)
  then show ?thesis
  proof
    assume "j \<in> g ` set (interventions (store s))"
    then obtain i where i: "i \<in> set (interventions (store s))" "j = g i" by blast
    with g [of i] assms(2) have "g i = i" by auto
    with i show ?thesis by simp
  next
    assume "j \<in> set new"
    from n [OF this] assms(2) show ?thesis by simp
  qed
qed

lemma step_keeps_deadlines:
  assumes "list_all has_deadline (interventions (store s))"
  shows "list_all has_deadline (interventions (store (step op s)))"
proof -
  from step_interventions_shape [of op s] obtain g new where
    eq: "interventions (store (step op s)) = map g (interventions (store s)) @ new"
    and g: "\<And>i. g i = i \<or>
          iv_created_at (g i) = iv_created_at i \<and> expires_at (g i) = expires_at i"
    and n: "\<And>n. n \<in> set new \<Longrightarrow> has_deadline n"
    by blast
  have "has_deadline (g i)" if "has_deadline i" for i
    using g [of i] that by (auto simp: has_deadline_def)
  with assms n show ?thesis
    by (auto simp: eq list_all_iff)
qed

lemma step_keeps_expiry:
  "\<exists>rest. map expires_at (interventions (store (step op s))) =
            map expires_at (interventions (store s)) @ rest"
proof -
  from step_interventions_shape [of op s] obtain g new where
    eq: "interventions (store (step op s)) = map g (interventions (store s)) @ new"
    and g: "\<And>i. g i = i \<or> expires_at (g i) = expires_at i"
    by blast
  have "expires_at (g i) = expires_at i" for i
    using g [of i] by auto
  then have "map expires_at (map g (interventions (store s))) = map expires_at (interventions (store s))"
    by simp
  then show ?thesis by (simp add: eq)
qed

lemma students_update_student_status [simp]:
  "students (update_student_status st t sid d) = set_status st t sid (students d)"
  by (simp add: update_student_status_def set_status_def)

lemma student_row_kept:
  "x \<in> set rows \<Longrightarrow> student_id x \<noteq> sid \<Longrightarrow> x \<in> set (set_status st t sid rows)"
  "x \<in> set (students d) \<Longrightarrow> x \<in> set (students (initDatabase t d))"
  by (force simp: set_status_def, simp add: initDatabase_def)

lemma unconcerned_student_kept:
  assumes "x \<in> set (students (store s))" and "\<not> concerns op (student_id x)"
  shows "x \<in> set (students (store (step op s)))"
proof (cases op)
  case (ServerCheckIn e b)
  from server_checkin_outcome [of e b s] show ?thesis
    using assms ServerCheckIn
    by (elim disjE exE conjE)
       (auto simp: interventions_insert_daily_log insert_intervention_simps student_row_kept(1)
          split: if_splits)
next
  case (ApiCheckIn e b)
  have x: "x \<in> set (students (initDatabase (now e) (store s)))"
    using assms(1) by (rule student_row_kept(2))
  from api_checkin_outcome [of e b "store s"] show ?thesis
    using assms(2) x ApiCheckIn
    by (elim disjE exE conjE)
       (auto simp: interventions_insert_daily_log insert_intervention_simps student_row_kept(1)
          split: if_splits)
next
  case (ServerAssign t b)
  from server_assign_outcome [of t b s] show ?thesis
    using assms ServerAssign
    by (auto simp: update_intervention_assigned_Some student_row_kept(1))
next
  case (ApiAssign t b)
  from api_assign_outcome [of t b "store s"] show ?thesis
    using assms ApiAssign
    by (auto simp: update_intervention_assigned_Some student_row_kept(1))
next
  case (ServerComplete t b)
  from server_complete_outcome [of t b s] show ?thesis
    using assms ServerComplete
    by (auto simp: update_intervention_completed_Some student_row_kept(1))
next
  case (ApiComplete t b)
  from api_complete_outcome [of t b "store s"] show ?thesis
    using assms ApiComplete
    by (auto simp: update_intervention_completed_Some student_row_kept(1))
qed (use assms in auto)

lemma daily_logs_append_only:
  "\<exists>new. daily_logs (store (step op s)) = daily_logs (store s) @ new"
proof (cases op)
  case (ServerCheckIn e b)
  from server_checkin_outcome [of e b s] show ?thesis
    using ServerCheckIn
    by (elim disjE exE conjE)
       (auto simp: interventions_insert_daily_log insert_intervention_simps split: if_splits)
next
  case (ApiCheckIn e b)
  from api_checkin_outcome [of e b "store s"] show ?thesis
    using ApiCheckIn
    by (elim disjE exE conjE)
       (auto simp: interventions_insert_daily_log insert_intervention_simps split: if_splits)
next
  case (ServerAssign t b)
  from server_assign_outcome [of t b s] show ?thesis
    using ServerAssign by (auto simp: update_intervention_assigned_Some)
next
  case (ApiAssign t b)
  from api_assign_outcome [of t b "store s"] show ?thesis
    using ApiAssign by (auto simp: update_intervention_assigned_Some)
next
  case (ServerComplete t b)
  from server_complete_outcome [of t b s] show ?thesis
    using ServerComplete by (auto simp: update_intervention_completed_Some)
next
  case (ApiComplete t b)
  from api_complete_outcome [of t b "store s"] show ?thesis
    using ApiComplete by (auto simp: update_intervention_completed_Some)
qed auto

subsection \<open>The outbound call, and requests the store takes\<close>

lemma server_webhook_attempted:
  assumes "webhook_posts (snd (snd (server_daily_checkin e b s))) \<noteq> []"
  shows "\<exists>sid q f stu rest lg d1.
           req_student_id b = Some sid \<and> sid \<noteq> [] \<and> text_value sid \<and>
           req_quiz_score b = Some q \<and> req_focus_minutes b = Some f \<and>
           0 \<le> q \<and> q \<le> 10 \<and> 0 \<le> f \<and>
           select_student (store s) sid = stu # rest \<and> \<not> gate q f (tabs_of b) \<and>
           insert_daily_log (now e) sid q f (tabs_of b) False (store s) = Some (lg, d1)"
  using server_checkin_outcome [of e b s] assms
  by (elim disjE exE conjE) (simp, metis)

lemma api_webhook_attempted:
  assumes "webhook_posts (snd (snd (api_daily_checkin e ''POST'' b d))) \<noteq> []"
  shows "\<exists>sid q f stu rest lg d1.
           req_student_id b = Some sid \<and> sid \<noteq> [] \<and> text_value sid \<and>
           req_quiz_score b = Some q \<and> req_focus_minutes b = Some f \<and>
           select_student (initDatabase (now e) d) sid = stu # rest \<and> \<not> gate q f (tabs_of b) \<and>
           insert_daily_log (now e) sid q f (tabs_of b) False (initDatabase (now e) d)
             = Some (lg, d1)"
  using api_checkin_outcome [of e b d] assms
  by (elim disjE exE conjE) (simp, metis)

lemma update_student_status_rows:
  "update_student_status st t sid d = d\<lparr>students := set_status st t sid (students d)\<rparr>"
  by (simp add: update_student_status_def set_status_def)

lemma status_set_status_twice:
  "map status (set_status st t' sid (set_status st t sid rows)) = map status (set_status st t sid rows)"
  by (induction rows) (auto simp: set_status_def)

lemma fits_assigned:
  assumes "fits b" and "req_student_id b = Some sid" and "req_remedial_task b = Some task"
  shows "update_intervention_assigned task (req_mentor_email b) t sid (req_intervention_id b) d =
           Some (d\<lparr>interventions :=
                    map (\<lambda>i. if iv_student_id i = sid \<and> req_intervention_id b = Some (int (iv_id i))
                              then i\<lparr>iv_status := Assigned, remedial_task := Some task,
                                      mentor_email := req_mentor_email b, assigned_at := Some t\<rparr>
                              else i) (interventions d)\<rparr>)"
proof -
  have "varchar 255 (req_mentor_email b) = Some (req_mentor_email b)"
    using assms(1) by (simp add: varchar_fits fits_def)
  then show ?thesis
    using assms by (simp add: update_intervention_assigned_def fits_def matches_def)
qed

lemma fits_completed:
  assumes "fits b" and "req_student_id b = Some sid"
  shows "update_intervention_completed t sid (req_intervention_id b) d =
           Some (d\<lparr>interventions :=
                    map (\<lambda>i. if iv_student_id i = sid \<and> req_intervention_id b = Some (int (iv_id i))
                              then i\<lparr>iv_status := Completed, completed_at := Some t\<rparr>
                              else i) (interventions d)\<rparr>)"
  using assms by (simp add: update_intervention_completed_def fits_def matches_def)


lemma step_interventions_refused:
  assumes "refused op s"
  shows "interventions (store (step op s)) = interventions (store s)"
proof (cases op)
  case (ServerCheckIn e b)
  with assms show ?thesis by (simp del: step.simps add: server_checkin_interventions)
next
  case (ApiCheckIn e b)
  with assms show ?thesis by (simp del: step.simps add: api_checkin_interventions)
next
  case (ServerAssign t b)
  with assms show ?thesis by (simp del: step.simps add: assign_interventions)
next
  case (ApiAssign t b)
  with assms show ?thesis by (simp del: step.simps add: assign_interventions)
next
  case (ServerComplete t b)
  with assms show ?thesis by (simp del: step.simps add: complete_interventions)
next
  case (ApiComplete t b)
  with assms show ?thesis by (simp del: step.simps add: complete_interventions)
qed simp_all

subsection \<open>The registry as a map\<close>

lemma map_of_replace_other:
  "sid' \<noteq> sid \<Longrightarrow>
   map_of (map (\<lambda>(k', v'). if k' = sid then (k', socket) else (k', v')) m) sid' = map_of m sid'"
  by (induction m) auto

lemma map_of_replace_same:
  "sid \<in> fst ` set m \<Longrightarrow>
   map_of (map (\<lambda>(k', v'). if k' = sid then (k', socket) else (k', v')) m) sid = Some socket"
  by (induction m) auto

lemma map_get_register:
  "map_get (register socket sid m) sid' = (if sid' = sid then Some socket else map_get m sid')"
proof (cases "sid \<in> set (map fst m)")
  case True
  then show ?thesis
    by (simp add: register_def map_set_def map_get_def map_of_replace_other map_of_replace_same)
next
  case False
  then have "map_of m sid = None" by (simp add: map_of_eq_None_iff)
  with False show ?thesis
    by (auto simp: register_def map_set_def map_get_def map_add_def split: option.splits)
qed

lemma map_get_delete:
  "map_get (map_delete m sid) sid' = (if sid' = sid then None else map_get m sid')"
  by (induction m) (auto simp: map_delete_def map_get_def)

lemma disconnect_loop_find:
  "disconnect_loop socket es m =
     (case find (\<lambda>(k, v). v = socket) es of None \<Rightarrow> m | Some (k, v) \<Rightarrow> map_delete m k)"
  by (induction es) auto

lemma find_None_values: "find (\<lambda>(k, v). v = socket) m = None \<longleftrightarrow> socket \<notin> snd ` set m"
  by (induction m) auto

lemma keys_replace:
  "map (fst \<circ> (\<lambda>(k', v'). if k' = sid then (k', socket) else (k', v'))) m = map fst m"
  by (induction m) auto

lemma distinct_register: "distinct (map fst m) \<Longrightarrow> distinct (map fst (register socket sid m))"
  by (simp add: register_def map_set_def keys_replace)

lemma distinct_disconnect: "distinct (map fst m) \<Longrightarrow> distinct (map fst (disconnect socket m))"
  by (simp add: disconnect_def disconnect_loop_find map_delete_def distinct_map_filter
      split: option.splits prod.splits)

subsection \<open>Range validation on the Express server\<close>

text \<open>
  The Express server answers 400 to a quiz score outside 0..10 and to negative focus
  minutes before it reads or writes the store.
\<close>

lemma server_rejects_out_of_range:
  assumes "req_quiz_score b = Some q" and "req_focus_minutes b = Some f"
    and "q < 0 \<or> 10 < q \<or> f < 0"
  shows "http_status (fst (server_daily_checkin e b s)) = 400 \<and>
         fst (snd (server_daily_checkin e b s)) = s \<and> snd (snd (server_daily_checkin e b s)) = []"
  using assms by (auto simp: server_daily_checkin_def Let_def)

subsection \<open>The sample states, evaluated\<close>

lemma locked_eq:
  "locked =
     \<lparr>store =
        \<lparr>students = [\<lparr>student_id = ''123'', name = ''Test Student'',
                       email = Some ''student@test.com'', status = NeedsIntervention,
                       updated_at = 100\<rparr>],
         daily_logs = [\<lparr>log_id = 1, log_student_id = ''123'', quiz_score = 5, focus_minutes = 30,
                         passed = False, tab_switches = 1, log_created_at = 100\<rparr>],
         interventions = [\<lparr>iv_id = 1, iv_student_id = ''123'', trigger_log_id = Some 1,
                            mentor_email = None, remedial_task = None, iv_status = Pending,
                            assigned_at = None, completed_at = None, iv_created_at = 100,
                            expires_at = Some 43300\<rparr>],
         range_checks = True\<rparr>,
      connectedStudents = []\<rparr>"
  by (simp add: locked_def initial_def initDatabase_def select_student_def query_student_def
        text_value_def gate_def int4_def
        server_daily_checkin_def checkin_def env_at_def falsy_def Let_def insert_daily_log_def
        insert_intervention_def update_student_status_def next_id_def twelve_hours_def
        trigger_webhook_def notifyStudent_def map_get_def)

lemma in_remedial_eq:
  "in_remedial =
     \<lparr>store =
        \<lparr>students = [\<lparr>student_id = ''123'', name = ''Test Student'',
                       email = Some ''student@test.com'', status = Remedial,
                       updated_at = 200\<rparr>],
         daily_logs = [\<lparr>log_id = 1, log_student_id = ''123'', quiz_score = 5, focus_minutes = 30,
                         passed = False, tab_switches = 1, log_created_at = 100\<rparr>],
         interventions = [\<lparr>iv_id = 1, iv_student_id = ''123'', trigger_log_id = Some 1,
                            mentor_email = Some ''m@x.com'', remedial_task = Some ''Read Ch.4'',
                            iv_status = Assigned,
                            assigned_at = Some 200, completed_at = None, iv_created_at = 100,
                            expires_at = Some 43300\<rparr>],
         range_checks = True\<rparr>,
      connectedStudents = []\<rparr>"
  by (simp add: in_remedial_def locked_eq server_assign_intervention_def assign_def falsy_def Let_def
        update_intervention_assigned_def update_student_status_def matches_def
        text_value_def int4_param_def int4_def varchar_def notifyStudent_def map_get_def)

lemma relapsed_eq:
  "relapsed =
     \<lparr>store =
        \<lparr>students = [\<lparr>student_id = ''123'', name = ''Test Student'',
                       email = Some ''student@test.com'', status = NeedsIntervention,
                       updated_at = 400\<rparr>],
         daily_logs = [\<lparr>log_id = 1, log_student_id = ''123'', quiz_score = 5, focus_minutes = 30,
                         passed = False, tab_switches = 1, log_created_at = 100\<rparr>,
                       \<lparr>log_id = 2, log_student_id = ''123'', quiz_score = 5, focus_minutes = 30,
                         passed = False, tab_switches = 1, log_created_at = 400\<rparr>],
         interventions = [\<lparr>iv_id = 1, iv_student_id = ''123'', trigger_log_id = Some 1,
                            mentor_email = Some ''m@x.com'', remedial_task = Some ''Read Ch.4'',
                            iv_status = Completed,
                            assigned_at = Some 200, completed_at = Some 300, iv_created_at = 100,
                            expires_at = Some 43300\<rparr>,
                          \<lparr>iv_id = 2, iv_student_id = ''123'', trigger_log_id = Some 2,
                            mentor_email = None, remedial_task = None, iv_status = Pending,
                            assigned_at = None, completed_at = None, iv_created_at = 400,
                            expires_at = Some 43600\<rparr>],
         range_checks = True\<rparr>,
      connectedStudents = []\<rparr>"
  by (simp add: relapsed_def in_remedial_eq server_complete_remedial_def complete_def
        update_intervention_completed_def matches_def
        text_value_def int4_param_def int4_def query_student_def
        select_student_def gate_def
        server_daily_checkin_def checkin_def env_at_def falsy_def Let_def insert_daily_log_def
        insert_intervention_def update_student_status_def next_id_def twelve_hours_def
        trigger_webhook_def notifyStudent_def map_get_def)

subsection \<open>The claims\<close>

text \<open>
  C2. For every check-in that either build accepts, the verdict in the answer and in the
  stored log is \<open>quizScore > 7 \<and> focusMinutes > 60 \<and> distractionCount < 3\<close>, a
  function of the three figures alone (a missing distraction count reads as 0). The
  comparisons are strict: 7 with 60 fails, 8 with 61 and 2 passes, a distraction count of 3
  fails whatever the other figures are.
\<close>

theorem gate_verdict:
  "(http_status (fst (server_daily_checkin e b s)) = 200 \<longrightarrow>
      (\<exists>q f lg. req_quiz_score b = Some q \<and> req_focus_minutes b = Some f \<and>
         checkin_passed (fst (server_daily_checkin e b s)) = Some (q > 7 \<and> f > 60 \<and> tabs_of b < 3) \<and>
         checkin_data (fst (server_daily_checkin e b s)) = Some lg \<and>
         passed lg = (q > 7 \<and> f > 60 \<and> tabs_of b < 3))) \<and>
   (http_status (fst (api_daily_checkin e' ''POST'' b' d)) = 200 \<longrightarrow>
      (\<exists>q f lg. req_quiz_score b' = Some q \<and> req_focus_minutes b' = Some f \<and>
         checkin_passed (fst (api_daily_checkin e' ''POST'' b' d)) = Some (q > 7 \<and> f > 60 \<and> tabs_of b' < 3) \<and>
         checkin_data (fst (api_daily_checkin e' ''POST'' b' d)) = Some lg \<and>
         passed lg = (q > 7 \<and> f > 60 \<and> tabs_of b' < 3))) \<and>
   gate quiz focus tabs = (quiz > 7 \<and> focus > 60 \<and> tabs < 3) \<and>
   \<not> gate 7 60 tabs \<and> gate 8 61 2 \<and> \<not> gate quiz focus 3"
proof -
  have srv: "http_status (fst (server_daily_checkin e b s)) = 200 \<longrightarrow>
      (\<exists>q f lg. req_quiz_score b = Some q \<and> req_focus_minutes b = Some f \<and>
         checkin_passed (fst (server_daily_checkin e b s)) = Some (q > 7 \<and> f > 60 \<and> tabs_of b < 3) \<and>
         checkin_data (fst (server_daily_checkin e b s)) = Some lg \<and>
         passed lg = (q > 7 \<and> f > 60 \<and> tabs_of b < 3))"
    by (auto simp: server_daily_checkin_def query_student_def Let_def insert_daily_log_def
          gate_def tabs_of_def insert_intervention_def
        split: if_splits list.splits option.splits prod.splits)
  have api: "http_status (fst (api_daily_checkin e' ''POST'' b' d)) = 200 \<longrightarrow>
      (\<exists>q f lg. req_quiz_score b' = Some q \<and> req_focus_minutes b' = Some f \<and>
         checkin_passed (fst (api_daily_checkin e' ''POST'' b' d)) = Some (q > 7 \<and> f > 60 \<and> tabs_of b' < 3) \<and>
         checkin_data (fst (api_daily_checkin e' ''POST'' b' d)) = Some lg \<and>
         passed lg = (q > 7 \<and> f > 60 \<and> tabs_of b' < 3))"
    by (auto simp: api_daily_checkin_def query_student_def Let_def insert_daily_log_def
          gate_def tabs_of_def insert_intervention_def
        split: if_splits list.splits option.splits prod.splits)
  have g: "gate quiz focus tabs = (quiz > 7 \<and> focus > 60 \<and> tabs < 3) \<and>
   \<not> gate 7 60 tabs \<and> gate 8 61 2 \<and> \<not> gate quiz focus 3"
    by (simp add: gate_def)
  from srv api g show ?thesis by blast
qed

theorem gate_verdict_witness:
  "http_status (fst (server_daily_checkin (env_at 100) (checkin ''123'' 8 61 2) (initial True))) = 200 \<and>
   checkin_passed (fst (server_daily_checkin (env_at 100) (checkin ''123'' 8 61 2) (initial True)))
     = Some True \<and>
   http_status (fst (api_daily_checkin (env_at 100) ''POST'' (checkin ''123'' 7 60 0)
     (store (initial False)))) = 200 \<and>
   checkin_passed (fst (api_daily_checkin (env_at 100) ''POST'' (checkin ''123'' 7 60 0)
     (store (initial False)))) = Some False"
proof -
  have h1: "http_status (fst (server_daily_checkin (env_at 100) (checkin ''123'' 8 61 2)
      (initial True))) = 200"
    by (simp add: server_daily_checkin_def Let_def insert_daily_log_def gate_def initial_def
          initDatabase_def select_student_def query_student_def text_value_def int4_def
          falsy_def checkin_def env_at_def)
  have h2: "http_status (fst (api_daily_checkin (env_at 100) ''POST'' (checkin ''123'' 7 60 0)
      (store (initial False)))) = 200"
    by (simp add: api_daily_checkin_def Let_def insert_daily_log_def gate_def initial_def
          initDatabase_def select_student_def query_student_def text_value_def int4_def
          falsy_def checkin_def env_at_def
          insert_intervention_def update_student_status_def trigger_webhook_def)
  show ?thesis
    using h1 h2
      gate_verdict [of "env_at 100" "checkin ''123'' 8 61 2" "initial True"
                       "env_at 100" "checkin ''123'' 7 60 0" "store (initial False)"]
    by (auto simp: checkin_def tabs_of_def)
qed

text \<open>
  C5 (as amended). A check-in of an existing student whose verdict is fail and whose row
  the store takes (the three figures within \<open>INTEGER\<close>; on the Express server the quiz
  score in 0..10 and the focus minutes not negative; on the serverless handler the range
  \<open>CHECK\<close>s of the table, where it has them) writes exactly one log with verdict false,
  sets the student's status to NeedsIntervention and creates exactly one ticket in
  Pending that expires twelve hours after its creation and refers to the new log. The
  escalation call is made exactly when an endpoint address is configured. The answer
  carries the new ticket's id, unless the call never settles: then there is no answer.
  When the store does not take the row, the handler answers 500 and writes no log, no
  ticket and no status. No operation ever changes or removes a log that has been written.
\<close>

theorem failing_checkin_opens_ticket:
  assumes "req_student_id b = Some sid" and "sid \<noteq> []" and "text_value sid"
    and "req_quiz_score b = Some q" and "req_focus_minutes b = Some f"
    and "\<not> gate q f (tabs_of b)"
  shows "(0 \<le> q \<and> q \<le> 10 \<and> 0 \<le> f \<and> storable (store s) q f (tabs_of b) \<and>
          select_student (store s) sid \<noteq> [] \<longrightarrow>
            failed_checkin_post e sid q f (tabs_of b) (store s)
              (fst (server_daily_checkin e b s), store (fst (snd (server_daily_checkin e b s))),
               snd (snd (server_daily_checkin e b s)))) \<and>
         (storable d q f (tabs_of b) \<and> select_student d sid \<noteq> [] \<longrightarrow>
            failed_checkin_post e sid q f (tabs_of b) d (api_daily_checkin e ''POST'' b d)) \<and>
         (0 \<le> q \<and> q \<le> 10 \<and> 0 \<le> f \<and> \<not> storable (store s) q f (tabs_of b) \<and>
          select_student (store s) sid \<noteq> [] \<longrightarrow>
            server_daily_checkin e b s =
              (Error 500 ''Internal server error'', s, [ConsoleError ''Error in daily-checkin:''])) \<and>
         (\<not> storable d q f (tabs_of b) \<and> select_student d sid \<noteq> [] \<longrightarrow>
            fst (api_daily_checkin e ''POST'' b d) = Error 500 ''Internal server error'' \<and>
            daily_logs (fst (snd (api_daily_checkin e ''POST'' b d))) = daily_logs d \<and>
            interventions (fst (snd (api_daily_checkin e ''POST'' b d))) = interventions d \<and>
            select_student (fst (snd (api_daily_checkin e ''POST'' b d))) sid = select_student d sid) \<and>
         take (length (daily_logs (store s0))) (daily_logs (store (step op s0))) = daily_logs (store s0)"
proof -
  have logs: "take (length (daily_logs (store s0))) (daily_logs (store (step op s0)))
      = daily_logs (store s0)"
    using daily_logs_append_only [of op s0] by auto
  have srv: "0 \<le> q \<and> q \<le> 10 \<and> 0 \<le> f \<and> storable (store s) q f (tabs_of b) \<and>
          select_student (store s) sid \<noteq> [] \<longrightarrow>
            failed_checkin_post e sid q f (tabs_of b) (store s)
              (fst (server_daily_checkin e b s), store (fst (snd (server_daily_checkin e b s))),
               snd (snd (server_daily_checkin e b s)))"
    using server_failed_checkin [OF assms(1-5) _ _ _ _ _ assms(6), of s e] by blast
  have api: "storable d q f (tabs_of b) \<and> select_student d sid \<noteq> [] \<longrightarrow>
            failed_checkin_post e sid q f (tabs_of b) d (api_daily_checkin e ''POST'' b d)"
    using api_failed_checkin [OF assms(1-5) _ _ assms(6), of d e] by blast
  have srv_err: "0 \<le> q \<and> q \<le> 10 \<and> 0 \<le> f \<and> \<not> storable (store s) q f (tabs_of b) \<and>
          select_student (store s) sid \<noteq> [] \<longrightarrow>
            server_daily_checkin e b s =
              (Error 500 ''Internal server error'', s, [ConsoleError ''Error in daily-checkin:''])"
  proof (intro impI, elim conjE)
    assume r: "0 \<le> q" "q \<le> 10" "0 \<le> f" and n: "\<not> storable (store s) q f (tabs_of b)"
      and x: "select_student (store s) sid \<noteq> []"
    from x obtain stu rest where stu: "select_student (store s) sid = stu # rest"
      by (cases "select_student (store s) sid") auto
    have "insert_daily_log (now e) sid q f (tabs_of b) False (store s) = None"
      using n by (simp add: insert_daily_log_None)
    then show "server_daily_checkin e b s =
        (Error 500 ''Internal server error'', s, [ConsoleError ''Error in daily-checkin:''])"
      using assms r stu
      by (simp add: server_daily_checkin_def query_student_def Let_def falsy_def tabs_of_def)
  qed
  have api_err: "\<not> storable d q f (tabs_of b) \<and> select_student d sid \<noteq> [] \<longrightarrow>
            fst (api_daily_checkin e ''POST'' b d) = Error 500 ''Internal server error'' \<and>
            daily_logs (fst (snd (api_daily_checkin e ''POST'' b d))) = daily_logs d \<and>
            interventions (fst (snd (api_daily_checkin e ''POST'' b d))) = interventions d \<and>
            select_student (fst (snd (api_daily_checkin e ''POST'' b d))) sid = select_student d sid"
  proof (intro impI, elim conjE)
    assume n: "\<not> storable d q f (tabs_of b)" and x: "select_student d sid \<noteq> []"
    have eq: "select_student (initDatabase (now e) d) sid = select_student d sid"
      using x by (rule select_student_initDatabase)
    from x eq obtain stu rest where stu: "select_student (initDatabase (now e) d) sid = stu # rest"
      by (cases "select_student d sid") auto
    have "insert_daily_log (now e) sid q f (tabs_of b) False (initDatabase (now e) d) = None"
      using n by (simp add: insert_daily_log_None)
    then have "api_daily_checkin e ''POST'' b d =
        (Error 500 ''Internal server error'', initDatabase (now e) d,
         [ConsoleError ''Error in daily-checkin:''])"
      using assms stu
      by (simp add: api_daily_checkin_def query_student_def Let_def falsy_def tabs_of_def)
    then show "fst (api_daily_checkin e ''POST'' b d) = Error 500 ''Internal server error'' \<and>
            daily_logs (fst (snd (api_daily_checkin e ''POST'' b d))) = daily_logs d \<and>
            interventions (fst (snd (api_daily_checkin e ''POST'' b d))) = interventions d \<and>
            select_student (fst (snd (api_daily_checkin e ''POST'' b d))) sid = select_student d sid"
      by (simp add: eq)
  qed
  from srv api srv_err api_err logs show ?thesis by blast
qed

theorem failing_checkin_opens_ticket_witness:
  "failed_checkin_post (env_hook 100 Resolves) ''123'' 5 30 1 (store (initial True))
     (fst (server_daily_checkin (env_hook 100 Resolves) (checkin ''123'' 5 30 1) (initial True)),
      store (fst (snd (server_daily_checkin (env_hook 100 Resolves) (checkin ''123'' 5 30 1)
        (initial True)))),
      snd (snd (server_daily_checkin (env_hook 100 Resolves) (checkin ''123'' 5 30 1)
        (initial True)))) \<and>
   failed_checkin_post (env_hook 100 Resolves) ''123'' 5 30 1 (store (initial True))
     (api_daily_checkin (env_hook 100 Resolves) ''POST'' (checkin ''123'' 5 30 1)
        (store (initial True))) \<and>
   storable (store (initial True)) 5 30 1 \<and> \<not> storable (store (initial True)) 5 2147483648 1 \<and>
   server_daily_checkin (env_hook 100 Resolves) (checkin ''123'' 5 2147483648 1) (initial True) =
     (Error 500 ''Internal server error'', initial True, [ConsoleError ''Error in daily-checkin:'']) \<and>
   fst (api_daily_checkin (env_hook 100 Resolves) ''POST'' (checkin ''123'' 5 2147483648 1)
     (store (initial True))) = Error 500 ''Internal server error'' \<and>
   interventions (fst (snd (api_daily_checkin (env_hook 100 Resolves) ''POST''
     (checkin ''123'' 5 2147483648 1) (store (initial True))))) = []"
proof -
  have h: "req_student_id (checkin ''123'' 5 30 1) = Some ''123''" "''123'' \<noteq> []"
    "text_value ''123''"
    "req_quiz_score (checkin ''123'' 5 30 1) = Some 5" "req_focus_minutes (checkin ''123'' 5 30 1) = Some 30"
    "\<not> gate 5 30 (tabs_of (checkin ''123'' 5 30 1))"
    by (simp_all add: checkin_def gate_def tabs_of_def text_value_def)
  have h': "req_student_id (checkin ''123'' 5 2147483648 1) = Some ''123''"
    "req_quiz_score (checkin ''123'' 5 2147483648 1) = Some 5"
    "req_focus_minutes (checkin ''123'' 5 2147483648 1) = Some 2147483648"
    "\<not> gate 5 2147483648 (tabs_of (checkin ''123'' 5 2147483648 1))"
    by (simp_all add: checkin_def gate_def tabs_of_def)
  have t: "tabs_of (checkin ''123'' 5 30 1) = 1" "tabs_of (checkin ''123'' 5 2147483648 1) = 1"
    by (simp_all add: checkin_def tabs_of_def)
  have ex: "select_student (store (initial True)) ''123'' \<noteq> []"
    by (simp add: initial_def initDatabase_def select_student_def)
  have st: "storable (store (initial True)) 5 30 1" "\<not> storable (store (initial True)) 5 2147483648 1"
    by (simp_all add: storable_def int4_def initial_def)
  have i: "interventions (store (initial True)) = []"
    by (simp add: initial_def)
  show ?thesis
    using failing_checkin_opens_ticket [OF h, of "initial True" "env_hook 100 Resolves"
        "store (initial True)"]
      failing_checkin_opens_ticket [OF h'(1) h(2,3) h'(2-4), of "initial True"
        "env_hook 100 Resolves" "store (initial True)"]
      ex st i
    by (simp add: t)
qed

text \<open>
  C5 as stated fails where no endpoint address is configured: the ticket is created and
  no call is attempted.
\<close>

theorem failing_checkin_without_endpoint:
  "select_student (store (initial True)) ''123'' \<noteq> [] \<and> \<not> gate 5 30 1 \<and>
   checkin_intervention_id (fst (server_daily_checkin (env_at 100) (checkin ''123'' 5 30 1) (initial True)))
     = Some 1 \<and>
   snd (snd (server_daily_checkin (env_at 100) (checkin ''123'' 5 30 1) (initial True))) = [] \<and>
   checkin_intervention_id (fst (api_daily_checkin (env_at 100) ''POST'' (checkin ''123'' 5 30 1)
     (store (initial True)))) = Some 1 \<and>
   snd (snd (api_daily_checkin (env_at 100) ''POST'' (checkin ''123'' 5 30 1) (store (initial True)))) = []"
  by (simp add: initial_def initDatabase_def select_student_def query_student_def text_value_def
        int4_def gate_def server_daily_checkin_def
        api_daily_checkin_def checkin_def env_at_def falsy_def Let_def insert_daily_log_def
        insert_intervention_def update_student_status_def next_id_def trigger_webhook_def
        notifyStudent_def map_get_def)

text \<open>
  C7 (as amended). When the escalation call of a failed check-in is made and throws (a
  non-success answer, a refused or broken connection), the handler logs the failure and
  answers as if the call had succeeded: status 200 with the new ticket's id, the ticket
  stored in Pending, the student in NeedsIntervention, and the same answer and the same
  store as with a successful call. The call has no timeout: when the gateway never
  answers, the ticket and the status change are stored all the same, nothing is logged,
  and the check-in itself is never answered.
\<close>

theorem gateway_failure_not_fatal:
  "(webhook e = Throws \<and> webhook_posts (snd (snd (server_daily_checkin e b s))) \<noteq> [] \<longrightarrow>
      not_rolled_back (store s) (fst (server_daily_checkin e b s))
        (store (fst (snd (server_daily_checkin e b s)))) \<and>
      ConsoleError ''Failed to trigger n8n webhook:'' \<in> set (snd (snd (server_daily_checkin e b s))) \<and>
      fst (server_daily_checkin (e\<lparr>webhook := Resolves\<rparr>) b s) = fst (server_daily_checkin e b s) \<and>
      fst (snd (server_daily_checkin (e\<lparr>webhook := Resolves\<rparr>) b s))
        = fst (snd (server_daily_checkin e b s))) \<and>
   (webhook e = Throws \<and> webhook_posts (snd (snd (api_daily_checkin e ''POST'' b d))) \<noteq> [] \<longrightarrow>
      not_rolled_back d (fst (api_daily_checkin e ''POST'' b d))
        (fst (snd (api_daily_checkin e ''POST'' b d))) \<and>
      ConsoleError ''Failed to trigger n8n:'' \<in> set (snd (snd (api_daily_checkin e ''POST'' b d))) \<and>
      fst (api_daily_checkin (e\<lparr>webhook := Resolves\<rparr>) ''POST'' b d)
        = fst (api_daily_checkin e ''POST'' b d) \<and>
      fst (snd (api_daily_checkin (e\<lparr>webhook := Resolves\<rparr>) ''POST'' b d))
        = fst (snd (api_daily_checkin e ''POST'' b d))) \<and>
   (webhook e = NeverAnswers \<and> webhook_posts (snd (snd (server_daily_checkin e b s))) \<noteq> [] \<longrightarrow>
      ticket_kept (store s) (store (fst (snd (server_daily_checkin e b s)))) \<and>
      fst (server_daily_checkin e b s) = NoAnswer \<and>
      snd (snd (server_daily_checkin e b s)) = webhook_posts (snd (snd (server_daily_checkin e b s)))) \<and>
   (webhook e = NeverAnswers \<and> webhook_posts (snd (snd (api_daily_checkin e ''POST'' b d))) \<noteq> [] \<longrightarrow>
      ticket_kept d (fst (snd (api_daily_checkin e ''POST'' b d))) \<and>
      fst (api_daily_checkin e ''POST'' b d) = NoAnswer \<and>
      snd (snd (api_daily_checkin e ''POST'' b d)) = webhook_posts (snd (snd (api_daily_checkin e ''POST'' b d))))"
proof -
  have srv: "not_rolled_back (store s) (fst (server_daily_checkin e b s))
        (store (fst (snd (server_daily_checkin e b s)))) \<and>
      ConsoleError ''Failed to trigger n8n webhook:'' \<in> set (snd (snd (server_daily_checkin e b s))) \<and>
      fst (server_daily_checkin (e\<lparr>webhook := Resolves\<rparr>) b s) = fst (server_daily_checkin e b s) \<and>
      fst (snd (server_daily_checkin (e\<lparr>webhook := Resolves\<rparr>) b s))
        = fst (snd (server_daily_checkin e b s))"
    if w: "webhook e = Throws" and a: "webhook_posts (snd (snd (server_daily_checkin e b s))) \<noteq> []"
  proof -
    from server_webhook_attempted [OF a] obtain sid q f stu rest lg d1 where
      h: "req_student_id b = Some sid" "sid \<noteq> []" "text_value sid" "req_quiz_score b = Some q"
         "req_focus_minutes b = Some f" "0 \<le> q" "q \<le> 10" "0 \<le> f"
         "select_student (store s) sid = stu # rest" "\<not> gate q f (tabs_of b)"
      and lg: "insert_daily_log (now e) sid q f (tabs_of b) False (store s) = Some (lg, d1)"
      by blast
    have u: "\<not> falsy (N8N_WEBHOOK_URL e)"
      using a server_checkin_fail [OF h lg] by (auto simp: trigger_webhook_def split: if_splits)
    have st: "storable (store s) q f (tabs_of b)" using lg by (simp add: insert_daily_log_Some)
    have "failed_checkin_post e sid q f (tabs_of b) (store s)
          (fst (server_daily_checkin e b s), store (fst (snd (server_daily_checkin e b s))),
           snd (snd (server_daily_checkin e b s)))"
      using h by (intro server_failed_checkin st) simp_all
    moreover have "\<not> hangs e" using w by (simp add: hangs_def)
    ultimately have 1: "not_rolled_back (store s) (fst (server_daily_checkin e b s))
        (store (fst (snd (server_daily_checkin e b s))))"
      by (rule failed_post_not_rolled_back)
    have lg': "insert_daily_log (now (e\<lparr>webhook := Resolves\<rparr>)) sid q f (tabs_of b) False (store s)
        = Some (lg, d1)"
      using lg by simp
    show ?thesis
      using 1 u w
      by (simp add: server_checkin_fail [OF h lg] server_checkin_fail [OF h lg'] trigger_webhook_def)
  qed
  have api: "not_rolled_back d (fst (api_daily_checkin e ''POST'' b d))
        (fst (snd (api_daily_checkin e ''POST'' b d))) \<and>
      ConsoleError ''Failed to trigger n8n:'' \<in> set (snd (snd (api_daily_checkin e ''POST'' b d))) \<and>
      fst (api_daily_checkin (e\<lparr>webhook := Resolves\<rparr>) ''POST'' b d)
        = fst (api_daily_checkin e ''POST'' b d) \<and>
      fst (snd (api_daily_checkin (e\<lparr>webhook := Resolves\<rparr>) ''POST'' b d))
        = fst (snd (api_daily_checkin e ''POST'' b d))"
    if w: "webhook e = Throws" and a: "webhook_posts (snd (snd (api_daily_checkin e ''POST'' b d))) \<noteq> []"
  proof -
    from api_webhook_attempted [OF a] obtain sid q f stu rest lg d1 where
      h: "req_student_id b = Some sid" "sid \<noteq> []" "text_value sid" "req_quiz_score b = Some q"
         "req_focus_minutes b = Some f"
         "select_student (initDatabase (now e) d) sid = stu # rest" "\<not> gate q f (tabs_of b)"
      and lg: "insert_daily_log (now e) sid q f (tabs_of b) False (initDatabase (now e) d)
          = Some (lg, d1)"
      by blast
    have u: "\<not> falsy (N8N_WEBHOOK_URL e)"
      using a api_checkin_fail [OF h lg] by (auto simp: trigger_webhook_def split: if_splits)
    have st: "storable d q f (tabs_of b)" using lg by (simp add: insert_daily_log_Some)
    have "failed_checkin_post e sid q f (tabs_of b) (initDatabase (now e) d)
          (fst (api_daily_checkin e ''POST'' b d), fst (snd (api_daily_checkin e ''POST'' b d)),
           snd (snd (api_daily_checkin e ''POST'' b d)))"
      using api_failed_checkin_init [OF h(1-5) st _ h(7), of e] h(6) by simp
    moreover have "\<not> hangs e" using w by (simp add: hangs_def)
    ultimately have "not_rolled_back (initDatabase (now e) d) (fst (api_daily_checkin e ''POST'' b d))
        (fst (snd (api_daily_checkin e ''POST'' b d)))"
      by (rule failed_post_not_rolled_back)
    then have 1: "not_rolled_back d (fst (api_daily_checkin e ''POST'' b d))
        (fst (snd (api_daily_checkin e ''POST'' b d)))"
      by (simp add: not_rolled_back_def ticket_kept_def)
    have h': "select_student (initDatabase (now (e\<lparr>webhook := Resolves\<rparr>)) d) sid = stu # rest"
      using h(6) by simp
    have lg': "insert_daily_log (now (e\<lparr>webhook := Resolves\<rparr>)) sid q f (tabs_of b) False
        (initDatabase (now (e\<lparr>webhook := Resolves\<rparr>)) d) = Some (lg, d1)"
      using lg by simp
    show ?thesis
      using 1 u w
      by (simp add: api_checkin_fail [OF h lg] api_checkin_fail [OF h(1-5) h' h(7) lg']
            trigger_webhook_def)
  qed
  have srv_hang: "ticket_kept (store s) (store (fst (snd (server_daily_checkin e b s)))) \<and>
      fst (server_daily_checkin e b s) = NoAnswer \<and>
      snd (snd (server_daily_checkin e b s)) = webhook_posts (snd (snd (server_daily_checkin e b s)))"
    if w: "webhook e = NeverAnswers"
      and a: "webhook_posts (snd (snd (server_daily_checkin e b s))) \<noteq> []"
  proof -
    from server_webhook_attempted [OF a] obtain sid q f stu rest lg d1 where
      h: "req_student_id b = Some sid" "sid \<noteq> []" "text_value sid" "req_quiz_score b = Some q"
         "req_focus_minutes b = Some f" "0 \<le> q" "q \<le> 10" "0 \<le> f"
         "select_student (store s) sid = stu # rest" "\<not> gate q f (tabs_of b)"
      and lg: "insert_daily_log (now e) sid q f (tabs_of b) False (store s) = Some (lg, d1)"
      by blast
    have u: "\<not> falsy (N8N_WEBHOOK_URL e)"
      using a server_checkin_fail [OF h lg] by (auto simp: trigger_webhook_def split: if_splits)
    have st: "storable (store s) q f (tabs_of b)" using lg by (simp add: insert_daily_log_Some)
    have "failed_checkin_post e sid q f (tabs_of b) (store s)
          (fst (server_daily_checkin e b s), store (fst (snd (server_daily_checkin e b s))),
           snd (snd (server_daily_checkin e b s)))"
      using h by (intro server_failed_checkin st) simp_all
    then have 1: "ticket_kept (store s) (store (fst (snd (server_daily_checkin e b s))))"
      by (rule failed_post_ticket_kept)
    show ?thesis
      using 1 u w by (simp add: server_checkin_fail [OF h lg] trigger_webhook_def)
  qed
  have api_hang: "ticket_kept d (fst (snd (api_daily_checkin e ''POST'' b d))) \<and>
      fst (api_daily_checkin e ''POST'' b d) = NoAnswer \<and>
      snd (snd (api_daily_checkin e ''POST'' b d)) = webhook_posts (snd (snd (api_daily_checkin e ''POST'' b d)))"
    if w: "webhook e = NeverAnswers"
      and a: "webhook_posts (snd (snd (api_daily_checkin e ''POST'' b d))) \<noteq> []"
  proof -
    from api_webhook_attempted [OF a] obtain sid q f stu rest lg d1 where
      h: "req_student_id b = Some sid" "sid \<noteq> []" "text_value sid" "req_quiz_score b = Some q"
         "req_focus_minutes b = Some f"
         "select_student (initDatabase (now e) d) sid = stu # rest" "\<not> gate q f (tabs_of b)"
      and lg: "insert_daily_log (now e) sid q f (tabs_of b) False (initDatabase (now e) d)
          = Some (lg, d1)"
      by blast
    have u: "\<not> falsy (N8N_WEBHOOK_URL e)"
      using a api_checkin_fail [OF h lg] by (auto simp: trigger_webhook_def split: if_splits)
    have st: "storable d q f (tabs_of b)" using lg by (simp add: insert_daily_log_Some)
    have "failed_checkin_post e sid q f (tabs_of b) (initDatabase (now e) d)
          (fst (api_daily_checkin e ''POST'' b d), fst (snd (api_daily_checkin e ''POST'' b d)),
           snd (snd (api_daily_checkin e ''POST'' b d)))"
      using api_failed_checkin_init [OF h(1-5) st _ h(7), of e] h(6) by simp
    then have "ticket_kept (initDatabase (now e) d) (fst (snd (api_daily_checkin e ''POST'' b d)))"
      by (rule failed_post_ticket_kept)
    then have 1: "ticket_kept d (fst (snd (api_daily_checkin e ''POST'' b d)))"
      by (simp add: ticket_kept_def)
    show ?thesis
      using 1 u w by (simp add: api_checkin_fail [OF h lg] trigger_webhook_def)
  qed
  from srv api srv_hang api_hang show ?thesis by blast
qed

theorem gateway_failure_not_fatal_witness:
  "webhook (env_hook 100 Throws) = Throws \<and>
   webhook_posts (snd (snd (server_daily_checkin (env_hook 100 Throws) (checkin ''123'' 5 30 1)
     (initial True)))) \<noteq> [] \<and>
   webhook_posts (snd (snd (api_daily_checkin (env_hook 100 Throws) ''POST'' (checkin ''123'' 5 30 1)
     (store (initial False))))) \<noteq> [] \<and>
   not_rolled_back (store (initial True))
     (fst (server_daily_checkin (env_hook 100 Throws) (checkin ''123'' 5 30 1) (initial True)))
     (store (fst (snd (server_daily_checkin (env_hook 100 Throws) (checkin ''123'' 5 30 1)
        (initial True))))) \<and>
   not_rolled_back (store (initial False))
     (fst (api_daily_checkin (env_hook 100 Throws) ''POST'' (checkin ''123'' 5 30 1)
        (store (initial False))))
     (fst (snd (api_daily_checkin (env_hook 100 Throws) ''POST'' (checkin ''123'' 5 30 1)
        (store (initial False))))) \<and>
   webhook (env_hook 100 NeverAnswers) = NeverAnswers \<and>
   webhook_posts (snd (snd (server_daily_checkin (env_hook 100 NeverAnswers) (checkin ''123'' 5 30 1)
     (initial True)))) \<noteq> [] \<and>
   ticket_kept (store (initial True))
     (store (fst (snd (server_daily_checkin (env_hook 100 NeverAnswers) (checkin ''123'' 5 30 1)
        (initial True))))) \<and>
   fst (server_daily_checkin (env_hook 100 NeverAnswers) (checkin ''123'' 5 30 1) (initial True))
     = NoAnswer \<and>
   webhook_posts (snd (snd (api_daily_checkin (env_hook 100 NeverAnswers) ''POST''
     (checkin ''123'' 5 30 1) (store (initial False))))) \<noteq> [] \<and>
   ticket_kept (store (initial False))
     (fst (snd (api_daily_checkin (env_hook 100 NeverAnswers) ''POST'' (checkin ''123'' 5 30 1)
        (store (initial False))))) \<and>
   fst (api_daily_checkin (env_hook 100 NeverAnswers) ''POST'' (checkin ''123'' 5 30 1)
     (store (initial False))) = NoAnswer"
proof -
  have h: "webhook (env_hook 100 Throws) = Throws"
    "webhook (env_hook 100 NeverAnswers) = NeverAnswers"
    by (simp_all add: env_hook_def)
  have a1: "webhook_posts (snd (snd (server_daily_checkin (env_hook 100 Throws)
      (checkin ''123'' 5 30 1) (initial True)))) \<noteq> []"
    by (simp add: initial_def initDatabase_def select_student_def query_student_def text_value_def
        int4_def gate_def server_daily_checkin_def
        checkin_def env_hook_def falsy_def Let_def insert_daily_log_def
        insert_intervention_def trigger_webhook_def)
  have a2: "webhook_posts (snd (snd (api_daily_checkin (env_hook 100 Throws) ''POST''
      (checkin ''123'' 5 30 1) (store (initial False))))) \<noteq> []"
    by (simp add: initial_def initDatabase_def select_student_def query_student_def text_value_def
        int4_def gate_def api_daily_checkin_def
        checkin_def env_hook_def falsy_def Let_def insert_daily_log_def
        insert_intervention_def trigger_webhook_def)
  have a3: "webhook_posts (snd (snd (server_daily_checkin (env_hook 100 NeverAnswers)
      (checkin ''123'' 5 30 1) (initial True)))) \<noteq> []"
    by (simp add: initial_def initDatabase_def select_student_def query_student_def text_value_def
        int4_def gate_def server_daily_checkin_def
        checkin_def env_hook_def falsy_def Let_def insert_daily_log_def
        insert_intervention_def trigger_webhook_def)
  have a4: "webhook_posts (snd (snd (api_daily_checkin (env_hook 100 NeverAnswers) ''POST''
      (checkin ''123'' 5 30 1) (store (initial False))))) \<noteq> []"
    by (simp add: initial_def initDatabase_def select_student_def query_student_def text_value_def
        int4_def gate_def api_daily_checkin_def
        checkin_def env_hook_def falsy_def Let_def insert_daily_log_def
        insert_intervention_def trigger_webhook_def)
  show ?thesis
    using h a1 a2 a3 a4
      gateway_failure_not_fatal [of "env_hook 100 Throws" "checkin ''123'' 5 30 1" "initial True"
        "store (initial False)"]
      gateway_failure_not_fatal [of "env_hook 100 NeverAnswers" "checkin ''123'' 5 30 1"
        "initial True" "store (initial False)"]
    by blast
qed

text \<open>
  C7 as stated fails for a gateway that accepts the call and never answers: the ticket is
  stored, and the check-in gets no answer at all, on either build.
\<close>

theorem gateway_never_answers:
  "fst (server_daily_checkin (env_hook 100 NeverAnswers) (checkin ''123'' 5 30 1) (initial True))
     = NoAnswer \<and>
   map iv_status (interventions (store (fst (snd (server_daily_checkin (env_hook 100 NeverAnswers)
     (checkin ''123'' 5 30 1) (initial True)))))) = [Pending] \<and>
   map status (students (store (fst (snd (server_daily_checkin (env_hook 100 NeverAnswers)
     (checkin ''123'' 5 30 1) (initial True)))))) = [NeedsIntervention] \<and>
   filter (\<lambda>x. x = ConsoleError ''Failed to trigger n8n webhook:'')
     (snd (snd (server_daily_checkin (env_hook 100 NeverAnswers) (checkin ''123'' 5 30 1)
        (initial True)))) = [] \<and>
   fst (api_daily_checkin (env_hook 100 NeverAnswers) ''POST'' (checkin ''123'' 5 30 1)
     (store (initial True))) = NoAnswer \<and>
   map iv_status (interventions (fst (snd (api_daily_checkin (env_hook 100 NeverAnswers) ''POST''
     (checkin ''123'' 5 30 1) (store (initial True)))))) = [Pending] \<and>
   http_status (fst (server_daily_checkin (env_hook 100 Throws) (checkin ''123'' 5 30 1)
     (initial True))) = 200"
  by (simp add: initial_def initDatabase_def select_student_def query_student_def text_value_def
        int4_def gate_def server_daily_checkin_def
        api_daily_checkin_def checkin_def env_hook_def falsy_def Let_def insert_daily_log_def
        insert_intervention_def update_student_status_def next_id_def trigger_webhook_def
        notifyStudent_def map_get_def)



text \<open>
  C3 (as amended). AssignIntervention never answers with a conflict. Whenever student id
  and task are present and the values of the request are ones the store takes (\<open>fits\<close>),
  it answers success, whatever the status of the target ticket: every ticket of that
  student with that id is set to Assigned with the task, the mentor and the time of this
  call, every other ticket is left as it is, and the student gets status Remedial. Called
  twice with the same ticket identity it succeeds both times, and the student's status
  after the second call equals the status after the first. An intervention id outside
  \<open>INTEGER\<close> makes the store raise: the answer is 500 and nothing is written.
\<close>

theorem assign_overwrites:
  assumes "req_student_id b = Some sid" and "sid \<noteq> []"
    and "req_remedial_task b = Some task" and "task \<noteq> []"
  shows "(fits b \<longrightarrow>
           server_assign_intervention t b s =
             (AssignJson ''Intervention assigned successfully'' sid task,
              s\<lparr>store := (store s)
                 \<lparr>interventions :=
                    map (\<lambda>i. if iv_student_id i = sid \<and> req_intervention_id b = Some (int (iv_id i))
                              then i\<lparr>iv_status := Assigned, remedial_task := Some task,
                                      mentor_email := req_mentor_email b, assigned_at := Some t\<rparr>
                              else i) (interventions (store s)),
                  students := set_status Remedial t sid (students (store s))\<rparr>\<rparr>,
              notifyStudent (connectedStudents s) sid
                (InterventionAssigned Remedial task (req_mentor_email b))) \<and>
           api_assign_intervention t ''POST'' b d =
             (AssignJson ''Intervention assigned successfully'' sid task,
              d\<lparr>interventions :=
                   map (\<lambda>i. if iv_student_id i = sid \<and> req_intervention_id b = Some (int (iv_id i))
                             then i\<lparr>iv_status := Assigned, remedial_task := Some task,
                                     mentor_email := req_mentor_email b, assigned_at := Some t\<rparr>
                             else i) (interventions d),
                 students := set_status Remedial t sid (students d)\<rparr>, []) \<and>
           http_status (fst (server_assign_intervention t' b (step (ServerAssign t b) s))) = 200 \<and>
           map status (students (store (step (ServerAssign t' b) (step (ServerAssign t b) s))))
             = map status (students (store (step (ServerAssign t b) s))) \<and>
           http_status (fst (api_assign_intervention t' ''POST'' b
             (fst (snd (api_assign_intervention t ''POST'' b d))))) = 200 \<and>
           map status (students (fst (snd (api_assign_intervention t' ''POST'' b
             (fst (snd (api_assign_intervention t ''POST'' b d))))))) =
             map status (students (fst (snd (api_assign_intervention t ''POST'' b d))))) \<and>
         (\<not> int4_param (req_intervention_id b) \<longrightarrow>
           server_assign_intervention t b s =
             (Error 500 ''Internal server error'', s,
              [ConsoleError ''Error assigning intervention:'']) \<and>
           api_assign_intervention t ''POST'' b d =
             (Error 500 ''Internal server error'', d, [ConsoleError ''Error:'']))"
proof (intro conjI impI)
  assume f: "fits b"
  note u = fits_assigned [OF f assms(1,3)]
  show 1: "server_assign_intervention t b s =
             (AssignJson ''Intervention assigned successfully'' sid task,
              s\<lparr>store := (store s)
                 \<lparr>interventions :=
                    map (\<lambda>i. if iv_student_id i = sid \<and> req_intervention_id b = Some (int (iv_id i))
                              then i\<lparr>iv_status := Assigned, remedial_task := Some task,
                                      mentor_email := req_mentor_email b, assigned_at := Some t\<rparr>
                              else i) (interventions (store s)),
                  students := set_status Remedial t sid (students (store s))\<rparr>\<rparr>,
              notifyStudent (connectedStudents s) sid
                (InterventionAssigned Remedial task (req_mentor_email b)))"
    using assms
    by (simp add: server_assign_intervention_def falsy_def Let_def u update_student_status_rows)
  show 2: "api_assign_intervention t ''POST'' b d =
             (AssignJson ''Intervention assigned successfully'' sid task,
              d\<lparr>interventions :=
                   map (\<lambda>i. if iv_student_id i = sid \<and> req_intervention_id b = Some (int (iv_id i))
                             then i\<lparr>iv_status := Assigned, remedial_task := Some task,
                                     mentor_email := req_mentor_email b, assigned_at := Some t\<rparr>
                             else i) (interventions d),
                 students := set_status Remedial t sid (students d)\<rparr>, [])"
    using assms
    by (simp add: api_assign_intervention_def falsy_def Let_def u update_student_status_rows)
  show "http_status (fst (server_assign_intervention t' b (step (ServerAssign t b) s))) = 200"
    using assms
    by (simp add: server_assign_intervention_def falsy_def Let_def u)
  show "map status (students (store (step (ServerAssign t' b) (step (ServerAssign t b) s))))
             = map status (students (store (step (ServerAssign t b) s)))"
    using assms
    by (simp add: server_assign_intervention_def falsy_def Let_def u status_set_status_twice)
  show "http_status (fst (api_assign_intervention t' ''POST'' b
             (fst (snd (api_assign_intervention t ''POST'' b d))))) = 200"
    using assms
    by (simp add: api_assign_intervention_def falsy_def Let_def u)
  show "map status (students (fst (snd (api_assign_intervention t' ''POST'' b
             (fst (snd (api_assign_intervention t ''POST'' b d))))))) =
             map status (students (fst (snd (api_assign_intervention t ''POST'' b d))))"
    using assms
    by (simp add: api_assign_intervention_def falsy_def Let_def u status_set_status_twice)
next
  assume n: "\<not> int4_param (req_intervention_id b)"
  then have e: "update_intervention_assigned task (req_mentor_email b) t sid (req_intervention_id b) x
      = None" for x
    by (simp add: update_intervention_assigned_def)
  show "server_assign_intervention t b s =
             (Error 500 ''Internal server error'', s,
              [ConsoleError ''Error assigning intervention:''])"
    using assms by (simp add: server_assign_intervention_def falsy_def Let_def e)
  show "api_assign_intervention t ''POST'' b d =
             (Error 500 ''Internal server error'', d, [ConsoleError ''Error:''])"
    using assms by (simp add: api_assign_intervention_def falsy_def Let_def e)
qed

theorem assign_overwrites_witness:
  "map iv_status (interventions (store in_remedial)) = [Assigned] \<and>
   fits (assign ''123'' (Some 1) ''Read Ch.5'' ''n@x.com'') \<and>
   fst (server_assign_intervention 300 (assign ''123'' (Some 1) ''Read Ch.5'' ''n@x.com'') in_remedial)
     = AssignJson ''Intervention assigned successfully'' ''123'' ''Read Ch.5'' \<and>
   map status (students (store (step (ServerAssign 300 (assign ''123'' (Some 1) ''Read Ch.5'' ''n@x.com''))
     in_remedial))) = [Remedial] \<and>
   \<not> int4_param (req_intervention_id (assign ''123'' (Some 2147483648) ''Read Ch.5'' ''n@x.com'')) \<and>
   server_assign_intervention 300 (assign ''123'' (Some 2147483648) ''Read Ch.5'' ''n@x.com'')
     in_remedial =
     (Error 500 ''Internal server error'', in_remedial,
      [ConsoleError ''Error assigning intervention:''])"
proof -
  have a: "req_student_id (assign ''123'' iid ''Read Ch.5'' ''n@x.com'') = Some ''123''"
    "req_remedial_task (assign ''123'' iid ''Read Ch.5'' ''n@x.com'') = Some ''Read Ch.5''" for iid
    by (simp_all add: assign_def)
  have n: "''123'' \<noteq> []" "''Read Ch.5'' \<noteq> []" by simp_all
  have f: "fits (assign ''123'' (Some 1) ''Read Ch.5'' ''n@x.com'')"
    by (simp add: fits_def assign_def int4_param_def int4_def text_value_def)
  have o: "\<not> int4_param (req_intervention_id (assign ''123'' (Some 2147483648) ''Read Ch.5'' ''n@x.com''))"
    by (simp add: assign_def int4_param_def int4_def)
  from assign_overwrites [OF a(1) n(1) a(2) n(2), of "Some 1" 300 in_remedial]
    assign_overwrites [OF a(1) n(1) a(2) n(2), of "Some 2147483648" 300 in_remedial] f o
  show ?thesis
    by (simp add: in_remedial_eq set_status_def)
qed

text \<open>
  C3 as stated fails: a second assignment of a ticket that is already Assigned answers
  200 and overwrites the task and the assignment time.
\<close>

theorem second_assign_overwrites:
  "map iv_status (interventions (store in_remedial)) = [Assigned] \<and>
   map remedial_task (interventions (store in_remedial)) = [Some ''Read Ch.4''] \<and>
   http_status (fst (server_assign_intervention 300
      (assign ''123'' (Some 1) ''Read Ch.5'' ''n@x.com'') in_remedial)) = 200 \<and>
   map remedial_task (interventions (store (fst (snd (server_assign_intervention 300
      (assign ''123'' (Some 1) ''Read Ch.5'' ''n@x.com'') in_remedial))))) = [Some ''Read Ch.5''] \<and>
   http_status (fst (api_assign_intervention 300 ''POST''
      (assign ''123'' (Some 1) ''Read Ch.5'' ''n@x.com'') (store in_remedial))) = 200 \<and>
   map assigned_at (interventions (fst (snd (api_assign_intervention 300 ''POST''
      (assign ''123'' (Some 1) ''Read Ch.5'' ''n@x.com'') (store in_remedial))))) = [Some 300]"
  by (simp add: in_remedial_eq server_assign_intervention_def api_assign_intervention_def assign_def
        falsy_def Let_def update_intervention_assigned_def update_student_status_def matches_def
        text_value_def int4_param_def int4_def varchar_def)

text \<open>
  What CompleteRemedial does with a request the store takes: it answers success, sets
  every ticket of the student with the given id to Completed with the time of the call,
  whatever the ticket's status was, and sets the student to Active.
\<close>

lemma complete_remedial_effect:
  assumes "req_student_id b = Some sid" and "sid \<noteq> []" and "fits b"
  shows "server_complete_remedial t b s =
           (CompleteJson ''Remedial task completed. You can now proceed with daily check-ins.''
              ''active'',
            s\<lparr>store := (store s)
               \<lparr>interventions :=
                  map (\<lambda>i. if iv_student_id i = sid \<and> req_intervention_id b = Some (int (iv_id i))
                            then i\<lparr>iv_status := Completed, completed_at := Some t\<rparr>
                            else i) (interventions (store s)),
                students := set_status Active t sid (students (store s))\<rparr>\<rparr>,
            notifyStudent (connectedStudents s) sid (StatusUpdate Active))"
    and "api_complete_remedial t ''POST'' b d =
           (CompleteJson ''Remedial task completed.'' ''active'',
            d\<lparr>interventions :=
                 map (\<lambda>i. if iv_student_id i = sid \<and> req_intervention_id b = Some (int (iv_id i))
                           then i\<lparr>iv_status := Completed, completed_at := Some t\<rparr>
                           else i) (interventions d),
               students := set_status Active t sid (students d)\<rparr>, [])"
  using assms(1,2)
  by (simp_all add: server_complete_remedial_def api_complete_remedial_def falsy_def Let_def
        fits_completed [OF assms(3,1)] update_student_status_rows)

text \<open>
  C4. CompleteRemedial does not look at the ticket's status. Completing a ticket that is
  still Pending, for a student in NeedsIntervention, answers 200, closes the ticket and
  sets the student to Active on both builds: the student leaves NeedsIntervention for
  Active without an assignment, the transition that the repository's own description of
  its state machine rules out. (What the handler does with a request the store takes, for
  a ticket in any status, is \<open>complete_remedial_effect\<close>.)
\<close>

theorem complete_pending_ticket:
  "map iv_status (interventions (store locked)) = [Pending] \<and>
   map status (students (store locked)) = [NeedsIntervention] \<and>
   http_status (fst (server_complete_remedial 400 (complete ''123'' (Some 1)) locked)) = 200 \<and>
   map iv_status (interventions (store (fst (snd (server_complete_remedial 400
      (complete ''123'' (Some 1)) locked))))) = [Completed] \<and>
   map status (students (store (fst (snd (server_complete_remedial 400
      (complete ''123'' (Some 1)) locked))))) = [Active] \<and>
   http_status (fst (api_complete_remedial 400 ''POST'' (complete ''123'' (Some 1)) (store locked))) = 200 \<and>
   map iv_status (interventions (fst (snd (api_complete_remedial 400 ''POST''
      (complete ''123'' (Some 1)) (store locked))))) = [Completed] \<and>
   map status (students (fst (snd (api_complete_remedial 400 ''POST''
      (complete ''123'' (Some 1)) (store locked))))) = [Active]"
  by (simp add: locked_eq server_complete_remedial_def api_complete_remedial_def complete_def
        falsy_def Let_def update_intervention_completed_def update_student_status_def matches_def
        text_value_def int4_param_def int4_def)

text \<open>
  C1 (as amended). The provisioned state has no open ticket, and every run of operations
  preserves "each student has at most one ticket in Pending or Assigned" provided that no
  step creates a ticket for a student who has an open one and no step sets a ticket that
  was Completed or Expired back to an open status (\<open>guarded\<close>). The steps that create a
  ticket are exactly the check-ins with a failing verdict that the handler does not
  refuse, and each appends one Pending ticket of its student; the steps that reopen a
  ticket are exactly the assignments, not refused, that name a ticket which is not open.
  Either of them breaks the predicate whenever the student of the request has an open
  ticket. A refused request (an answer of 400 or above) changes no ticket and so
  preserves the predicate, as do CompleteRemedial, passing check-ins and the socket
  events.
\<close>

theorem guarded_runs_keep_single_open_ticket:
  "at_most_one_open (store (initial checks)) \<and>
   (at_most_one_open (store s) \<and> run_guarded ops s \<longrightarrow> at_most_one_open (store (run ops s))) \<and>
   creates_ticket op s' = (failing_checkin op \<and> \<not> refused op s') \<and>
   (creates_ticket op s' \<longrightarrow>
      (\<exists>n. interventions (store (step op s')) = interventions (store s') @ [n] \<and>
           iv_status n = Pending \<and> iv_student_id n = requester op)) \<and>
   reopens_ticket op s' = (assignment_of_closed op s' \<and> \<not> refused op s') \<and>
   ((creates_ticket op s' \<or> reopens_ticket op s') \<and> open_tickets (store s') (requester op) \<noteq> [] \<longrightarrow>
      \<not> at_most_one_open (store (step op s'))) \<and>
   (refused op s' \<longrightarrow>
      guarded op s' \<and> interventions (store (step op s')) = interventions (store s')) \<and>
   (\<not> failing_checkin op \<and> \<not> assignment_of_closed op s' \<longrightarrow> guarded op s')"
proof -
  have 1: "at_most_one_open (store (initial checks))"
    by (simp add: initial_def at_most_one_open_def)
  have 2: "at_most_one_open (store s) \<Longrightarrow> run_guarded ops s \<Longrightarrow> at_most_one_open (store (run ops s))"
  proof (induction ops arbitrary: s)
    case Nil
    then show ?case by simp
  next
    case (Cons op ops)
    from Cons.prems have "at_most_one_open (store (step op s))"
      by (simp add: guarded_step_keeps_invariant)
    with Cons show ?case by simp
  qed
  have 3: "creates_ticket op s' = (failing_checkin op \<and> \<not> refused op s')"
    by (rule creates_ticket_iff)
  have 4: "reopens_ticket op s' = (assignment_of_closed op s' \<and> \<not> refused op s')"
    by (rule reopens_ticket_iff)
  have 8: "creates_ticket op s' \<longrightarrow>
      (\<exists>n. interventions (store (step op s')) = interventions (store s') @ [n] \<and>
           iv_status n = Pending \<and> iv_student_id n = requester op)"
    using created_ticket_appended [of op s'] by blast
  have 5: "(creates_ticket op s' \<or> reopens_ticket op s') \<and>
      open_tickets (store s') (requester op) \<noteq> [] \<longrightarrow> \<not> at_most_one_open (store (step op s'))"
    using created_breaks_invariant [of op s'] reopened_breaks_invariant [of op s'] by blast
  have g: "guarded op s'" if "\<not> creates_ticket op s'" "\<not> reopens_ticket op s'"
    using that by (simp add: guarded_def)
  have 6: "refused op s' \<longrightarrow>
      guarded op s' \<and> interventions (store (step op s')) = interventions (store s')"
  proof
    assume r: "refused op s'"
    then have c: "\<not> creates_ticket op s'" "\<not> reopens_ticket op s'"
      by (simp_all add: 3 4)
    from step_interventions_refused [OF r] g [OF c]
    show "guarded op s' \<and> interventions (store (step op s')) = interventions (store s')"
      by simp
  qed
  have 7: "\<not> failing_checkin op \<and> \<not> assignment_of_closed op s' \<longrightarrow> guarded op s'"
    using g by (simp add: 3 4)
  from 1 2 3 4 5 6 7 8 show ?thesis by blast
qed

theorem guarded_runs_keep_single_open_ticket_witness:
  "at_most_one_open (store (initial True)) \<and>
   run_guarded [ServerCheckIn (env_at 100) (checkin ''123'' 5 30 1),
                ServerAssign 200 (assign ''123'' (Some 1) ''Read Ch.4'' ''m@x.com'')] (initial True) \<and>
   at_most_one_open (store in_remedial) \<and>
   failing_checkin (ServerCheckIn (env_at 500) (checkin ''123'' 5 30 1)) \<and>
   \<not> refused (ServerCheckIn (env_at 500) (checkin ''123'' 5 30 1)) locked \<and>
   open_tickets (store locked) ''123'' \<noteq> [] \<and>
   \<not> guarded (ServerCheckIn (env_at 500) (checkin ''123'' 5 30 1)) locked \<and>
   \<not> at_most_one_open (store (step (ServerCheckIn (env_at 500) (checkin ''123'' 5 30 1)) locked)) \<and>
   failing_checkin (ServerCheckIn (env_at 500) (checkin ''123'' (- 1) 30 1)) \<and>
   refused (ServerCheckIn (env_at 500) (checkin ''123'' (- 1) 30 1)) locked \<and>
   guarded (ServerCheckIn (env_at 500) (checkin ''123'' (- 1) 30 1)) locked \<and>
   at_most_one_open (store (step (ServerCheckIn (env_at 500) (checkin ''123'' (- 1) 30 1)) locked)) \<and>
   creates_ticket (ServerCheckIn (env_at 500) (checkin ''123'' 5 30 1)) locked \<and>
   assignment_of_closed (ServerAssign 500 (assign ''123'' (Some 1) ''Read Ch.4'' ''m@x.com'')) relapsed \<and>
   reopens_ticket (ServerAssign 500 (assign ''123'' (Some 1) ''Read Ch.4'' ''m@x.com'')) relapsed \<and>
   open_tickets (store relapsed) ''123'' \<noteq> [] \<and>
   \<not> at_most_one_open (store (step (ServerAssign 500
      (assign ''123'' (Some 1) ''Read Ch.4'' ''m@x.com'')) relapsed)) \<and>
   \<not> failing_checkin (ServerAssign 200 (assign ''123'' (Some 1) ''Read Ch.4'' ''m@x.com'')) \<and>
   \<not> assignment_of_closed (ServerAssign 200 (assign ''123'' (Some 1) ''Read Ch.4'' ''m@x.com'')) locked \<and>
   guarded (ServerAssign 200 (assign ''123'' (Some 1) ''Read Ch.4'' ''m@x.com'')) locked"
proof -
  let ?c1 = "ServerCheckIn (env_at 100) (checkin ''123'' 5 30 1)"
  let ?a = "ServerAssign 200 (assign ''123'' (Some 1) ''Read Ch.4'' ''m@x.com'')"
  let ?c2 = "ServerCheckIn (env_at 500) (checkin ''123'' 5 30 1)"
  let ?c3 = "ServerCheckIn (env_at 500) (checkin ''123'' (- 1) 30 1)"
  let ?r = "ServerAssign 500 (assign ''123'' (Some 1) ''Read Ch.4'' ''m@x.com'')"
  have f: "failing_checkin ?c1" "failing_checkin ?c2" "failing_checkin ?c3"
    "\<not> failing_checkin ?a" "\<not> assignment_of_closed ?c1 (initial True)"
    by (simp_all add: failing_def checkin_def gate_def tabs_of_def)
  have o: "open_tickets (store (initial True)) (requester ?c1) = []"
    "open_tickets (store locked) ''123'' \<noteq> []" "requester ?c2 = ''123''"
    "\<not> assignment_of_closed ?a locked"
    by (simp_all add: initial_def open_tickets_def locked_eq is_open_def body_student_def
          checkin_def names_closed_def assign_def matches_def)
  have r: "\<not> refused ?c2 locked" "refused ?c3 locked"
    by (simp_all add: refused_simps locked_eq server_daily_checkin_def query_student_def
          select_student_def text_value_def checkin_def env_at_def falsy_def Let_def
          insert_daily_log_def int4_def gate_def insert_intervention_def trigger_webhook_def)
  note t = guarded_runs_keep_single_open_ticket
  have g1: "guarded ?c1 (initial True)"
    using t [of True "initial True" "[]" ?c1 "initial True"] f o
    by (simp add: guarded_def)
  have g2: "guarded ?a locked"
    using t [of True "initial True" "[]" ?a locked] f o by blast
  have g: "run_guarded [?c1, ?a] (initial True)"
    using g1 g2 by (simp only: run_guarded.simps locked_def simp_thms)
  have e: "run [?c1, ?a] (initial True) = in_remedial"
    by (simp only: run.simps in_remedial_def locked_def)
  have i: "at_most_one_open (store (initial True))" "at_most_one_open (store in_remedial)"
    using g t [of True "initial True" "[?c1, ?a]" ?c1 "initial True"] by (simp_all only: e)
  have l: "at_most_one_open (store locked)"
    using g1 t [of True "initial True" "[?c1]" ?c1 "initial True"]
    by (simp only: run.simps run_guarded.simps locked_def simp_thms)
  have b: "\<not> guarded ?c2 locked" "\<not> at_most_one_open (store (step ?c2 locked))"
    using t [of True "initial True" "[]" ?c2 locked] f r o by (auto simp: guarded_def)
  have k: "guarded ?c3 locked" "at_most_one_open (store (step ?c3 locked))"
    using t [of True locked "[?c3]" ?c3 locked] r l
    by (simp_all only: run.simps run_guarded.simps simp_thms)
  have c: "creates_ticket ?c2 locked"
    using t [of True "initial True" "[]" ?c2 locked] f r by blast
  have n: "assignment_of_closed ?r relapsed" "open_tickets (store relapsed) ''123'' \<noteq> []"
    "requester ?r = ''123''"
    by (simp_all add: relapsed_eq names_closed_def assign_def matches_def is_open_def
          body_student_def open_tickets_def)
  have nr: "\<not> refused ?r relapsed"
    by (simp add: refused_simps relapsed_eq server_assign_intervention_def assign_def falsy_def
          Let_def update_intervention_assigned_def text_value_def int4_param_def int4_def
          varchar_def)
  have ro: "reopens_ticket ?r relapsed" "\<not> at_most_one_open (store (step ?r relapsed))"
    using t [of True "initial True" "[]" ?r relapsed] n nr by auto
  from f o r g g2 i b k c n ro show ?thesis by blast
qed

text \<open>
  C1 as stated fails: from the provisioned state one failing check-in gives a state with
  one Pending ticket, and a second failing check-in gives two. An assignment that names a
  Completed ticket while the student has a Pending one gives two open tickets as well.
\<close>

theorem second_failed_checkin_opens_second_ticket:
  "locked = run [ServerCheckIn (env_at 100) (checkin ''123'' 5 30 1)] (initial True) \<and>
   at_most_one_open (store locked) \<and>
   map iv_status (interventions (store (step (ServerCheckIn (env_at 500) (checkin ''123'' 5 30 1)) locked)))
     = [Pending, Pending] \<and>
   \<not> at_most_one_open (store (step (ServerCheckIn (env_at 500) (checkin ''123'' 5 30 1)) locked)) \<and>
   \<not> at_most_one_open (store (step (ApiCheckIn (env_at 500) (checkin ''123'' 5 30 1)) locked)) \<and>
   at_most_one_open (store relapsed) \<and>
   map iv_status (interventions (store (step (ServerAssign 500
      (assign ''123'' (Some 1) ''Read Ch.4'' ''m@x.com'')) relapsed))) = [Assigned, Pending] \<and>
   \<not> at_most_one_open (store (step (ServerAssign 500
      (assign ''123'' (Some 1) ''Read Ch.4'' ''m@x.com'')) relapsed))"
proof -
  have 1: "locked = run [ServerCheckIn (env_at 100) (checkin ''123'' 5 30 1)] (initial True)"
    by (simp only: run.simps locked_def)
  have 2: "at_most_one_open (store locked)" "at_most_one_open (store relapsed)"
    by (simp_all add: locked_eq relapsed_eq at_most_one_open_def open_tickets_def is_open_def)
  have 3: "map iv_status (interventions (store (step (ServerCheckIn (env_at 500)
        (checkin ''123'' 5 30 1)) locked))) = [Pending, Pending]"
      "\<not> at_most_one_open (store (step (ServerCheckIn (env_at 500) (checkin ''123'' 5 30 1)) locked))"
    by (simp_all add: locked_eq at_most_one_open_def open_tickets_def is_open_def
        select_student_def query_student_def text_value_def int4_def gate_def
        server_daily_checkin_def checkin_def env_at_def falsy_def
        Let_def insert_daily_log_def insert_intervention_def update_student_status_def
        trigger_webhook_def)
  have 4: "\<not> at_most_one_open (store (step (ApiCheckIn (env_at 500) (checkin ''123'' 5 30 1)) locked))"
    by (simp add: locked_eq at_most_one_open_def open_tickets_def is_open_def
        select_student_def query_student_def text_value_def int4_def gate_def
        api_daily_checkin_def initDatabase_def checkin_def env_at_def
        falsy_def Let_def insert_daily_log_def insert_intervention_def update_student_status_def
        trigger_webhook_def)
  have 5: "map iv_status (interventions (store (step (ServerAssign 500
      (assign ''123'' (Some 1) ''Read Ch.4'' ''m@x.com'')) relapsed))) = [Assigned, Pending]"
    "\<not> at_most_one_open (store (step (ServerAssign 500
      (assign ''123'' (Some 1) ''Read Ch.4'' ''m@x.com'')) relapsed))"
    by (simp_all add: relapsed_eq at_most_one_open_def open_tickets_def is_open_def
        server_assign_intervention_def assign_def update_intervention_assigned_def matches_def
        update_student_status_def falsy_def Let_def
        text_value_def int4_param_def int4_def varchar_def)
  from 1 2 3 4 5 show ?thesis by blast
qed

text \<open>
  C9 (as amended). The code stores the expiry deadline of a ticket (creation plus twelve
  hours) and never acts on it. A ticket that no AssignIntervention or CompleteRemedial
  request names keeps its row, status included, through every run of operations, at
  whatever times they happen; no operation sets a ticket to Expired; and a student whom
  no request concerns keeps its status. Every ticket of every state reached from the
  provisioned one carries the deadline of its creation time plus twelve hours, and no
  operation changes the deadline of a ticket.
\<close>

theorem tickets_never_expire:
  "(i \<in> set (interventions (store s)) \<and> list_all (\<lambda>op. \<not> names op i) ops \<longrightarrow>
      i \<in> set (interventions (store (run ops s)))) \<and>
   (x \<in> set (students (store s)) \<and> list_all (\<lambda>op. \<not> concerns op (student_id x)) ops \<longrightarrow>
      x \<in> set (students (store (run ops s)))) \<and>
   (j \<in> set (interventions (store (run ops s))) \<and> iv_status j = Expired \<longrightarrow>
      j \<in> set (interventions (store s))) \<and>
   (list_all has_deadline (interventions (store s)) \<longrightarrow>
      list_all has_deadline (interventions (store (run ops s)))) \<and>
   list_all has_deadline (interventions (store (run ops (initial checks)))) \<and>
   (\<exists>rest. map expires_at (interventions (store (run ops s))) =
            map expires_at (interventions (store s)) @ rest)"
proof (intro conjI impI)
  assume "i \<in> set (interventions (store s)) \<and> list_all (\<lambda>op. \<not> names op i) ops"
  then show "i \<in> set (interventions (store (run ops s)))"
  proof (induction ops arbitrary: s)
    case Nil
    then show ?case by simp
  next
    case (Cons op ops)
    then have "i \<in> set (interventions (store (step op s)))"
      by (simp add: unnamed_ticket_kept)
    with Cons show ?case by simp
  qed
next
  assume "x \<in> set (students (store s)) \<and> list_all (\<lambda>op. \<not> concerns op (student_id x)) ops"
  then show "x \<in> set (students (store (run ops s)))"
  proof (induction ops arbitrary: s)
    case Nil
    then show ?case by simp
  next
    case (Cons op ops)
    then have "x \<in> set (students (store (step op s)))"
      by (simp add: unconcerned_student_kept)
    with Cons show ?case by simp
  qed
next
  assume "j \<in> set (interventions (store (run ops s))) \<and> iv_status j = Expired"
  then show "j \<in> set (interventions (store s))"
  proof (induction ops arbitrary: s)
    case Nil
    then show ?case by simp
  next
    case (Cons op ops)
    then have "j \<in> set (interventions (store (step op s)))" by simp
    with Cons.prems show ?case by (blast intro: step_never_expires)
  qed
next
  show d: "list_all has_deadline (interventions (store (run ops s)))"
    if "list_all has_deadline (interventions (store s))" for s
    using that
  proof (induction ops arbitrary: s)
    case Nil
    then show ?case by simp
  next
    case (Cons op ops)
    then show ?case by (simp add: step_keeps_deadlines)
  qed
  show "list_all has_deadline (interventions (store (run ops (initial checks))))"
    by (rule d) (simp add: initial_def)
next
  show "\<exists>rest. map expires_at (interventions (store (run ops s))) =
            map expires_at (interventions (store s)) @ rest"
  proof (induction ops arbitrary: s)
    case Nil
    then show ?case by simp
  next
    case (Cons op ops)
    from Cons [of "step op s"] step_keeps_expiry [of op s] show ?case by auto
  qed
qed

theorem tickets_never_expire_witness:
  "\<lparr>iv_id = 1, iv_student_id = ''123'', trigger_log_id = Some 1, mentor_email = None,
     remedial_task = None, iv_status = Pending, assigned_at = None, completed_at = None,
     iv_created_at = 100, expires_at = Some 43300\<rparr> \<in> set (interventions (store locked)) \<and>
   \<lparr>iv_id = 1, iv_student_id = ''123'', trigger_log_id = Some 1, mentor_email = None,
     remedial_task = None, iv_status = Pending, assigned_at = None, completed_at = None,
     iv_created_at = 100, expires_at = Some 43300\<rparr>
     \<in> set (interventions (store (run much_later locked))) \<and>
   \<lparr>student_id = ''123'', name = ''Test Student'', email = Some ''student@test.com'',
     status = NeedsIntervention, updated_at = 100\<rparr> \<in> set (students (store (run much_later locked))) \<and>
   list_all has_deadline (interventions (store locked)) \<and>
   list_all has_deadline (interventions (store (run much_later locked))) \<and>
   \<lparr>iv_id = 1, iv_student_id = ''123'', trigger_log_id = Some 1, mentor_email = None,
     remedial_task = None, iv_status = Expired, assigned_at = None, completed_at = None,
     iv_created_at = 100, expires_at = Some 43300\<rparr>
     \<in> set (interventions (store (run much_later
          (locked\<lparr>store := (store locked)\<lparr>interventions :=
             map (\<lambda>i. i\<lparr>iv_status := Expired\<rparr>) (interventions (store locked))\<rparr>\<rparr>)))) \<and>
   \<lparr>iv_id = 1, iv_student_id = ''123'', trigger_log_id = Some 1, mentor_email = None,
     remedial_task = None, iv_status = Expired, assigned_at = None, completed_at = None,
     iv_created_at = 100, expires_at = Some 43300\<rparr>
     \<in> set (interventions (store
          (locked\<lparr>store := (store locked)\<lparr>interventions :=
             map (\<lambda>i. i\<lparr>iv_status := Expired\<rparr>) (interventions (store locked))\<rparr>\<rparr>)))"
proof -
  let ?i = "\<lparr>iv_id = 1, iv_student_id = ''123'', trigger_log_id = Some 1, mentor_email = None,
     remedial_task = None, iv_status = Pending, assigned_at = None, completed_at = None,
     iv_created_at = 100, expires_at = Some 43300\<rparr>"
  let ?x = "\<lparr>student_id = ''123'', name = ''Test Student'', email = Some ''student@test.com'',
     status = NeedsIntervention, updated_at = 100\<rparr>"
  have 1: "?i \<in> set (interventions (store locked))" "?x \<in> set (students (store locked))"
    by (simp_all add: locked_eq)
  have 2: "list_all (\<lambda>op. \<not> names op ?i) much_later"
    "list_all (\<lambda>op. \<not> concerns op (student_id ?x)) much_later"
    by (simp_all add: much_later_def targets_def complete_def checkin_def)
  have 3: "list_all has_deadline (interventions (store locked))"
    by (simp add: locked_eq has_deadline_def)
  let ?j = "\<lparr>iv_id = 1, iv_student_id = ''123'', trigger_log_id = Some 1, mentor_email = None,
     remedial_task = None, iv_status = Expired, assigned_at = None, completed_at = None,
     iv_created_at = 100, expires_at = Some 43300\<rparr>"
  let ?s = "locked\<lparr>store := (store locked)\<lparr>interventions :=
             map (\<lambda>i. i\<lparr>iv_status := Expired\<rparr>) (interventions (store locked))\<rparr>\<rparr>"
  have 4: "?j \<in> set (interventions (store ?s))" "iv_status ?j = Expired"
    by (simp_all add: locked_eq)
  have 5: "list_all (\<lambda>op. \<not> names op ?j) much_later"
    by (simp add: much_later_def targets_def complete_def checkin_def)
  have 6: "?j \<in> set (interventions (store (run much_later ?s)))"
    using 4 5 tickets_never_expire [of ?j ?s much_later ?x ?j] by blast
  show ?thesis
    using 1 2 3 4 6 tickets_never_expire [of ?i locked much_later ?x]
      tickets_never_expire [of ?j ?s much_later ?x ?j]
    by blast
qed

text \<open>
  C9 as stated fails: ticket 1 is created at time 100 with deadline 43300, and at time
  2000000 it is still Pending and the student is still in NeedsIntervention.
\<close>

theorem pending_after_deadline:
  "map iv_status (interventions (store locked)) = [Pending] \<and>
   map iv_created_at (interventions (store locked)) = [100] \<and>
   map expires_at (interventions (store locked)) = [Some (100 + 12 * 60 * 60)] \<and>
   100 + 12 * 60 * 60 < (2000000 :: nat) \<and>
   map iv_status (interventions (store (run much_later locked))) = [Pending] \<and>
   map status (students (store (run much_later locked))) = [NeedsIntervention]"
  by (simp add: much_later_def locked_eq api_complete_remedial_def complete_def falsy_def Let_def
        update_intervention_completed_def update_student_status_def matches_def
        text_value_def int4_param_def
        server_daily_checkin_def query_student_def checkin_def select_student_def)

text \<open>
  What the dispatcher does. Publish emits the event to the student's socket exactly when
  the registry maps the student, and otherwise does nothing; no request handler writes to
  the registry, so nothing is queued. Register maps the student to the registering
  socket, replacing an earlier mapping and leaving other students alone. Unregister does
  nothing when no entry holds the socket; otherwise it removes the first entry that holds
  it, in registration order, and only that one.
\<close>

lemma dispatcher_contract:
  "notifyStudent m sid ev = (case map_get m sid of None \<Rightarrow> [] | Some socket \<Rightarrow> [Emit socket ev]) \<and>
   connectedStudents (fst (snd (server_daily_checkin e b s))) = connectedStudents s \<and>
   connectedStudents (fst (snd (server_assign_intervention t b s))) = connectedStudents s \<and>
   connectedStudents (fst (snd (server_complete_remedial t b s))) = connectedStudents s \<and>
   map_get (register socket sid m) sid' = (if sid' = sid then Some socket else map_get m sid') \<and>
   (socket \<notin> snd ` set m \<longrightarrow> disconnect socket m = m) \<and>
   (find (\<lambda>(k, v). v = socket) m = Some (k, v) \<longrightarrow>
      v = socket \<and> disconnect socket m = map_delete m k \<and>
      map_get (disconnect socket m) sid' = (if sid' = k then None else map_get m sid'))"
proof -
  have 1: "connectedStudents (fst (snd (server_daily_checkin e b s))) = connectedStudents s"
    by (simp add: server_daily_checkin_def Let_def case_prod_beta split: list.splits option.splits)
  have 2: "connectedStudents (fst (snd (server_assign_intervention t b s))) = connectedStudents s"
    "connectedStudents (fst (snd (server_complete_remedial t b s))) = connectedStudents s"
    by (simp_all add: server_assign_intervention_def server_complete_remedial_def Let_def
          split: option.splits)
  have 3: "socket \<notin> snd ` set m \<longrightarrow> disconnect socket m = m"
    using find_None_values [of socket m] by (auto simp: disconnect_def disconnect_loop_find)
  have 4: "find (\<lambda>(k, v). v = socket) m = Some (k, v) \<longrightarrow>
      v = socket \<and> disconnect socket m = map_delete m k \<and>
      map_get (disconnect socket m) sid' = (if sid' = k then None else map_get m sid')"
  proof
    assume f: "find (\<lambda>(k, v). v = socket) m = Some (k, v)"
    then have "v = socket" by (auto simp: find_Some_iff)
    moreover have "disconnect socket m = map_delete m k"
      using f by (simp add: disconnect_def disconnect_loop_find)
    ultimately show "v = socket \<and> disconnect socket m = map_delete m k \<and>
      map_get (disconnect socket m) sid' = (if sid' = k then None else map_get m sid')"
      by (simp add: map_get_delete)
  qed
  have 5: "notifyStudent m sid ev =
      (case map_get m sid of None \<Rightarrow> [] | Some socket \<Rightarrow> [Emit socket ev])"
    by (simp add: notifyStudent_def)
  have 6: "map_get (register socket sid m) sid' = (if sid' = sid then Some socket else map_get m sid')"
    by (rule map_get_register)
  from 1 2 3 4 5 6 show ?thesis by blast
qed


lemma dispatcher_contract_example:
  "''s9'' \<notin> snd ` set [(''A'', ''s1''), (''B'', ''s2'')] \<and>
   disconnect ''s9'' [(''A'', ''s1''), (''B'', ''s2'')] = [(''A'', ''s1''), (''B'', ''s2'')] \<and>
   find (\<lambda>(k, v). v = ''s2'') [(''A'', ''s1''), (''B'', ''s2'')] = Some (''B'', ''s2'') \<and>
   disconnect ''s2'' [(''A'', ''s1''), (''B'', ''s2'')] = [(''A'', ''s1'')] \<and>
   map_get (disconnect ''s2'' [(''A'', ''s1''), (''B'', ''s2'')]) ''B'' = None \<and>
   map_get (disconnect ''s2'' [(''A'', ''s1''), (''B'', ''s2'')]) ''A'' = Some ''s1'' \<and>
   map_get (register ''s3'' ''A'' [(''A'', ''s1''), (''B'', ''s2'')]) ''A'' = Some ''s3''"
proof -
  have h1: "''s9'' \<notin> snd ` set [(''A'', ''s1''), (''B'', ''s2'')]" by simp
  have h2: "find (\<lambda>(k, v). v = ''s2'') [(''A'', ''s1''), (''B'', ''s2'')] = Some (''B'', ''s2'')"
    by simp
  show ?thesis
    using h1 h2
      dispatcher_contract [of "[(''A'', ''s1''), (''B'', ''s2'')]" "''A''" _ _ _ _ _ "''s3''" "''A''"
        "''B''" "''s2''"]
      dispatcher_contract [of "[(''A'', ''s1''), (''B'', ''s2'')]" "''A''" _ _ _ _ _ "''s2''" "''A''"
        "''B''" "''s2''"]
      dispatcher_contract [of "[(''A'', ''s1''), (''B'', ''s2'')]" "''A''" _ _ _ _ _ "''s2''" "''B''"
        "''B''" "''s2''"]
      dispatcher_contract [of "[(''A'', ''s1''), (''B'', ''s2'')]" "''A''" _ _ _ _ _ "''s9''" "''A''"
        "''B''" "''s2''"]
    by (simp add: map_delete_def map_get_def)
qed

text \<open>
  C8. Publish and Register behave as the claim says (\<open>dispatcher_contract\<close>). Unregister
  does not for a socket that registered two students: the loop stops at the first entry
  of the socket, so after the disconnect the second student is still mapped to the closed
  socket, and Publish for that student still emits to it.
\<close>

theorem disconnect_leaves_second_registration:
  "connectedStudents (run [SocketRegister ''s1'' ''A'', SocketRegister ''s1'' ''B'',
      SocketDisconnect ''s1''] (initial True)) = [(''B'', ''s1'')] \<and>
   map_get (connectedStudents (run [SocketRegister ''s1'' ''A'', SocketRegister ''s1'' ''B'',
      SocketDisconnect ''s1''] (initial True))) ''B'' = Some ''s1'' \<and>
   notifyStudent (connectedStudents (run [SocketRegister ''s1'' ''A'', SocketRegister ''s1'' ''B'',
      SocketDisconnect ''s1''] (initial True))) ''B'' (StatusUpdate Active)
     = [Emit ''s1'' (StatusUpdate Active)]"
  by (simp add: initial_def register_def map_set_def disconnect_def map_delete_def
        notifyStudent_def map_get_def)

text \<open>
  C6. The serverless check-in handler has no range validation. With the tables of its
  own \<open>initDatabase\<close> a quiz score of 11 is evaluated, logged and answered with
  "On Track", and negative focus minutes are logged and open a ticket; with the tables of
  \<open>schema.sql\<close> the same request ends in the store's constraint error and status 500.
  The Express server answers the same body with 400.
\<close>

theorem serverless_checkin_accepts_out_of_range:
  "fst (api_daily_checkin (env_at 100) ''POST'' (checkin ''123'' 11 90 0) (store (initial False))) =
     CheckinJson ''On Track'' ''Great job! Keep up the good work.''
       \<lparr>log_id = 1, log_student_id = ''123'', quiz_score = 11, focus_minutes = 90, passed = True,
        tab_switches = 0, log_created_at = 100\<rparr> True None \<and>
   map quiz_score (daily_logs (fst (snd (api_daily_checkin (env_at 100) ''POST''
     (checkin ''123'' 11 90 0) (store (initial False)))))) = [11] \<and>
   map status (students (fst (snd (api_daily_checkin (env_at 100) ''POST''
     (checkin ''123'' 11 90 0) (store (initial False)))))) = [OnTrack] \<and>
   http_status (fst (api_daily_checkin (env_at 100) ''POST'' (checkin ''123'' 9 (- 5) 0)
     (store (initial False)))) = 200 \<and>
   map focus_minutes (daily_logs (fst (snd (api_daily_checkin (env_at 100) ''POST''
     (checkin ''123'' 9 (- 5) 0) (store (initial False)))))) = [- 5] \<and>
   map iv_status (interventions (fst (snd (api_daily_checkin (env_at 100) ''POST''
     (checkin ''123'' 9 (- 5) 0) (store (initial False)))))) = [Pending] \<and>
   fst (api_daily_checkin (env_at 100) ''POST'' (checkin ''123'' 11 90 0) (store (initial True))) =
     Error 500 ''Internal server error'' \<and>
   http_status (fst (server_daily_checkin (env_at 100) (checkin ''123'' 11 90 0) (initial False))) = 400"
  by (simp add: initial_def initDatabase_def select_student_def query_student_def text_value_def
        int4_def gate_def
        api_daily_checkin_def server_daily_checkin_def checkin_def env_at_def falsy_def Let_def
        insert_daily_log_def insert_intervention_def update_student_status_def next_id_def
        trigger_webhook_def)

end
